(* ===== verification/Prelude.thy ===== *)
theory Prelude
  imports Main "HOL-Library.AList" "HOL-Library.Multiset" "HOL-Library.List_Lexorder" "HOL-Library.Char_ord"
begin

text \<open>
  Shared vocabulary of the development: the collections of rewrite rules the component
  theories extend, the result type that stands for JavaScript exceptions, and the models of
  the JavaScript containers the code uses everywhere.

  \<^item> A \<open>Set\<close> is a list without repetitions in insertion order (\<open>set_add\<close>, \<open>js_set\<close>).
  \<^item> A \<open>Map\<close> is an association list in insertion order; \<open>map_set\<close> overwrites in place or
    appends, as \<open>Map.prototype.set\<close> does.
  \<^item> \<open>Array.prototype.sort\<close> is a stable sort by an integer-valued comparator (\<open>js_sort\<close>).
\<close>

named_theorems js_simps \<open>rewrite rules for the JavaScript container models\<close>
named_theorems canonical_intros \<open>introduction rules that establish canonical (strictly sorted) form\<close>

section \<open>Results\<close>

text \<open>A thrown error is \<open>Inl\<close>, a returned value \<open>Inr\<close>.\<close>

type_synonym ('e, 'a) result = "'e + 'a"

fun and_then :: "('e, 'a) result \<Rightarrow> ('a \<Rightarrow> ('e, 'b) result) \<Rightarrow> ('e, 'b) result" where
  "and_then (Inl e) f = Inl e"
| "and_then (Inr a) f = f a"

fun traverse :: "('a \<Rightarrow> ('e, 'b) result) \<Rightarrow> 'a list \<Rightarrow> ('e, 'b list) result" where
  "traverse f [] = Inr []"
| "traverse f (x # xs) =
     (case f x of Inl e \<Rightarrow> Inl e
      | Inr y \<Rightarrow> (case traverse f xs of Inl e \<Rightarrow> Inl e | Inr ys \<Rightarrow> Inr (y # ys)))"

lemma and_then_Inr_iff: "and_then r f = Inr b \<longleftrightarrow> (\<exists>a. r = Inr a \<and> f a = Inr b)"
  by (cases r) auto

lemma and_then_Inl_iff: "and_then r f = Inl e \<longleftrightarrow> r = Inl e \<or> (\<exists>a. r = Inr a \<and> f a = Inl e)"
  by (cases r) auto

lemma traverse_cong [fundef_cong]:
  "xs = ys \<Longrightarrow> (\<And>x. x \<in> set ys \<Longrightarrow> f x = g x) \<Longrightarrow> traverse f xs = traverse g ys"
  by (induction ys arbitrary: xs) (auto split: sum.splits)

lemma traverse_Inr_map:
  "(\<And>x. x \<in> set xs \<Longrightarrow> f x = Inr (g x)) \<Longrightarrow> traverse f xs = Inr (map g xs)"
  by (induction xs) auto

lemma traverse_Inr_iff:
  "traverse f xs = Inr ys \<longleftrightarrow> list_all2 (\<lambda>x y. f x = Inr y) xs ys"
proof (induction xs arbitrary: ys)
  case Nil
  then show ?case by auto
next
  case (Cons x xs)
  show ?case
  proof (cases "f x")
    case (Inl e)
    then show ?thesis by (auto simp: list_all2_Cons1)
  next
    case (Inr y)
    then show ?thesis
      by (cases "traverse f xs") (auto simp: list_all2_Cons1 Cons.IH [symmetric])
  qed
qed

text \<open>When \<open>f\<close> accepts exactly the elements with \<open>P\<close>, \<open>traverse f\<close> accepts exactly the lists of them.\<close>

lemma traverse_decides:
  assumes "\<And>x. x \<in> set xs \<Longrightarrow> (P x \<longrightarrow> (\<exists>y. f x = Inr y)) \<and> (\<not> P x \<longrightarrow> f x = Inl e)"
  shows "(list_all P xs \<longrightarrow> (\<exists>ys. traverse f xs = Inr ys)) \<and> (\<not> list_all P xs \<longrightarrow> traverse f xs = Inl e)"
  using assms
proof (induction xs)
  case Nil
  then show ?case by simp
next
  case (Cons x xs)
  have ih: "(list_all P xs \<longrightarrow> (\<exists>ys. traverse f xs = Inr ys)) \<and> (\<not> list_all P xs \<longrightarrow> traverse f xs = Inl e)"
    by (rule Cons.IH) (simp add: Cons.prems)
  show ?case
    using ih Cons.prems [of x] by (cases "P x"; cases "list_all P xs") auto
qed

section \<open>Sets\<close>

definition set_add :: "'a \<Rightarrow> 'a list \<Rightarrow> 'a list" where
  "set_add x s = (if x \<in> set s then s else s @ [x])"

definition set_add_all :: "'a list \<Rightarrow> 'a list \<Rightarrow> 'a list" where
  "set_add_all xs s = foldl (\<lambda>acc x. set_add x acc) s xs"

definition js_set :: "'a list \<Rightarrow> 'a list" where
  "js_set xs = set_add_all xs []"

lemma set_set_add [simp, js_simps]: "set (set_add x s) = insert x (set s)"
  by (auto simp: set_add_def)

lemma distinct_set_add [simp, js_simps]: "distinct (set_add x s) = distinct s"
  by (auto simp: set_add_def)

lemma length_set_add: "length (set_add x s) = (if x \<in> set s then length s else Suc (length s))"
  by (simp add: set_add_def)

lemma set_add_all_Nil [simp]: "set_add_all [] s = s"
  by (simp add: set_add_all_def)

lemma set_add_all_Cons [simp]: "set_add_all (x # xs) s = set_add_all xs (set_add x s)"
  by (simp add: set_add_all_def)

lemma set_set_add_all [simp, js_simps]: "set (set_add_all xs s) = set xs \<union> set s"
  by (induction xs arbitrary: s) auto

lemma distinct_set_add_all [simp, js_simps]: "distinct (set_add_all xs s) = distinct s"
  by (induction xs arbitrary: s) auto

lemma set_js_set [simp, js_simps]: "set (js_set xs) = set xs"
  by (simp add: js_set_def)

lemma distinct_js_set [simp, js_simps]: "distinct (js_set xs)"
  by (simp add: js_set_def)

lemma set_add_all_subset: "set xs \<subseteq> set s \<Longrightarrow> set_add_all xs s = s"
  by (induction xs arbitrary: s) (auto simp: set_add_def)

section \<open>Maps\<close>

type_synonym ('k, 'v) jmap = "('k \<times> 'v) list"

abbreviation map_set :: "'k \<Rightarrow> 'v \<Rightarrow> ('k, 'v) jmap \<Rightarrow> ('k, 'v) jmap" where
  "map_set \<equiv> AList.update"

abbreviation map_get :: "('k, 'v) jmap \<Rightarrow> 'k \<Rightarrow> 'v option" where
  "map_get \<equiv> map_of"

abbreviation map_keys :: "('k, 'v) jmap \<Rightarrow> 'k list" where
  "map_keys m \<equiv> map fst m"

abbreviation map_values :: "('k, 'v) jmap \<Rightarrow> 'v list" where
  "map_values m \<equiv> map snd m"

text \<open>\<open>new Map(pairs)\<close>: a later pair with the same key overwrites the value, not the position.\<close>

definition js_map :: "('k \<times> 'v) list \<Rightarrow> ('k, 'v) jmap" where
  "js_map ps = foldl (\<lambda>m p. map_set (fst p) (snd p) m) [] ps"

definition map_get_or :: "'v \<Rightarrow> ('k, 'v) jmap \<Rightarrow> 'k \<Rightarrow> 'v" where
  "map_get_or d m k = (case map_get m k of None \<Rightarrow> d | Some v \<Rightarrow> v)"

lemma map_get_set [simp, js_simps]: "map_get (map_set k v m) k' = (if k' = k then Some v else map_get m k')"
  by (simp add: update_conv')

lemma map_get_or_set [simp, js_simps]:
  "map_get_or d (map_set k v m) x = (if x = k then v else map_get_or d m x)"
  by (simp add: map_get_or_def update_conv')

lemma map_keys_set: "map_keys (map_set k v m) = (if k \<in> set (map_keys m) then map_keys m else map_keys m @ [k])"
  by (simp add: update_keys)

lemma set_map_keys_set [simp, js_simps]: "fst ` set (map_set k v m) = insert k (fst ` set m)"
  using arg_cong [OF map_keys_set [of k v m], of set] by (auto split: if_splits)

lemma distinct_map_set [simp, js_simps]:
  "distinct (map_keys m) \<Longrightarrow> distinct (map_keys (map_set k v m))"
  by (rule distinct_update)

lemma foldl_map_set_lookup:
  "map_get (foldl (\<lambda>m p. map_set (fst p) (snd p) m) m0 ps) = map_get m0 ++ map_get (rev ps)"
proof (induction ps arbitrary: m0)
  case Nil
  then show ?case by simp
next
  case (Cons p ps)
  then show ?case
    by (cases p) (simp add: update_conv fun_upd_def map_add_def fun_eq_iff split: option.splits)
qed

lemma map_get_js_map: "map_get (js_map ps) = map_get (rev ps)"
  by (simp add: js_map_def foldl_map_set_lookup)

lemma foldl_map_set_keys:
  "fst ` set (foldl (\<lambda>m p. map_set (fst p) (snd p) m) m0 ps) = fst ` set m0 \<union> fst ` set ps"
  by (induction ps arbitrary: m0) auto

lemma keys_js_map [simp, js_simps]: "fst ` set (js_map ps) = fst ` set ps"
  by (simp add: js_map_def foldl_map_set_keys)

lemma foldl_map_set_distinct:
  "distinct (map_keys m0) \<Longrightarrow> distinct (map_keys (foldl (\<lambda>m p. map_set (fst p) (snd p) m) m0 ps))"
  by (induction ps arbitrary: m0) auto

lemma distinct_js_map [simp, js_simps]: "distinct (map_keys (js_map ps))"
  by (simp add: js_map_def foldl_map_set_distinct)

lemma map_of_distinct_rev:
  assumes "distinct (map_keys ps)"
  shows "map_of (rev ps) = map_of ps"
proof -
  have "distinct (map_keys (rev ps))" using assms by (simp add: rev_map [symmetric])
  with assms show ?thesis by (intro map_of_inject_set [THEN iffD2]) auto
qed

lemma map_get_js_map_distinct: "distinct (map_keys ps) \<Longrightarrow> map_get (js_map ps) = map_get ps"
  by (simp add: map_get_js_map map_of_distinct_rev)

text \<open>\<open>new Map(values.map((value) => [key(value), value]))\<close>.\<close>

definition keyed :: "('a \<Rightarrow> 'k) \<Rightarrow> 'a list \<Rightarrow> ('k, 'a) jmap" where
  "keyed key xs = js_map (map (\<lambda>x. (key x, x)) xs)"

lemma distinct_keyed [simp]: "distinct (map_keys (keyed key xs))"
  by (simp add: keyed_def)

lemma keys_keyed [simp]: "fst ` set (keyed key xs) = key ` set xs"
  by (simp add: keyed_def image_image)

lemma keyed_mem: "(k, x) \<in> set (keyed key xs) \<Longrightarrow> x \<in> set xs \<and> key x = k"
proof -
  assume "(k, x) \<in> set (keyed key xs)"
  then have "map_of (keyed key xs) k = Some x" by simp
  then have "map_of (rev (map (\<lambda>x. (key x, x)) xs)) k = Some x" by (simp add: keyed_def map_get_js_map)
  then have "(k, x) \<in> set (rev (map (\<lambda>x. (key x, x)) xs))" by (rule map_of_SomeD)
  then show ?thesis by auto
qed

lemma keyed_get: "map_of (keyed key xs) k = Some x \<Longrightarrow> x \<in> set xs \<and> key x = k"
  by (rule keyed_mem) (rule map_of_SomeD)

lemma keyed_None: "map_of (keyed key xs) k = None \<longleftrightarrow> k \<notin> key ` set xs"
  by (simp add: map_of_eq_None_iff)

lemma keyed_get_iff:
  assumes "inj_on key (set xs)"
  shows "map_of (keyed key xs) k = Some x \<longleftrightarrow> x \<in> set xs \<and> key x = k"
proof
  assume "x \<in> set xs \<and> key x = k"
  moreover from this obtain y where "map_of (keyed key xs) k = Some y"
    using keyed_None [of key xs k] by (cases "map_of (keyed key xs) k") auto
  ultimately show "map_of (keyed key xs) k = Some x"
    using keyed_get assms by (metis inj_onD)
qed (rule keyed_get)

lemma set_keyed: "inj_on key (set xs) \<Longrightarrow> set (keyed key xs) = (\<lambda>x. (key x, x)) ` set xs"
proof (intro set_eqI iffI)
  fix p assume "inj_on key (set xs)" "p \<in> set (keyed key xs)"
  then show "p \<in> (\<lambda>x. (key x, x)) ` set xs" using keyed_mem [of "fst p" "snd p"] by (cases p) auto
next
  fix p assume inj: "inj_on key (set xs)" and p: "p \<in> (\<lambda>x. (key x, x)) ` set xs"
  then obtain x where "x \<in> set xs" "p = (key x, x)" by blast
  with keyed_get_iff [OF inj, of "key x" x] show "p \<in> set (keyed key xs)" by (auto dest: map_of_SomeD)
qed

lemma keyed_inj: "inj_on key (set xs) \<Longrightarrow> distinct xs \<Longrightarrow> keyed key xs = map (\<lambda>x. (key x, x)) xs"
proof (induction xs rule: rev_induct)
  case Nil
  then show ?case by (simp add: keyed_def js_map_def)
next
  case (snoc x xs)
  then have "key x \<notin> key ` set xs" by (auto simp: inj_on_def)
  moreover have "keyed key xs = map (\<lambda>x. (key x, x)) xs" using snoc by (auto simp: inj_on_def)
  moreover have "AList.update k v m = m @ [(k, v)]" if "k \<notin> fst ` set m" for k v and m :: "('b \<times> 'a) list"
    using that by (induction m) auto
  ultimately show ?case by (simp add: keyed_def js_map_def image_image)
qed

text \<open>A loop that updates the entry of each element's key.\<close>

lemma foldl_map_set_get:
  assumes "\<And>m x. step m x = map_set (key x) (g (map_get m (key x)) x) m"
  shows "map_get (foldl step m xs) k = foldl (\<lambda>v x. Some (g v x)) (map_get m k) (filter (\<lambda>x. key x = k) xs)"
  by (induction xs arbitrary: m) (auto simp: assms)

lemma foldl_map_set_step_distinct:
  assumes "\<And>m x. step m x = map_set (key x) (g (map_get m (key x)) x) m" "distinct (map_keys m)"
  shows "distinct (map_keys (foldl step m xs))"
  using assms(2) by (induction xs arbitrary: m) (auto simp: assms(1))

lemma foldl_map_set_step_keys:
  assumes "\<And>m x. step m x = map_set (key x) (g (map_get m (key x)) x) m"
  shows "fst ` set (foldl step m xs) = fst ` set m \<union> key ` set xs"
  by (induction xs arbitrary: m) (auto simp: assms)

section \<open>Sorting\<close>

text \<open>
  \<open>Array.prototype.sort\<close> with a comparator: negative and zero keep the left element first, and
  the sort is stable.
\<close>

fun js_insert :: "('a \<Rightarrow> 'a \<Rightarrow> int) \<Rightarrow> 'a \<Rightarrow> 'a list \<Rightarrow> 'a list" where
  "js_insert cmp x [] = [x]"
| "js_insert cmp x (y # ys) = (if cmp x y \<le> 0 then x # y # ys else y # js_insert cmp x ys)"

definition js_sort :: "('a \<Rightarrow> 'a \<Rightarrow> int) \<Rightarrow> 'a list \<Rightarrow> 'a list" where
  "js_sort cmp xs = foldr (js_insert cmp) xs []"

lemma js_insert_key:
  assumes "\<And>x y. cmp x y \<le> 0 \<longleftrightarrow> key x \<le> (key y :: 'k :: linorder)"
  shows "js_insert cmp x ys = insort_key key x ys"
  by (induction ys) (auto simp: assms)

lemma js_sort_key:
  assumes "\<And>x y. cmp x y \<le> 0 \<longleftrightarrow> key x \<le> (key y :: 'k :: linorder)"
  shows "js_sort cmp xs = sort_key key xs"
proof -
  have "js_insert cmp = insort_key key"
    by (intro ext js_insert_key) (rule assms)
  then show ?thesis by (simp add: js_sort_def sort_key_def)
qed

text \<open>
  What a comparator must do for the sorted list to be determined by the elements: order any two
  of them and be transitive; elements that compare equal in both directions may be distinct.
\<close>

locale collation =
  fixes cmp :: "'a \<Rightarrow> 'a \<Rightarrow> int"
  assumes total: "cmp a b \<le> 0 \<or> cmp b a \<le> 0"
    and trans: "cmp a b \<le> 0 \<Longrightarrow> cmp b c \<le> 0 \<Longrightarrow> cmp a c \<le> 0"
begin

lemma mset_insert: "mset (js_insert cmp x ys) = add_mset x (mset ys)"
  by (induction ys) auto

lemma mset_sort: "mset (js_sort cmp xs) = mset xs"
  by (induction xs) (auto simp: js_sort_def mset_insert)

lemma set_sort: "set (js_sort cmp xs) = set xs"
  by (metis mset_sort set_mset_mset)

lemma sorted_insert:
  "sorted_wrt (\<lambda>a b. cmp a b \<le> 0) ys \<Longrightarrow> sorted_wrt (\<lambda>a b. cmp a b \<le> 0) (js_insert cmp x ys)"
proof (induction ys)
  case Nil
  then show ?case by simp
next
  case (Cons y ys)
  have members: "set (js_insert cmp x ys) = insert x (set ys)"
    using mset_insert [of x ys] by (metis set_mset_add_mset_insert set_mset_mset)
  show ?case
    using Cons total [of x y] trans by (auto simp: members)
qed

lemma sorted_sort: "sorted_wrt (\<lambda>a b. cmp a b \<le> 0) (js_sort cmp xs)"
  by (induction xs) (auto simp: js_sort_def sorted_insert)

lemma sorted_unique:
  assumes "sorted_wrt (\<lambda>a b. cmp a b \<le> 0) xs" "sorted_wrt (\<lambda>a b. cmp a b \<le> 0) ys" "mset xs = mset ys"
    and "\<And>a b. a \<in> set xs \<Longrightarrow> b \<in> set xs \<Longrightarrow> cmp a b \<le> 0 \<Longrightarrow> cmp b a \<le> 0 \<Longrightarrow> a = b"
  shows "xs = ys"
  using assms
proof (induction xs arbitrary: ys)
  case Nil
  then show ?case by simp
next
  case (Cons x xs)
  then obtain y ys' where ys: "ys = y # ys'" by (cases ys) auto
  have sets: "set ys = set (x # xs)" using Cons.prems(3) by (metis mset_eq_setD)
  have "cmp x y \<le> 0" if "x \<noteq> y" using that sets Cons.prems(1) ys by auto
  moreover have "cmp y x \<le> 0" if "x \<noteq> y" using that sets Cons.prems(2) ys by auto
  ultimately have xy: "x = y" using Cons.prems(4) [of x y] sets ys by auto
  have "xs = ys'"
    by (rule Cons.IH) (use Cons.prems xy ys in auto)
  with xy ys show ?case by simp
qed

lemma sort_unique:
  assumes "mset xs = mset ys"
    and "\<And>a b. a \<in> set xs \<Longrightarrow> b \<in> set xs \<Longrightarrow> cmp a b \<le> 0 \<Longrightarrow> cmp b a \<le> 0 \<Longrightarrow> a = b"
  shows "js_sort cmp xs = js_sort cmp ys"
  using assms by (intro sorted_unique sorted_sort) (auto simp: mset_sort set_sort)

lemma sort_sorted: "sorted_wrt (\<lambda>a b. cmp a b \<le> 0) xs \<Longrightarrow> js_sort cmp xs = xs"
proof (induction xs)
  case Nil
  then show ?case by (simp add: js_sort_def)
next
  case (Cons x xs)
  then have "js_insert cmp x xs = x # xs" by (cases xs) auto
  with Cons show ?case by (simp add: js_sort_def)
qed

lemma by_key: "collation (\<lambda>a b. cmp (f a) (f b))"
  by unfold_locales (use total trans in blast)+

end

lemma sort_key_id: "sort_key (\<lambda>x. x) xs = sort xs"
  by simp

lemma sorted_wrt_less_unique:
  "sorted_wrt (<) xs \<Longrightarrow> sorted_wrt (<) ys \<Longrightarrow> set xs = set ys \<Longrightarrow> xs = (ys :: 'a :: linorder list)"
  by (simp add: strict_sorted_iff sorted_distinct_set_unique)

lemma sorted_wrt_less_sort:
  "distinct xs \<Longrightarrow> sorted_wrt (<) (sort (xs :: 'a :: linorder list))"
  by (simp add: strict_sorted_iff)

text \<open>The first entries of a map whose keys are sorted, and the values they carry.\<close>

lemma map_of_sort_key:
  assumes "distinct (map_keys (m :: ('k :: linorder, 'v) jmap))"
  shows "map_of (sort_key fst m) = map_of m"
proof -
  have "distinct (map_keys (sort_key fst m))" using assms by (simp add: distinct_map)
  with assms show ?thesis by (intro map_of_inject_set [THEN iffD2]) auto
qed

lemma map_fst_sort_key: "map fst (sort_key fst m) = sort (map fst m)"
  by (intro properties_for_sort [symmetric]) (simp_all add: mset_map)

lemma distinct_keys_sort_key: "distinct (map fst (sort_key fst m)) = distinct (map fst m)"
  by (simp only: map_fst_sort_key distinct_sort)

lemma sort_key_idem [simp]: "sort_key key (sort_key key xs) = sort_key key xs"
  by (simp add: sort_key_id_if_sorted)

lemma insort_key_map_snd:
  "insort_key fst (fst p, f (snd p)) (map (\<lambda>p. (fst p, f (snd p))) m) =
   map (\<lambda>p. (fst p, f (snd p))) (insort_key fst p m)"
  by (induction m) auto

lemma sort_key_map_snd:
  "sort_key fst (map (\<lambda>p. (fst p, f (snd p))) m) = map (\<lambda>p. (fst p, f (snd p))) (sort_key fst m)"
  by (induction m) (simp_all add: insort_key_map_snd)

section \<open>Lists\<close>

fun list_find :: "('a \<Rightarrow> bool) \<Rightarrow> 'a list \<Rightarrow> 'a option" where
  "list_find p [] = None"
| "list_find p (x # xs) = (if p x then Some x else list_find p xs)"

lemma list_find_Some: "list_find p xs = Some x \<Longrightarrow> x \<in> set xs \<and> p x"
  by (induction xs) (auto split: if_splits)

lemma list_find_None: "list_find p xs = None \<longleftrightarrow> (\<forall>x \<in> set xs. \<not> p x)"
  by (induction xs) auto

text \<open>\<open>forEach((value, index) => ...)\<close> that collects a list: the index counts from \<open>i\<close>.\<close>

fun collect_from :: "nat \<Rightarrow> (nat \<Rightarrow> 'a \<Rightarrow> 'b list) \<Rightarrow> 'a list \<Rightarrow> 'b list" where
  "collect_from i f [] = []"
| "collect_from i f (x # xs) = f i x @ collect_from (Suc i) f xs"

abbreviation collect_indexed :: "(nat \<Rightarrow> 'a \<Rightarrow> 'b list) \<Rightarrow> 'a list \<Rightarrow> 'b list" where
  "collect_indexed \<equiv> collect_from 0"

lemma set_collect_from: "set (collect_from i f xs) = (\<Union>j < length xs. set (f (i + j) (xs ! j)))"
proof (induction xs arbitrary: i)
  case Nil
  then show ?case by simp
next
  case (Cons x xs)
  have "{..<length (x # xs)} = insert 0 (Suc ` {..<length xs})"
    by (auto simp: lessThan_Suc_eq_insert_0)
  then show ?case by (simp add: Cons.IH)
qed

lemma collect_from_Nil_iff:
  "collect_from i f xs = [] \<longleftrightarrow> (\<forall>j < length xs. f (i + j) (xs ! j) = [])"
proof (induction xs arbitrary: i)
  case Nil
  then show ?case by simp
next
  case (Cons x xs)
  have "(\<forall>j < Suc n. P j) \<longleftrightarrow> P 0 \<and> (\<forall>j < n. P (Suc j))" for n and P :: "nat \<Rightarrow> bool"
    by (auto simp: less_Suc_eq_0_disj)
  then show ?case by (simp add: Cons.IH)
qed

lemma collect_from_NilI:
  "(\<And>i x. x \<in> set xs \<Longrightarrow> f i x = []) \<Longrightarrow> collect_from i f xs = []"
  by (simp add: collect_from_Nil_iff)

definition concat_map :: "('a \<Rightarrow> 'b list) \<Rightarrow> 'a list \<Rightarrow> 'b list" where
  "concat_map f xs = concat (map f xs)"

lemma concat_map_simps [simp]:
  "concat_map f [] = []"
  "concat_map f (x # xs) = f x @ concat_map f xs"
  "set (concat_map f xs) = (\<Union>x \<in> set xs. set (f x))"
  by (simp_all add: concat_map_def)

lemma concat_map_cong [fundef_cong]:
  "xs = ys \<Longrightarrow> (\<And>x. x \<in> set ys \<Longrightarrow> f x = g x) \<Longrightarrow> concat_map f xs = concat_map g ys"
  by (simp add: concat_map_def cong: map_cong)

text \<open>\<open>String.prototype.startsWith\<close>, \<open>slice\<close> after a prefix, and \<open>split\<close> at one character.\<close>

fun starts_with :: "string \<Rightarrow> string \<Rightarrow> bool" where
  "starts_with s [] = True"
| "starts_with [] (c # cs) = False"
| "starts_with (x # xs) (c # cs) = (x = c \<and> starts_with xs cs)"

lemma starts_with_iff: "starts_with s p \<longleftrightarrow> (\<exists>t. s = p @ t)"
  by (induction s p rule: starts_with.induct) auto

fun split_char :: "char \<Rightarrow> string \<Rightarrow> string list" where
  "split_char sep [] = [[]]"
| "split_char sep (c # cs) =
     (if c = sep then [] # split_char sep cs
      else (case split_char sep cs of [] \<Rightarrow> [[c]] | w # ws \<Rightarrow> (c # w) # ws))"

fun join_with :: "string \<Rightarrow> string list \<Rightarrow> string" where
  "join_with sep [] = []"
| "join_with sep [w] = w"
| "join_with sep (w # v # ws) = w @ sep @ join_with sep (v # ws)"

lemma split_char_not_Nil [simp]: "split_char sep s \<noteq> []"
  by (induction s) (auto split: list.splits)

lemma join_split_char: "join_with [sep] (split_char sep s) = s"
proof (induction s)
  case Nil
  then show ?case by simp
next
  case (Cons c cs)
  show ?case
  proof (cases "split_char sep cs")
    case Nil
    then show ?thesis by simp
  next
    case (Cons w ws)
    with \<open>join_with [sep] (split_char sep cs) = cs\<close> show ?thesis
      by (cases ws) auto
  qed
qed

lemma split_char_no_sep: "\<forall>w \<in> set (split_char sep s). sep \<notin> set w"
  by (induction s) (auto split: list.splits)

lemma split_join_char:
  "ws \<noteq> [] \<Longrightarrow> \<forall>w \<in> set ws. sep \<notin> set w \<Longrightarrow> split_char sep (join_with [sep] ws) = ws"
proof (induction "[sep]" ws rule: join_with.induct)
  case 1
  then show ?case by simp
next
  case (2 w)
  then show ?case by (induction w) auto
next
  case (3 w v ws)
  have "split_char sep (w @ sep # rest) = w # split_char sep rest" if "sep \<notin> set w" for w rest
    using that by (induction w) auto
  with 3 show ?case by simp
qed

lemma of_char_char_of: "n < 256 \<Longrightarrow> of_char (char_of n) = (n :: nat)"
  by (simp add: of_char_of)

lemma distinct_singleton_iff: "distinct xs \<Longrightarrow> xs = [a] \<longleftrightarrow> set xs = {a}"
proof
  assume "distinct xs" "set xs = {a}"
  then show "xs = [a]" by (cases xs; cases "tl xs") auto
qed simp

end
