(* ===== verification/Text.thy ===== *)
theory Text
  imports Prelude
begin

text \<open>
  Text ordering: \<open>compareCodePoints\<close>, \<open>compareUtf8\<close>, \<open>isCanonicalStringSet\<close> and
  \<open>isCanonicalBy\<close> of \<open>packages/updates/src/canonical.ts\<close>, and \<open>canonicalStringSet\<close> of
  \<open>packages/orchestration/src/canonical.ts\<close>.

  A HOL \<open>string\<close> stands for a JavaScript string whose code points lie below 256, so that one
  \<open>char\<close> is one code point and one UTF-16 unit. The encoder \<open>utf8_point\<close> covers every code
  point up to 0x10FFFF, and \<open>buffer_compare_utf8_points\<close> shows for all of them that comparing
  encodings bytewise is comparing code points; the string functions are its instance.
\<close>

section \<open>UTF-8\<close>

definition utf8_point :: "nat \<Rightarrow> nat list" where
  "utf8_point c =
     (if c < 128 then [c]
      else if c < 2048 then [192 + c div 64, 128 + c mod 64]
      else if c < 65536 then [224 + c div 4096, 128 + c div 64 mod 64, 128 + c mod 64]
      else [240 + c div 262144, 128 + c div 4096 mod 64, 128 + c div 64 mod 64, 128 + c mod 64])"

definition utf8_points :: "nat list \<Rightarrow> nat list" where
  "utf8_points cs = concat_map utf8_point cs"

definition code_points :: "string \<Rightarrow> nat list" where
  "code_points s = map of_char s"

text \<open>\<open>Buffer.compare\<close>: -1, 0 or 1, bytewise, a proper prefix is smaller.\<close>

fun buffer_compare :: "nat list \<Rightarrow> nat list \<Rightarrow> int" where
  "buffer_compare [] [] = 0"
| "buffer_compare [] (y # ys) = -1"
| "buffer_compare (x # xs) [] = 1"
| "buffer_compare (x # xs) (y # ys) =
     (if x < y then -1 else if y < x then 1 else buffer_compare xs ys)"

definition compareUtf8 :: "string \<Rightarrow> string \<Rightarrow> int" where
  "compareUtf8 left right =
     buffer_compare (utf8_points (code_points left)) (utf8_points (code_points right))"

text \<open>
  The loop of \<open>compareCodePoints\<close>: the first nonzero difference within the common length, else
  the difference of the lengths.
\<close>

fun first_difference :: "nat list \<Rightarrow> nat list \<Rightarrow> int option" where
  "first_difference (x # xs) (y # ys) =
     (if int x - int y \<noteq> 0 then Some (int x - int y) else first_difference xs ys)"
| "first_difference _ _ = None"

definition compareCodePoints :: "string \<Rightarrow> string \<Rightarrow> int" where
  "compareCodePoints left right =
     (let leftPoints = code_points left; rightPoints = code_points right
      in case first_difference leftPoints rightPoints of
           Some difference \<Rightarrow> difference
         | None \<Rightarrow> int (length leftPoints) - int (length rightPoints))"

definition isCanonicalStringSet :: "string list \<Rightarrow> bool" where
  "isCanonicalStringSet values =
     (\<forall>index \<in> {1..<length values}. \<not> 0 \<le> compareUtf8 (values ! (index - 1)) (values ! index))"

definition isCanonicalBy :: "('a \<Rightarrow> string) \<Rightarrow> 'a list \<Rightarrow> bool" where
  "isCanonicalBy projection values =
     (\<forall>index \<in> {1..<length values}.
        \<not> 0 \<le> compareUtf8 (projection (values ! (index - 1))) (projection (values ! index)))"

text \<open>\<open>[...new Set(values)].sort(compareUtf8)\<close>\<close>

definition canonicalStringSet :: "string list \<Rightarrow> string list" where
  "canonicalStringSet values = js_sort compareUtf8 (js_set values)"

section \<open>Bytewise order is code point order\<close>

lemma div_mod_less:
  assumes "x < (y :: nat)"
  shows "x div k < y div k \<or> (x div k = y div k \<and> x mod k < y mod k)"
proof -
  have "x div k \<le> y div k" using assms by (simp add: div_le_mono)
  moreover have "x mod k < y mod k" if "x div k = y div k"
    using assms that div_mult_mod_eq [of x k] div_mult_mod_eq [of y k] by (metis nat_add_left_cancel_less)
  ultimately show ?thesis by linarith
qed

lemma utf8_point_less:
  assumes "x < y" and "y < 1114112"
  shows "buffer_compare (utf8_point x @ r) (utf8_point y @ s) = -1"
proof -
  define x1 y1 x2 y2 where "x1 = x div 64" and "y1 = y div 64" and "x2 = x1 div 64" and "y2 = y1 div 64"
  define x3 y3 where "x3 = x2 div 64" and "y3 = y2 div 64"
  have d1: "x1 < y1 \<or> x1 = y1 \<and> x mod 64 < y mod 64"
    using div_mod_less [OF assms(1)] by (simp add: x1_def y1_def)
  have d2: "x1 < y1 \<Longrightarrow> x2 < y2 \<or> x2 = y2 \<and> x1 mod 64 < y1 mod 64"
    using div_mod_less by (simp add: x2_def y2_def)
  have d3: "x2 < y2 \<Longrightarrow> x3 < y3 \<or> x3 = y3 \<and> x2 mod 64 < y2 mod 64"
    using div_mod_less by (simp add: x3_def y3_def)
  have e1: "x1 = y1 \<Longrightarrow> x2 = y2 \<and> x3 = y3" and e2: "x2 = y2 \<Longrightarrow> x3 = y3"
    by (simp_all add: x2_def y2_def x3_def y3_def)
  have enc: "utf8_point c =
     (if c < 128 then [c]
      else if c < 2048 then [192 + c div 64, 128 + c mod 64]
      else if c < 65536 then [224 + c div 64 div 64, 128 + c div 64 mod 64, 128 + c mod 64]
      else [240 + c div 64 div 64 div 64, 128 + c div 64 div 64 mod 64, 128 + c div 64 mod 64, 128 + c mod 64])"
    for c by (simp add: utf8_point_def div_mult2_eq [symmetric])
  note ex = enc [of x, folded x1_def x2_def x3_def] and ey = enc [of y, folded y1_def y2_def y3_def]
  consider (a) "y < 128" | (b) "x < 128" "128 \<le> y"
    | (c) "128 \<le> x" "y < 2048" | (d) "128 \<le> x" "x < 2048" "2048 \<le> y"
    | (e) "2048 \<le> x" "y < 65536" | (f) "2048 \<le> x" "x < 65536" "65536 \<le> y"
    | (g) "65536 \<le> x"
    using assms(1) by linarith
  then show ?thesis
  proof cases
    case a
    with assms(1) show ?thesis by (simp add: ex ey)
  next
    case b
    then show ?thesis by (simp add: ex ey)
  next
    case c
    with assms(1) d1 show ?thesis by (auto simp: ex ey)
  next
    case d
    then have "x1 < 32" by (simp add: x1_def)
    with d show ?thesis by (simp add: ex ey)
  next
    case e
    with assms(1) d1 d2 e1 show ?thesis by (auto simp: ex ey)
  next
    case f
    then have "x2 < 16" by (simp add: x1_def x2_def)
    with f show ?thesis by (simp add: ex ey)
  next
    case g
    with assms(1) d1 d2 d3 e1 e2 show ?thesis by (auto simp: ex ey)
  qed
qed

lemma buffer_compare_swap: "buffer_compare ys xs = - buffer_compare xs ys"
  by (induction xs ys rule: buffer_compare.induct) auto

lemma buffer_compare_same: "buffer_compare (p @ r) (p @ s) = buffer_compare r s"
  by (induction p) auto

lemma utf8_point_nonempty: "\<exists>b bs. utf8_point c = b # bs"
  by (auto simp: utf8_point_def)

text \<open>For every pair of code point lists, bytes compare as the code points do.\<close>

lemma buffer_compare_utf8_points:
  "\<forall>c \<in> set xs. c < 1114112 \<Longrightarrow> \<forall>c \<in> set ys. c < 1114112 \<Longrightarrow>
   buffer_compare (utf8_points xs) (utf8_points ys) = buffer_compare xs ys"
proof (induction xs ys rule: buffer_compare.induct)
  case (2 y ys)
  obtain b bs where "utf8_point y = b # bs" using utf8_point_nonempty by blast
  then show ?case by (simp add: utf8_points_def)
next
  case (3 x xs)
  obtain b bs where "utf8_point x = b # bs" using utf8_point_nonempty by blast
  then show ?case by (simp add: utf8_points_def)
next
  case (4 x xs y ys)
  have IH: "buffer_compare (utf8_points xs) (utf8_points ys) = buffer_compare xs ys" if "x = y"
    using 4 that by simp
  consider "x < y" | "y < x" | "x = y" by linarith
  then show ?case
  proof cases
    case 1
    with 4 show ?thesis by (simp add: utf8_points_def utf8_point_less)
  next
    case 2
    with 4 have "buffer_compare (utf8_points (y # ys)) (utf8_points (x # xs)) = -1"
      by (simp add: utf8_points_def utf8_point_less)
    with 2 show ?thesis by (simp add: buffer_compare_swap [of "utf8_points (x # xs)"])
  next
    case 3
    then show ?thesis
      using IH by (simp add: utf8_points_def buffer_compare_same)
  qed
qed (simp add: utf8_points_def)

lemma code_points_bound: "\<forall>c \<in> set (code_points s). c < 1114112"
proof -
  have "of_char c < (1114112 :: nat)" for c :: char
    by (rule less_trans [of _ 256]) (simp_all add: nat_of_char_less_256)
  then show ?thesis by (auto simp: code_points_def)
qed

lemma buffer_compare_code_points:
  "buffer_compare (code_points s) (code_points t) = (if s < t then -1 else if s = t then 0 else 1)"
proof -
  have "buffer_compare (code_points s) (code_points t) =
      (if s < t then -1 else if t < s then 1 else 0)"
    by (induction "code_points s" "code_points t" arbitrary: s t rule: buffer_compare.induct)
      (auto simp: code_points_def less_char_def)
  then show ?thesis by auto
qed

lemma compareUtf8_eq: "compareUtf8 s t = (if s < t then -1 else if s = t then 0 else 1)"
  by (simp add: compareUtf8_def buffer_compare_utf8_points code_points_bound buffer_compare_code_points)

lemma first_difference_buffer:
  "sgn (case first_difference xs ys of Some d \<Rightarrow> d | None \<Rightarrow> int (length xs) - int (length ys)) =
   buffer_compare xs ys"
proof (induction xs ys rule: buffer_compare.induct)
  case (4 x xs y ys)
  then show ?case by (cases "x = y") (auto split: option.splits)
qed auto

lemma sgn_compareCodePoints: "sgn (compareCodePoints s t) = compareUtf8 s t"
  by (simp add: compareCodePoints_def Let_def first_difference_buffer compareUtf8_eq
      buffer_compare_code_points)

lemma compareUtf8_le_0 [simp]: "compareUtf8 s t \<le> 0 \<longleftrightarrow> s \<le> t"
  by (auto simp: compareUtf8_eq)

lemma compareUtf8_less_0 [simp]: "compareUtf8 s t < 0 \<longleftrightarrow> s < t"
  by (auto simp: compareUtf8_eq)

lemma compareUtf8_0 [simp]: "compareUtf8 s t = 0 \<longleftrightarrow> s = t"
  by (auto simp: compareUtf8_eq)

lemma compareUtf8_ge_0 [simp]: "0 \<le> compareUtf8 s t \<longleftrightarrow> t \<le> s"
  by (auto simp: compareUtf8_eq)

lemma compareCodePoints_le_0 [simp]: "compareCodePoints s t \<le> 0 \<longleftrightarrow> s \<le> t"
proof -
  have "compareCodePoints s t \<le> 0 \<longleftrightarrow> sgn (compareCodePoints s t) \<le> 0" by (simp add: sgn_if)
  then show ?thesis by (simp add: sgn_compareCodePoints)
qed

section \<open>Canonical lists are the strictly sorted ones\<close>

lemma adjacent_sorted_wrt:
  "transp r \<Longrightarrow> (\<forall>i \<in> {1..<length xs}. r (xs ! (i - 1)) (xs ! i)) \<longleftrightarrow> sorted_wrt r xs"
proof
  assume tr: "transp r"
  assume adj: "\<forall>i \<in> {1..<length xs}. r (xs ! (i - 1)) (xs ! i)"
  show "sorted_wrt r xs"
  proof (rule sorted_wrt_iff_nth_less [THEN iffD2], intro allI impI)
    fix i j :: nat
    assume "i < j" "j < length xs"
    then show "r (xs ! i) (xs ! j)"
    proof (induction j)
      case 0
      then show ?case by simp
    next
      case (Suc j)
      have step: "r (xs ! j) (xs ! Suc j)" using adj Suc.prems by (auto dest: bspec [of _ _ "Suc j"])
      show ?case
      proof (cases "i = j")
        case True
        with step show ?thesis by simp
      next
        case False
        with Suc have "r (xs ! i) (xs ! j)" by simp
        with step tr show ?thesis by (blast dest: transpD)
      qed
    qed
  qed
next
  assume "sorted_wrt r xs"
  then show "\<forall>i \<in> {1..<length xs}. r (xs ! (i - 1)) (xs ! i)"
    by (auto simp: sorted_wrt_iff_nth_less)
qed

lemma isCanonicalBy_iff: "isCanonicalBy f xs \<longleftrightarrow> sorted_wrt (<) (map f xs)"
proof -
  have "isCanonicalBy f xs \<longleftrightarrow> (\<forall>i \<in> {1..<length (map f xs)}. map f xs ! (i - 1) < map f xs ! i)"
    by (simp add: isCanonicalBy_def not_le Ball_def less_imp_diff_less)
  also have "\<dots> \<longleftrightarrow> sorted_wrt (<) (map f xs)"
    by (rule adjacent_sorted_wrt, rule transpI, rule less_trans)
  finally show ?thesis .
qed

lemma isCanonicalStringSet_iff: "isCanonicalStringSet xs \<longleftrightarrow> sorted_wrt (<) xs"
  using isCanonicalBy_iff [of "\<lambda>x. x" xs] by (simp add: isCanonicalBy_def isCanonicalStringSet_def)

lemma js_sort_compareUtf8: "js_sort compareUtf8 = sort"
  using js_sort_key [of compareUtf8 "\<lambda>x. x"] by auto

lemma js_sort_by_compareUtf8: "js_sort (\<lambda>a b. compareUtf8 (f a) (f b)) = sort_key f"
  by (rule ext, rule js_sort_key) simp

lemma js_sort_by_compareCodePoints: "js_sort (\<lambda>a b. compareCodePoints (f a) (f b)) = sort_key f"
  by (rule ext, rule js_sort_key) simp

lemma canonicalStringSet_eq: "canonicalStringSet xs = sort (js_set xs)"
  by (simp add: canonicalStringSet_def js_sort_compareUtf8)

lemma set_canonicalStringSet [simp]: "set (canonicalStringSet xs) = set xs"
  by (simp add: canonicalStringSet_eq)

lemma canonicalStringSet_sorted [canonical_intros]: "isCanonicalStringSet (canonicalStringSet xs)"
  by (simp add: canonicalStringSet_eq isCanonicalStringSet_iff sorted_wrt_less_sort)

lemma canonicalStringSet_cong: "set xs = set ys \<Longrightarrow> canonicalStringSet xs = canonicalStringSet ys"
  using canonicalStringSet_sorted [of xs] canonicalStringSet_sorted [of ys]
  by (auto simp: isCanonicalStringSet_iff intro: sorted_wrt_less_unique)

lemma canonicalStringSet_idem: "isCanonicalStringSet xs \<Longrightarrow> canonicalStringSet xs = xs"
  using canonicalStringSet_sorted [of xs]
  by (auto simp: isCanonicalStringSet_iff intro: sorted_wrt_less_unique)

text \<open>Both comparators are collations that separate distinct strings.\<close>

interpretation utf8: collation compareUtf8
  by unfold_locales auto

interpretation points: collation compareCodePoints
  by unfold_locales auto

end
