(* ===== verification/Json.thy ===== *)
theory Json
  imports Text
begin

text \<open>
  JSON values and their texts: \<open>canonicalJson\<close> of \<open>packages/updates/src/canonical.ts\<close> (the
  same algorithm is \<open>canonicalOrchestrationJson\<close> in \<open>packages/orchestration/src/canonical.ts\<close>),
  with the parts of \<open>JSON.stringify\<close> and \<open>JSON.parse\<close> the code relies on.

  A JSON number is an integer of magnitude below 10^21, whose \<open>JSON.stringify\<close> text is its
  decimal digits; the fractions that \<open>minimum\<close> and \<open>maximum\<close> may carry are not modelled. An
  object is the list of its own properties in \<open>Object.entries\<close> order; \<open>wf_json\<close> says that no
  object lists a key twice, which holds of every JavaScript object.
\<close>

section \<open>Values\<close>

datatype json =
    JNull
  | JBool bool
  | JNum int
  | JStr string
  | JArr "json list"
  | JObj "(string \<times> json) list"

text \<open>Property access; \<open>undefined\<close> is \<open>None\<close>.\<close>

fun jget :: "string \<Rightarrow> json \<Rightarrow> json option" where
  "jget k (JObj kvs) = map_of kvs k"
| "jget k _ = None"

fun is_array :: "json \<Rightarrow> bool" where
  "is_array (JArr _) = True"
| "is_array _ = False"

fun is_object :: "json \<Rightarrow> bool" where
  "is_object (JObj _) = True"
| "is_object _ = False"

lemma size_snd_member [termination_simp]:
  "(k, v) \<in> set kvs \<Longrightarrow> size v < Suc (size_list (size_prod (\<lambda>_. 0) size) kvs)"
  using size_list_estimation' [of "(k, v)" kvs "size v" "size_prod (\<lambda>_. 0) size"] by fastforce

lemma size_list_member [termination_simp]:
  "v \<in> set (vs :: json list) \<Longrightarrow> size v < Suc (size_list size vs)"
  using size_list_estimation' [of v vs "size v" size] by fastforce

fun wf_json :: "json \<Rightarrow> bool" where
  "wf_json (JArr vs) = list_all wf_json vs"
| "wf_json (JObj kvs) = (distinct (map fst kvs) \<and> list_all (\<lambda>(k, v). wf_json v) kvs)"
| "wf_json _ = True"

section \<open>JSON.stringify\<close>

definition hex_digit :: "nat \<Rightarrow> char" where
  "hex_digit n = (if n < 10 then char_of (48 + n) else char_of (87 + n))"

definition json_escape :: "char \<Rightarrow> string" where
  "json_escape c =
     (if c = CHR 0x22 then [CHR 0x5C, CHR 0x22]
      else if c = CHR 0x5C then [CHR 0x5C, CHR 0x5C]
      else if c = CHR 0x08 then [CHR 0x5C, CHR ''b'']
      else if c = CHR 0x0C then [CHR 0x5C, CHR ''f'']
      else if c = CHR 0x0A then [CHR 0x5C, CHR ''n'']
      else if c = CHR 0x0D then [CHR 0x5C, CHR ''r'']
      else if c = CHR 0x09 then [CHR 0x5C, CHR ''t'']
      else if of_char c < (32 :: nat)
        then [CHR 0x5C, CHR ''u'', CHR ''0'', CHR ''0'', hex_digit (of_char c div 16), hex_digit (of_char c mod 16)]
      else [c])"

definition json_quote :: "string \<Rightarrow> string" where
  "json_quote s = CHR 0x22 # concat_map json_escape s @ [CHR 0x22]"

fun nat_text :: "nat \<Rightarrow> string" where
  "nat_text n = (if n < 10 then [char_of (48 + n)] else nat_text (n div 10) @ [char_of (48 + n mod 10)])"

declare nat_text.simps [simp del]

definition int_text :: "int \<Rightarrow> string" where
  "int_text i = (if i < 0 then CHR ''-'' # nat_text (nat (- i)) else nat_text (nat i))"

fun json_text :: "json \<Rightarrow> string" where
  "json_text JNull = ''null''"
| "json_text (JBool b) = (if b then ''true'' else ''false'')"
| "json_text (JNum i) = int_text i"
| "json_text (JStr s) = json_quote s"
| "json_text (JArr vs) = ''['' @ join_with '','' (map json_text vs) @ '']''"
| "json_text (JObj kvs) =
     ''{'' @ join_with '','' (map (\<lambda>(k, v). json_quote k @ '':'' @ json_text v) kvs) @ ''}''"

section \<open>The canonical text\<close>

text \<open>\<open>serializeCanonical\<close> on a JSON value: object members in code point order of their keys.\<close>

fun canonicalJson :: "json \<Rightarrow> string" where
  "canonicalJson JNull = ''null''"
| "canonicalJson (JBool b) = (if b then ''true'' else ''false'')"
| "canonicalJson (JNum i) = int_text i"
| "canonicalJson (JStr s) = json_quote s"
| "canonicalJson (JArr vs) = ''['' @ join_with '','' (map canonicalJson vs) @ '']''"
| "canonicalJson (JObj kvs) =
     ''{'' @ join_with '','' (map (\<lambda>(k, text). json_quote k @ '':'' @ text)
        (js_sort (\<lambda>a b. compareCodePoints (fst a) (fst b)) (map (\<lambda>(k, v). (k, canonicalJson v)) kvs)))
     @ ''}''"

text \<open>
  \<open>serializeCanonical\<close> on an arbitrary JavaScript value. \<open>VAbsent\<close> is a slot without a data
  property (an array hole or an accessor), \<open>VOther\<close> any other value JSON cannot hold: a
  function, a symbol, a bigint, or a reference back to an enclosing object, which the code
  finds in its \<open>ancestors\<close> set. The flags say that an array has own keys beside its indices
  and \<open>length\<close>, that an object's prototype is \<open>Object.prototype\<close> or null, and that it has own
  keys that \<open>Object.keys\<close> does not list.
\<close>

datatype jsval =
    VUndefined
  | VNull
  | VBoolean bool
  | VNumber int
  | VNonFinite
  | VString string
  | VAbsent
  | VOther
  | VArray (extra_keys: bool) "jsval list"
  | VObject (plain_prototype: bool) (hidden_keys: bool) "(string \<times> jsval) list"

lemma size_jsval_snd_member [termination_simp]:
  "(k, v) \<in> set kvs \<Longrightarrow> size v < Suc (size_list (size_prod (\<lambda>_. 0) size) kvs)"
  using size_list_estimation' [of "(k, v)" kvs "size v" "size_prod (\<lambda>_. 0) size"] by fastforce

lemma size_jsval_member [termination_simp]:
  "v \<in> set (vs :: jsval list) \<Longrightarrow> size v < Suc (size_list size vs)"
  using size_list_estimation' [of v vs "size v" size] by fastforce

function (sequential) serializeCanonical :: "'e \<Rightarrow> jsval \<Rightarrow> ('e, string) result" where
  "serializeCanonical e VNull = Inr ''null''"
| "serializeCanonical e (VBoolean b) = Inr (if b then ''true'' else ''false'')"
| "serializeCanonical e (VString s) = Inr (json_quote s)"
| "serializeCanonical e (VNumber i) = Inr (int_text i)"
| "serializeCanonical e VNonFinite = Inl e"
| "serializeCanonical e (VArray extra vs) =
     (if extra then Inl e
      else (case traverse (serializeCanonical e) vs of
              Inl err \<Rightarrow> Inl err
            | Inr members \<Rightarrow> Inr (''['' @ join_with '','' members @ '']'')))"
| "serializeCanonical e (VObject plain hidden kvs) =
     (if \<not> plain then Inl e
      else if hidden then Inl e
      else (case traverse (\<lambda>(k, v). case serializeCanonical e v of
                               Inl err \<Rightarrow> Inl err
                             | Inr text \<Rightarrow> Inr (json_quote k @ '':'' @ text))
                   (js_sort (\<lambda>a b. compareCodePoints (fst a) (fst b)) kvs) of
              Inl err \<Rightarrow> Inl err
            | Inr entries \<Rightarrow> Inr (''{'' @ join_with '','' entries @ ''}'')))"
| "serializeCanonical e _ = Inl e"
  by pat_completeness auto
termination
  by (relation "measure (size \<circ> snd)")
    (auto simp: js_sort_by_compareCodePoints dest: size_jsval_snd_member size_jsval_member)

fun to_jsval :: "json \<Rightarrow> jsval" where
  "to_jsval JNull = VNull"
| "to_jsval (JBool b) = VBoolean b"
| "to_jsval (JNum i) = VNumber i"
| "to_jsval (JStr s) = VString s"
| "to_jsval (JArr vs) = VArray False (map to_jsval vs)"
| "to_jsval (JObj kvs) = VObject True False (map (\<lambda>(k, v). (k, to_jsval v)) kvs)"

text \<open>The values \<open>serializeCanonical\<close> accepts: JSON data and nothing else, at any depth.\<close>

fun json_like :: "jsval \<Rightarrow> bool" where
  "json_like VNull = True"
| "json_like (VBoolean _) = True"
| "json_like (VNumber _) = True"
| "json_like (VString _) = True"
| "json_like (VArray extra vs) = (\<not> extra \<and> list_all json_like vs)"
| "json_like (VObject plain hidden kvs) = (plain \<and> \<not> hidden \<and> list_all (\<lambda>(k, v). json_like v) kvs)"
| "json_like _ = False"

lemma json_like_to_jsval: "json_like (to_jsval j)"
  by (induction j rule: to_jsval.induct) (auto simp: list_all_iff)

lemma serializeCanonical_cases:
  "(json_like v \<longrightarrow> (\<exists>text. serializeCanonical e v = Inr text)) \<and>
   (\<not> json_like v \<longrightarrow> serializeCanonical e v = Inl e)"
proof (induction e v rule: serializeCanonical.induct)
  case (6 e extra vs)
  show ?case
  proof (cases extra)
    case False
    have "(list_all json_like vs \<longrightarrow> (\<exists>ts. traverse (serializeCanonical e) vs = Inr ts)) \<and>
        (\<not> list_all json_like vs \<longrightarrow> traverse (serializeCanonical e) vs = Inl e)"
      by (rule traverse_decides) (rule "6.IH" [OF False])
    with False show ?thesis by (cases "list_all json_like vs") auto
  qed simp
next
  case (7 e plain hidden kvs)
  show ?case
  proof (cases "plain \<and> \<not> hidden")
    case True
    let ?f = "\<lambda>(k, v). case serializeCanonical e v of Inl err \<Rightarrow> Inl err
                       | Inr text \<Rightarrow> Inr (json_quote k @ '':'' @ text)"
    let ?P = "\<lambda>(k, v). json_like v"
    let ?ks = "js_sort (\<lambda>a b. compareCodePoints (fst a) (fst b)) kvs"
    have each: "(?P p \<longrightarrow> (\<exists>t. ?f p = Inr t)) \<and> (\<not> ?P p \<longrightarrow> ?f p = Inl e)" if "p \<in> set ?ks" for p
    proof -
      obtain k v where p: "p = (k, v)" by (cases p)
      have "(json_like v \<longrightarrow> (\<exists>t. serializeCanonical e v = Inr t)) \<and> (\<not> json_like v \<longrightarrow> serializeCanonical e v = Inl e)"
        using "7.IH" [of p k v] True that p by blast
      then show ?thesis by (auto simp: p)
    qed
    have "(list_all ?P ?ks \<longrightarrow> (\<exists>ts. traverse ?f ?ks = Inr ts)) \<and> (\<not> list_all ?P ?ks \<longrightarrow> traverse ?f ?ks = Inl e)"
      by (rule traverse_decides) (rule each)
    moreover have "list_all ?P ?ks = list_all ?P kvs"
      by (simp add: js_sort_by_compareCodePoints list_all_iff)
    ultimately show ?thesis
      using True by (cases "list_all ?P kvs") auto
  qed auto
qed auto

lemma serializeCanonical_Inl: "serializeCanonical e v = Inl err \<Longrightarrow> err = e \<and> \<not> json_like v"
  using serializeCanonical_cases [of v e] by auto

lemma serializeCanonical_to_jsval: "serializeCanonical e (to_jsval j) = Inr (canonicalJson j)"
proof (induction j rule: to_jsval.induct)
  case (5 vs)
  have "traverse (serializeCanonical e) (map to_jsval vs) = Inr (map canonicalJson vs)"
    using 5 by (induction vs) auto
  then show ?case by simp
next
  case (6 kvs)
  let ?f = "\<lambda>p. case serializeCanonical e (snd p) of Inl err \<Rightarrow> Inl err
                     | Inr text \<Rightarrow> Inr (json_quote (fst p) @ '':'' @ text)"
  have ih: "serializeCanonical e (to_jsval (snd p)) = Inr (canonicalJson (snd p))" if "p \<in> set kvs" for p
    using 6 [of p "fst p" "snd p"] that by simp
  have "traverse ?f (map (\<lambda>p. (fst p, to_jsval (snd p))) ks) =
      Inr (map (\<lambda>p. json_quote (fst p) @ '':'' @ canonicalJson (snd p)) ks)"
    if "set ks \<subseteq> set kvs" for ks
    using that by (induction ks) (auto simp: ih)
  from this [of "sort_key fst kvs"] show ?case
    by (simp add: js_sort_by_compareCodePoints case_prod_unfold sort_key_map_snd comp_def)
qed auto

section \<open>Normal forms\<close>

text \<open>The same value with the members of every object in key order.\<close>

fun json_normal :: "json \<Rightarrow> json" where
  "json_normal (JArr vs) = JArr (map json_normal vs)"
| "json_normal (JObj kvs) = JObj (sort_key fst (map (\<lambda>(k, v). (k, json_normal v)) kvs))"
| "json_normal j = j"

lemma json_normal_member:
  "json_normal (JObj kvs) = JObj (map (\<lambda>p. (fst p, json_normal (snd p))) (sort_key fst kvs))"
  by (simp add: case_prod_unfold sort_key_map_snd)

lemma canonicalJson_json_text: "canonicalJson j = json_text (json_normal j)"
proof (induction j rule: json_normal.induct)
  case (2 kvs)
  have "canonicalJson (snd p) = json_text (json_normal (snd p))" if "p \<in> set kvs" for p
    using 2 [of p "fst p" "snd p"] that by simp
  then show ?case
    by (simp add: js_sort_by_compareCodePoints case_prod_unfold comp_def
      sort_key_map_snd [where f = json_normal] sort_key_map_snd [where f = "\<lambda>j. json_text (json_normal j)"]
      cong: map_cong)
qed (auto simp: comp_def cong: map_cong)

lemma wf_json_normal: "wf_json j \<Longrightarrow> wf_json (json_normal j)"
proof (induction j rule: json_normal.induct)
  case (2 kvs)
  have "wf_json (json_normal (snd p))" if "p \<in> set kvs" for p
    using 2 that by (cases p) (auto simp: list_all_iff)
  moreover have "distinct (map fst (map (\<lambda>p. (fst p, json_normal (snd p))) (sort_key fst kvs)))"
    using 2 by (simp add: comp_def distinct_keys_sort_key)
  ultimately show ?case
    by (simp only: json_normal_member wf_json.simps) (auto simp: list_all_iff)
qed (auto simp: list_all_iff)

lemma json_normal_idem: "json_normal (json_normal j) = json_normal j"
proof (induction j rule: json_normal.induct)
  case (2 kvs)
  have ih: "json_normal (json_normal (snd p)) = json_normal (snd p)" if "p \<in> set kvs" for p
    using 2 [of p "fst p" "snd p"] that by simp
  have sorted: "sort_key fst (map (\<lambda>p. (fst p, json_normal (snd p))) (sort_key fst kvs)) =
      map (\<lambda>p. (fst p, json_normal (snd p))) (sort_key fst kvs)"
    by (simp add: sort_key_map_snd sort_key_stable sorted_sort_id)
  show ?case
    by (simp only: json_normal_member sorted sort_key_map_snd) (simp add: ih sorted sort_key_map_snd)
qed auto

text \<open>An array of strings.\<close>

definition strings_json :: "string list \<Rightarrow> json" where
  "strings_json xs = JArr (map JStr xs)"

end
