(* ===== verification/Ir.thy ===== *)
theory Ir
  imports Json
begin

text \<open>
  The contract data model of \<open>packages/ir/src\<close>: the values that pass the TypeBox shapes of
  \<open>endpoints.ts\<close>, \<open>evidence.ts\<close>, \<open>security.ts\<close>, \<open>api-schema.ts\<close>, \<open>identity.ts\<close> and
  \<open>snapshot.ts\<close>. A shape with a fixed set of members is a record, a union a datatype, an
  optional member an \<open>option\<close>, a \<open>Record<string, T>\<close> the list of its entries. API schemas,
  conditions and serializations are \<open>json\<close>, because the code walks them by key.
\<close>

section \<open>Validation issues\<close>

record validation_issue =
  vi_path :: string
  vi_code :: string
  vi_message :: string

definition issue :: "string \<Rightarrow> string \<Rightarrow> string \<Rightarrow> validation_issue" where
  "issue path code message = \<lparr>vi_path = path, vi_code = code, vi_message = message\<rparr>"

lemma issue_simps [simp]:
  "vi_path (issue p c m) = p" "vi_code (issue p c m) = c" "vi_message (issue p c m) = m"
  by (simp_all add: issue_def)

text \<open>
  \<open>parserFor\<close>: the third-party validator decides the shape (\<open>Inl\<close> its issues, \<open>Inr\<close> the typed
  value), then the semantic check runs on the typed value.
\<close>

definition parserFor ::
  "('u \<Rightarrow> validation_issue list + 'a) \<Rightarrow> ('a \<Rightarrow> validation_issue list) \<Rightarrow> 'u \<Rightarrow> validation_issue list + 'a" where
  "parserFor shape semantic u =
     (case shape u of Inl issues \<Rightarrow> Inl issues
      | Inr v \<Rightarrow> (if semantic v \<noteq> [] then Inl (semantic v) else Inr v))"

lemma parserFor_Inr_iff: "parserFor shape semantic u = Inr v \<longleftrightarrow> shape u = Inr v \<and> semantic v = []"
  by (auto simp: parserFor_def split: sum.splits)

section \<open>Route identity\<close>

text \<open>
  A header or query selector is kept as the JSON object it is: \<open>stableSelectors\<close> writes its
  members in the order the object has them.
\<close>

type_synonym header_selector = json

record route_selectors =
  rs_headers :: "header_selector list option"
  rs_consumes :: "string list option"
  rs_produces :: "string list option"
  rs_query :: "header_selector list option"

record endpoint_identity =
  ei_identity_version :: string
  ei_route_key :: string
  ei_service_id :: string
  ei_method :: string
  ei_normalized_path_shape :: string
  ei_selectors :: route_selectors

section \<open>Endpoints\<close>

datatype presence_state = PRequired | POptional | PUnknown

datatype presence =
    Conditional (pr_condition: json) (pr_evidence_ids: "string list")
  | Stated (pr_state: presence_state) (pr_evidence_ids: "string list")

fun presence_text :: "presence \<Rightarrow> string" where
  "presence_text (Conditional _ _) = ''conditional''"
| "presence_text (Stated PRequired _) = ''required''"
| "presence_text (Stated POptional _) = ''optional''"
| "presence_text (Stated PUnknown _) = ''unknown''"

datatype parameter_in = InPath | InQuery | InHeader | InCookie

fun in_text :: "parameter_in \<Rightarrow> string" where
  "in_text InPath = ''path''"
| "in_text InQuery = ''query''"
| "in_text InHeader = ''header''"
| "in_text InCookie = ''cookie''"

record parameter =
  pm_name :: string
  pm_in :: parameter_in
  pm_presence :: presence
  pm_schema :: json
  pm_serialization :: json

datatype form_style = StyleForm | StyleSpaceDelimited | StylePipeDelimited

fun style_text :: "form_style \<Rightarrow> string" where
  "style_text StyleForm = ''form''"
| "style_text StyleSpaceDelimited = ''spaceDelimited''"
| "style_text StylePipeDelimited = ''pipeDelimited''"

record form_encoding =
  fe_style :: "form_style option"
  fe_explode :: "bool option"
  fe_content_type :: "string option"
  fe_evidence_ids :: "string list"

record request_body =
  rb_media_type :: string
  rb_encoding :: "(string \<times> form_encoding) list option"
  rb_schema :: json
  rb_serialization :: json
  rb_presence :: presence

datatype response_status =
    ExactStatus nat
  | RangeStatus string
  | DefaultStatus
  | UnknownStatus string

record content =
  ct_media_type :: string
  ct_schema :: json
  ct_serialization :: json

record header =
  hd_name :: string
  hd_schema :: json

record response =
  rp_status :: response_status
  rp_content :: "content list"
  rp_headers :: "header list option"

datatype security_state = SecUnknown | SecAnonymous | SecDeclared

fun security_state_text :: "security_state \<Rightarrow> string" where
  "security_state_text SecUnknown = ''unknown''"
| "security_state_text SecAnonymous = ''anonymous''"
| "security_state_text SecDeclared = ''declared''"

record requirement =
  rq_scheme :: string
  rq_scopes :: "string list"

record security =
  sc_state :: "security_state option"
  sc_evidence_ids :: "string list option"
  sc_alternatives :: "requirement list list"

record endpoint =
  ep_endpoint_id :: string
  ep_identity :: endpoint_identity
  ep_application_path :: string
  ep_parameters :: "parameter list"
  ep_request_bodies :: "request_body list"
  ep_responses :: "response list"
  ep_security :: security
  ep_evidence_ids :: "string list"

text \<open>\<open>response.headers ?? []\<close>.\<close>

definition response_headers :: "response \<Rightarrow> header list" where
  "response_headers r = (case rp_headers r of None \<Rightarrow> [] | Some hs \<Rightarrow> hs)"

section \<open>Evidence and claims\<close>

datatype evidence_method =
    TypeDeclaration | RuntimeValidator | Observation | BehavioralVerification
  | DeterministicAnalysis | Inference | OwnerAssertion

record evidence_location =
  lo_path :: "string option"
  lo_symbol :: "string option"
  lo_pointer :: "string option"
  lo_line :: "nat option"

record evidence_scope =
  es_service_id :: string
  es_snapshot_id :: "string option"
  es_endpoint_id :: "string option"
  es_revision :: "string option"

record evidence =
  ev_evidence_id :: string
  ev_source_kind :: string
  ev_source_id :: string
  ev_source_version :: string
  ev_location :: evidence_location
  ev_method :: evidence_method
  ev_scope :: evidence_scope
  ev_limitations :: "string list"
  ev_access_label :: string

datatype verification = Declared | EstablishedByAnalysis | Observed | Inferred | OwnerAsserted

fun verification_text :: "verification \<Rightarrow> string" where
  "verification_text Declared = ''declared''"
| "verification_text EstablishedByAnalysis = ''established_by_analysis''"
| "verification_text Observed = ''observed''"
| "verification_text Inferred = ''inferred''"
| "verification_text OwnerAsserted = ''owner_asserted''"

record claim_subject =
  cj_service_id :: string
  cj_endpoint_id :: "string option"
  cj_schema_pointer :: "string option"

record claim =
  cl_claim_id :: string
  cl_subject :: claim_subject
  cl_predicate :: string
  cl_value :: json
  cl_verification :: verification
  cl_condition :: "json option"
  cl_evidence_ids :: "string list"

datatype review_state = Accepted | Rejected | NeedsReview

record editorial_review =
  er_review_id :: string
  er_claim_id :: string
  er_state :: review_state
  er_reviewer_id :: string
  er_reviewed_at :: string
  er_explanation :: string

datatype basis_kind = BasisRuntimeValidator | BasisDeterministicAnalysis | BasisBehavioralVerification

datatype eligibility_status =
    Eligible (el_basis_kind: basis_kind) (el_basis_evidence_ids: "string list")
  | Ineligible string

record export_eligibility =
  ee_eligibility_id :: string
  ee_claim_id :: string
  ee_scope_service_id :: string
  ee_scope_snapshot_id :: string
  ee_scope_endpoint_ids :: "string list"
  ee_policy_version :: string
  ee_evidence_fingerprint :: string
  ee_status :: eligibility_status

section \<open>Snapshots\<close>

record schema_component =
  sm_schema_id :: string
  sm_schema :: json
  sm_evidence_ids :: "string list"

datatype key_location = KeyHeader | KeyQuery | KeyCookie

fun key_location_text :: "key_location \<Rightarrow> string" where
  "key_location_text KeyHeader = ''header''"
| "key_location_text KeyQuery = ''query''"
| "key_location_text KeyCookie = ''cookie''"

datatype security_scheme_definition =
    ApiKeyScheme string key_location
  | HttpScheme (hs_scheme: string) (hs_bearer_format: "string option")

record security_scheme_fact =
  sf_definition :: security_scheme_definition
  sf_evidence_ids :: "string list"

datatype dependency_kind = DepEndpoint | DepSchema | DepEvidence

record dependency =
  dp_from_endpoint_id :: string
  dp_to_kind :: dependency_kind
  dp_to_id :: string
  dp_evidence_ids :: "string list"

datatype severity = SevInfo | SevWarning | SevError

fun severity_text :: "severity \<Rightarrow> string" where
  "severity_text SevInfo = ''info''"
| "severity_text SevWarning = ''warning''"
| "severity_text SevError = ''error''"

record diagnostic =
  dg_diagnostic_id :: string
  dg_code :: string
  dg_severity :: severity
  dg_message :: string
  dg_affected_endpoint_ids :: "string list"
  dg_evidence_ids :: "string list"

datatype coverage =
    CoverageComplete (cv_analyzed_roots: "string list") (cv_diagnostic_ids: "string list")
  | CoverageIncomplete (cv_analyzed_roots: "string list") (cv_unresolved_roots: "string list")
      (cv_reason: string) (cv_diagnostic_ids: "string list")

fun coverage_incomplete :: "coverage \<Rightarrow> bool" where
  "coverage_incomplete (CoverageComplete _ _) = False"
| "coverage_incomplete (CoverageIncomplete _ _ _ _) = True"

record service =
  sv_service_id :: string
  sv_repository_id :: string
  sv_root :: string
  sv_label :: "string option"

record source_revision =
  sr_repository_id :: string
  sr_immutable_revision :: string
  sr_source_digest :: string

record analyzer_identity =
  an_analyzer_id :: string
  an_analyzer_version :: string

record contract_snapshot =
  cs_ir_version :: string
  cs_identity_version :: string
  cs_snapshot_id :: string
  cs_service :: service
  cs_source :: source_revision
  cs_analyzer :: analyzer_identity
  cs_config_version :: string
  cs_config_fingerprint :: string
  cs_created_at :: string
  cs_coverage :: coverage
  cs_evidence :: "evidence list"
  cs_schemas :: "(string \<times> schema_component) list"
  cs_security_schemes :: "(string \<times> security_scheme_fact) list option"
  cs_endpoints :: "endpoint list"
  cs_claims :: "claim list"
  cs_editorial_reviews :: "editorial_review list"
  cs_export_eligibility :: "export_eligibility list"
  cs_dependencies :: "dependency list"
  cs_diagnostics :: "diagnostic list"

text \<open>\<open>versions.ts\<close>.\<close>

definition IR_VERSION :: string where "IR_VERSION = ''1.1.0''"
definition LEGACY_IR_VERSION :: string where "LEGACY_IR_VERSION = ''1.0.0''"
definition EVENT_VERSION :: string where "EVENT_VERSION = ''1.0.0''"
definition CONFIG_VERSION :: string where "CONFIG_VERSION = ''1.0.0''"
definition IDENTITY_VERSION :: string where "IDENTITY_VERSION = ''1.0.0''"
definition ANALYZER_EXCHANGE_VERSION :: string where "ANALYZER_EXCHANGE_VERSION = ''1.0.0''"

text \<open>
  What the code takes from outside its sources: whether \<open>new RegExp\<close> accepts a pattern, the
  collation of \<open>localeCompare\<close>, the Ajv verdict on an embedded schema graph (\<open>validateSchema\<close>
  and \<open>compile\<close>), and SHA-256 in hexadecimal.
\<close>

datatype graph_verdict = GraphInvalid | GraphThrows | GraphCompiles

record platform =
  pf_regexp :: "string \<Rightarrow> bool"
  pf_locale :: "string \<Rightarrow> string \<Rightarrow> int"
  pf_ajv_graph :: "json \<Rightarrow> graph_verdict"
  pf_sha256_hex :: "string \<Rightarrow> string"

end
