(* ===== verification/Identity.thy ===== *)
theory Identity
  imports Ir
begin

text \<open>
  \<open>packages/ir/src/identity.ts\<close>: the path shape that forgets parameter names, the canonical
  selectors and the route key. A thrown path syntax error is \<open>None\<close>. Positions in the path are
  modelled by the remaining suffix.
\<close>

section \<open>Characters\<close>

definition is_upper :: "char \<Rightarrow> bool" where
  "is_upper c = (CHR ''A'' \<le> c \<and> c \<le> CHR ''Z'')"

definition is_lower :: "char \<Rightarrow> bool" where
  "is_lower c = (CHR ''a'' \<le> c \<and> c \<le> CHR ''z'')"

definition is_digit :: "char \<Rightarrow> bool" where
  "is_digit c = (CHR ''0'' \<le> c \<and> c \<le> CHR ''9'')"

text \<open>The classes \<open>[A-Za-z_]\<close> and \<open>[A-Za-z0-9_]\<close>.\<close>

definition name_start :: "char \<Rightarrow> bool" where
  "name_start c = (is_upper c \<or> is_lower c \<or> c = CHR ''_'')"

definition name_char :: "char \<Rightarrow> bool" where
  "name_char c = (name_start c \<or> is_digit c)"

text \<open>\<open>toLowerCase\<close> on code points below 256, \<open>toUpperCase\<close> on ASCII letters.\<close>

definition lower_char :: "char \<Rightarrow> char" where
  "lower_char c =
     (let n = of_char c :: nat in
      if 65 \<le> n \<and> n \<le> 90 \<or> 192 \<le> n \<and> n \<le> 222 \<and> n \<noteq> 215 then char_of (n + 32) else c)"

definition toLowerCase :: "string \<Rightarrow> string" where
  "toLowerCase = map lower_char"

definition upper_ascii :: "char \<Rightarrow> char" where
  "upper_ascii c = (if is_lower c then char_of ((of_char c :: nat) - 32) else c)"

definition toUpperCase :: "string \<Rightarrow> string" where
  "toUpperCase = map upper_ascii"

section \<open>Path shapes\<close>

definition pathName :: "string \<Rightarrow> bool" where
  "pathName s = (case s of [] \<Rightarrow> False | c # cs \<Rightarrow> name_start c \<and> list_all name_char cs)"

definition validatePathConstraint :: "(string \<Rightarrow> bool) \<Rightarrow> string \<Rightarrow> string option" where
  "validatePathConstraint regexp constraint =
     (if constraint = [] then None
      else if regexp (''^(?:'' @ constraint @ '')$'') then Some constraint else None)"

text \<open>
  The body up to the matching \<open>cls\<close>, and what follows it. The arguments after the two
  delimiters are \<open>depth\<close>, \<open>inCharacterClass\<close> and \<open>escaped\<close>.
\<close>

fun delimitedPathExpression ::
  "char \<Rightarrow> char \<Rightarrow> nat \<Rightarrow> bool \<Rightarrow> bool \<Rightarrow> string \<Rightarrow> (string \<times> string) option" where
  "delimitedPathExpression opn cls depth inClass escaped [] = None"
| "delimitedPathExpression opn cls depth inClass escaped (c # cs) =
     (let continue = (\<lambda>d k e. map_option (apfst ((#) c)) (delimitedPathExpression opn cls d k e cs)) in
      if escaped then continue depth inClass False
      else if c = CHR 0x5C then continue depth inClass True
      else if c = CHR ''['' \<and> \<not> inClass then continue depth True False
      else if c = CHR '']'' \<and> inClass then continue depth False False
      else if inClass then continue depth inClass False
      else if c = opn then
        (if opn = CHR ''{'' then None else continue (depth + 1) inClass False)
      else if c = cls then
        (if depth = 1 then Some ([], cs) else continue (depth - 1) inClass False)
      else continue depth inClass False)"

lemma delimitedPathExpression_length:
  "delimitedPathExpression opn cls d k e s = Some (body, rest) \<Longrightarrow> length body + length rest < length s"
proof (induction s arbitrary: d k e body)
  case Nil
  then show ?case by simp
next
  case (Cons c s)
  show ?case
    using Cons.prems by (auto simp: Let_def split: if_splits dest!: Cons.IH)
qed

text \<open>The text before the first colon, and the text after it when there is one.\<close>

fun split_colon :: "string \<Rightarrow> string \<times> string option" where
  "split_colon [] = ([], None)"
| "split_colon (c # cs) = (if c = CHR '':'' then ([], Some cs) else apfst ((#) c) (split_colon cs))"

definition brace_shape :: "(string \<Rightarrow> bool) \<Rightarrow> string \<Rightarrow> string option" where
  "brace_shape regexp body =
     (case split_colon body of
        (name, None) \<Rightarrow> (if pathName name then Some ''{}'' else None)
      | (name, Some constraint) \<Rightarrow>
          (if pathName name
           then map_option (\<lambda>k. ''{:'' @ k @ ''}'') (validatePathConstraint regexp constraint)
           else None))"

text \<open>The match of \<open>/^[A-Za-z_][A-Za-z0-9_]*/\<close>, empty when there is none, and the rest.\<close>

definition name_match :: "string \<Rightarrow> string \<times> string" where
  "name_match s =
     (case s of [] \<Rightarrow> ([], [])
      | c # cs \<Rightarrow> (if name_start c then (c # takeWhile name_char cs, dropWhile name_char cs) else ([], s)))"

lemma name_match_length: "length (snd (name_match s)) \<le> length s"
  by (simp add: name_match_def length_dropWhile_le le_SucI split: list.split)

function normalizeApplicationPathShape :: "(string \<Rightarrow> bool) \<Rightarrow> string \<Rightarrow> string option" where
  "normalizeApplicationPathShape regexp [] = Some []"
| "normalizeApplicationPathShape regexp (c # cs) =
     (if c = CHR ''{'' then
        (case delimitedPathExpression (CHR ''{'') (CHR ''}'') 1 False False cs of
           None \<Rightarrow> None
         | Some (body, rest) \<Rightarrow>
             (case brace_shape regexp body of
                None \<Rightarrow> None
              | Some piece \<Rightarrow> map_option ((@) piece) (normalizeApplicationPathShape regexp rest)))
      else if c = CHR ''}'' then None
      else if c = CHR '':'' \<and> fst (name_match cs) \<noteq> [] then
        (case snd (name_match cs) of
           [] \<Rightarrow> Some ''{}''
         | d # ds \<Rightarrow>
             (if d = CHR ''('' then
                (case delimitedPathExpression (CHR ''('') (CHR '')'') 1 False False ds of
                   None \<Rightarrow> None
                 | Some (body, rest) \<Rightarrow>
                     (case validatePathConstraint regexp body of
                        None \<Rightarrow> None
                      | Some k \<Rightarrow> map_option ((@) (''{:'' @ k @ ''}'')) (normalizeApplicationPathShape regexp rest)))
              else map_option ((@) ''{}'') (normalizeApplicationPathShape regexp (d # ds))))
      else map_option ((#) c) (normalizeApplicationPathShape regexp cs))"
  by pat_completeness auto
termination
proof (relation "measure (length \<circ> snd)", goal_cases)
  case (3 regexp c cs d ds body)
  then show ?case
    using name_match_length [of cs] delimitedPathExpression_length by fastforce
next
  case (4 regexp c cs d ds)
  then show ?case using name_match_length [of cs] by auto
qed (auto dest: delimitedPathExpression_length)

declare normalizeApplicationPathShape.simps(2) [simp del]

text \<open>One equation per kind of character.\<close>

lemma normalize_open:
  "normalizeApplicationPathShape regexp (CHR ''{'' # cs) =
     (case delimitedPathExpression (CHR ''{'') (CHR ''}'') 1 False False cs of
        None \<Rightarrow> None
      | Some (body, rest) \<Rightarrow>
          (case brace_shape regexp body of
             None \<Rightarrow> None
           | Some piece \<Rightarrow> map_option ((@) piece) (normalizeApplicationPathShape regexp rest)))"
  by (subst normalizeApplicationPathShape.simps(2)) simp

lemma normalize_close: "normalizeApplicationPathShape regexp (CHR ''}'' # cs) = None"
  by (subst normalizeApplicationPathShape.simps(2)) simp

lemma normalize_colon_end:
  "name_match cs = (n, []) \<Longrightarrow> n \<noteq> [] \<Longrightarrow> normalizeApplicationPathShape regexp (CHR '':'' # cs) = Some ''{}''"
  by (subst normalizeApplicationPathShape.simps(2)) simp

lemma normalize_colon_paren:
  "name_match cs = (n, CHR ''('' # ds) \<Longrightarrow> n \<noteq> [] \<Longrightarrow> normalizeApplicationPathShape regexp (CHR '':'' # cs) =
     (case delimitedPathExpression (CHR ''('') (CHR '')'') 1 False False ds of
        None \<Rightarrow> None
      | Some (body, rest) \<Rightarrow>
          (case validatePathConstraint regexp body of
             None \<Rightarrow> None
           | Some k \<Rightarrow> map_option ((@) (''{:'' @ k @ ''}'')) (normalizeApplicationPathShape regexp rest)))"
  by (subst normalizeApplicationPathShape.simps(2)) simp

lemma normalize_colon_more:
  "name_match cs = (n, d # ds) \<Longrightarrow> n \<noteq> [] \<Longrightarrow> d \<noteq> CHR ''('' \<Longrightarrow>
   normalizeApplicationPathShape regexp (CHR '':'' # cs) =
     map_option ((@) ''{}'') (normalizeApplicationPathShape regexp (d # ds))"
  by (subst normalizeApplicationPathShape.simps(2)) simp

lemma normalize_other:
  "c \<noteq> CHR ''{'' \<Longrightarrow> c \<noteq> CHR ''}'' \<Longrightarrow> c \<noteq> CHR '':'' \<or> fst (name_match cs) = [] \<Longrightarrow>
   normalizeApplicationPathShape regexp (c # cs) = map_option ((#) c) (normalizeApplicationPathShape regexp cs)"
  by (subst normalizeApplicationPathShape.simps(2)) auto

lemmas normalize_eqs =
  normalize_open normalize_close normalize_colon_end normalize_colon_paren normalize_colon_more normalize_other

section \<open>The grammar of paths\<close>

text \<open>
  What the scanner promises: a path is a list of literal characters and parameters in either
  notation, and its shape keeps the literals and the constraints and drops the names.
\<close>

datatype path_token =
    TLit char
  | TBrace string
  | TColon string
  | TBraceRe string string
  | TColonRe string string

fun token_text :: "path_token \<Rightarrow> string" where
  "token_text (TLit c) = [c]"
| "token_text (TBrace n) = ''{'' @ n @ ''}''"
| "token_text (TColon n) = '':'' @ n"
| "token_text (TBraceRe n k) = ''{'' @ n @ '':'' @ k @ ''}''"
| "token_text (TColonRe n k) = '':'' @ n @ ''('' @ k @ '')''"

fun token_shape :: "path_token \<Rightarrow> string" where
  "token_shape (TLit c) = [c]"
| "token_shape (TBrace n) = ''{}''"
| "token_shape (TColon n) = ''{}''"
| "token_shape (TBraceRe n k) = ''{:'' @ k @ ''}''"
| "token_shape (TColonRe n k) = ''{:'' @ k @ ''}''"

definition first_char :: "(char \<Rightarrow> bool) \<Rightarrow> string \<Rightarrow> bool" where
  "first_char p s = (case s of [] \<Rightarrow> False | c # _ \<Rightarrow> p c)"

text \<open>A constraint in which the cls delimiter occurs only escaped, in a class or nested.\<close>

definition balanced :: "char \<Rightarrow> char \<Rightarrow> string \<Rightarrow> bool" where
  "balanced opn cls k = (delimitedPathExpression opn cls 1 False False (k @ [cls]) = Some (k, []))"

fun token_ok :: "(string \<Rightarrow> bool) \<Rightarrow> path_token \<Rightarrow> string \<Rightarrow> bool" where
  "token_ok regexp (TLit c) rest =
     (c \<noteq> CHR ''{'' \<and> c \<noteq> CHR ''}'' \<and> (c = CHR '':'' \<longrightarrow> \<not> first_char name_start rest))"
| "token_ok regexp (TBrace n) rest = pathName n"
| "token_ok regexp (TColon n) rest = (pathName n \<and> \<not> first_char (\<lambda>c. name_char c \<or> c = CHR ''('') rest)"
| "token_ok regexp (TBraceRe n k) rest =
     (pathName n \<and> validatePathConstraint regexp k \<noteq> None \<and> balanced (CHR ''{'') (CHR ''}'') k)"
| "token_ok regexp (TColonRe n k) rest =
     (pathName n \<and> validatePathConstraint regexp k \<noteq> None \<and> balanced (CHR ''('') (CHR '')'') k)"

fun path_ok :: "(string \<Rightarrow> bool) \<Rightarrow> path_token list \<Rightarrow> bool" where
  "path_ok regexp [] = True"
| "path_ok regexp (t # ts) = (token_ok regexp t (concat_map token_text ts) \<and> path_ok regexp ts)"

lemma delimited_append:
  "delimitedPathExpression opn cls d k e s = Some (b, r) \<Longrightarrow>
   delimitedPathExpression opn cls d k e (s @ t) = Some (b, r @ t)"
proof (induction s arbitrary: d k e b)
  case (Cons c s)
  from Cons.prems show ?case
    by (simp add: Let_def split: if_split_asm) (auto dest!: Cons.IH)
qed simp

lemma delimited_split:
  "delimitedPathExpression opn cls d k e s = Some (b, r) \<Longrightarrow>
   s = b @ cls # r \<and> delimitedPathExpression opn cls d k e (b @ [cls]) = Some (b, [])"
proof (induction s arbitrary: d k e b)
  case (Cons c s)
  from Cons.prems show ?case
    by (simp add: Let_def split: if_split_asm) (auto dest!: Cons.IH)
qed simp

lemma balanced_iff:
  "delimitedPathExpression opn cls 1 False False s = Some (b, r) \<longleftrightarrow>
   s = b @ cls # r \<and> balanced opn cls b"
  using delimited_append [of opn cls "1" False False "b @ [cls]" b "[]" r]
    delimited_split [of opn cls "1" False False s b r]
  by (auto simp: balanced_def)

lemma name_char_plain:
  assumes "name_char c"
  shows "c \<noteq> CHR 0x5C" "c \<noteq> CHR ''[''" "c \<noteq> CHR '']''" "c \<noteq> CHR ''{''" "c \<noteq> CHR ''}''" "c \<noteq> CHR '':''" "c \<noteq> CHR ''(''"
  using assms by (auto simp: name_char_def name_start_def is_upper_def is_lower_def is_digit_def less_eq_char_def)

lemma pathName_chars: "pathName n \<Longrightarrow> n \<noteq> [] \<and> list_all name_char n \<and> name_start (hd n)"
  by (auto simp: pathName_def name_char_def split: list.splits)

lemma delimited_name:
  "list_all name_char n \<Longrightarrow>
   delimitedPathExpression (CHR ''{'') (CHR ''}'') 1 False False (n @ s) =
   map_option (apfst ((@) n)) (delimitedPathExpression (CHR ''{'') (CHR ''}'') 1 False False s)"
proof (induction n)
  case Nil
  then show ?case by (simp add: option.map_id0 [unfolded id_def] apfst_def map_prod_def)
next
  case (Cons c n)
  then show ?case
    using name_char_plain [of c]
    by (cases "delimitedPathExpression (CHR ''{'') (CHR ''}'') 1 False False s") (auto simp: Let_def)
qed

lemma split_colon_name:
  "list_all name_char n \<Longrightarrow> split_colon n = (n, None)"
  "list_all name_char n \<Longrightarrow> split_colon (n @ CHR '':'' # k) = (n, Some k)"
  by (induction n) (auto dest: name_char_plain)

lemma split_colon_iff:
  "split_colon s = (n, None) \<Longrightarrow> n = s"
  "split_colon s = (n, Some k) \<Longrightarrow> s = n @ CHR '':'' # k"
  by (induction s arbitrary: n) (auto simp: apfst_def map_prod_def split: if_splits prod.splits)

lemma name_match_name:
  assumes "pathName n" "\<not> first_char name_char r"
  shows "name_match (n @ r) = (n, r)"
  using assms
  by (auto simp: pathName_def name_match_def first_char_def takeWhile_append2 dropWhile_append2
      list_all_iff takeWhile_append dropWhile_append split: list.splits)

lemma first_char_dropWhile: "\<not> first_char p (dropWhile p s)"
  by (induction s) (auto simp: first_char_def)

lemma name_match_cases:
  assumes "name_match s = (n, r)" "n \<noteq> []"
  shows "s = n @ r" "pathName n" "\<not> first_char name_char r"
proof -
  show "s = n @ r" "pathName n"
    using assms set_takeWhileD
    by (fastforce simp: name_match_def pathName_def list_all_iff split: list.splits if_splits)+
  show "\<not> first_char name_char r"
    using assms first_char_dropWhile [of name_char "tl s"]
    by (auto simp: name_match_def split: list.splits if_splits)
qed

lemma validatePathConstraint_iff:
  "validatePathConstraint regexp k = Some k' \<longleftrightarrow> k' = k \<and> k \<noteq> [] \<and> regexp (''^(?:'' @ k @ '')$'')"
  by (auto simp: validatePathConstraint_def)

lemma brace_shape_name: "pathName n \<Longrightarrow> brace_shape regexp n = Some ''{}''"
  by (simp add: brace_shape_def split_colon_name pathName_chars)

lemma brace_shape_constraint:
  "pathName n \<Longrightarrow> validatePathConstraint regexp k = Some k \<Longrightarrow>
   brace_shape regexp (n @ CHR '':'' # k) = Some (''{:'' @ k @ ''}'')"
  by (simp add: brace_shape_def split_colon_name pathName_chars)

lemma brace_shape_cases:
  assumes "brace_shape regexp body = Some piece"
  obtains (name) "pathName body" "piece = ''{}''"
  | (constraint) n k where "body = n @ CHR '':'' # k" "pathName n"
      "validatePathConstraint regexp k = Some k" "piece = ''{:'' @ k @ ''}''"
proof (cases "split_colon body")
  case (Pair n rest)
  show ?thesis
  proof (cases rest)
    case None
    then have "body = n" using Pair by (auto dest: split_colon_iff)
    with assms Pair None name show ?thesis by (auto simp: brace_shape_def split: if_splits)
  next
    case (Some k)
    then have "body = n @ CHR '':'' # k" using Pair by (auto dest: split_colon_iff)
    with assms Pair Some constraint show ?thesis
      by (auto simp: brace_shape_def validatePathConstraint_iff split: if_splits)
  qed
qed

lemma balanced_name:
  assumes "pathName n"
  shows "balanced (CHR ''{'') (CHR ''}'') n"
    and "balanced (CHR ''{'') (CHR ''}'') k \<Longrightarrow> balanced (CHR ''{'') (CHR ''}'') (n @ CHR '':'' # k)"
    and "balanced (CHR ''{'') (CHR ''}'') (n @ CHR '':'' # k) \<Longrightarrow> balanced (CHR ''{'') (CHR ''}'') k"
proof -
  have n: "delimitedPathExpression (CHR ''{'') (CHR ''}'') 1 False False (n @ s) =
      map_option (apfst ((@) n)) (delimitedPathExpression (CHR ''{'') (CHR ''}'') 1 False False s)" for s
    using assms by (intro delimited_name) (simp add: pathName_chars)
  show "balanced (CHR ''{'') (CHR ''}'') n"
    using n [of "''}''"] by (simp add: balanced_def)
  show "balanced (CHR ''{'') (CHR ''}'') (n @ CHR '':'' # k)" if "balanced (CHR ''{'') (CHR ''}'') k"
    using n [of "CHR '':'' # k @ ''}''"] that by (simp add: balanced_def Let_def)
  show "balanced (CHR ''{'') (CHR ''}'') k" if "balanced (CHR ''{'') (CHR ''}'') (n @ CHR '':'' # k)"
    using n [of "CHR '':'' # k @ ''}''"] that
    by (cases "delimitedPathExpression (CHR ''{'') (CHR ''}'') 1 False False (k @ ''}'')")
      (auto simp: balanced_def Let_def)
qed

lemma normalize_brace:
  assumes "balanced (CHR ''{'') (CHR ''}'') body" "brace_shape regexp body = Some piece"
  shows "normalizeApplicationPathShape regexp (CHR ''{'' # body @ CHR ''}'' # rest) =
    map_option ((@) piece) (normalizeApplicationPathShape regexp rest)"
proof -
  have "delimitedPathExpression (CHR ''{'') (CHR ''}'') 1 False False (body @ CHR ''}'' # rest) = Some (body, rest)"
    using assms(1) by (simp only: balanced_iff)
  then show ?thesis using assms(2) by (simp add: normalize_eqs)
qed

lemma normalize_colon_constraint:
  assumes "pathName n" "balanced (CHR ''('') (CHR '')'') k" "validatePathConstraint regexp k = Some k"
  shows "normalizeApplicationPathShape regexp (CHR '':'' # n @ CHR ''('' # k @ CHR '')'' # rest) =
    map_option ((@) (''{:'' @ k @ ''}'')) (normalizeApplicationPathShape regexp rest)"
proof -
  have "name_match (n @ CHR ''('' # k @ CHR '')'' # rest) = (n, CHR ''('' # k @ CHR '')'' # rest)"
    using assms(1) by (intro name_match_name) (auto simp: first_char_def dest: name_char_plain)
  moreover have "delimitedPathExpression (CHR ''('') (CHR '')'') 1 False False (k @ CHR '')'' # rest) = Some (k, rest)"
    using assms(2) by (simp only: balanced_iff)
  ultimately show ?thesis
    using assms(1,3) by (simp add: normalize_eqs pathName_chars)
qed

lemma normalize_colon:
  assumes "pathName n" "\<not> first_char (\<lambda>c. name_char c \<or> c = CHR ''('') rest"
  shows "normalizeApplicationPathShape regexp (CHR '':'' # n @ rest) =
    map_option ((@) ''{}'') (normalizeApplicationPathShape regexp rest)"
proof -
  have "name_match (n @ rest) = (n, rest)"
    using assms by (intro name_match_name) (auto simp: first_char_def split: list.splits)
  with assms show ?thesis
    by (cases rest)
      (auto simp: normalize_eqs pathName_chars first_char_def)
qed

lemma normalize_literal:
  assumes "c \<noteq> CHR ''{''" "c \<noteq> CHR ''}''" "c = CHR '':'' \<longrightarrow> \<not> first_char name_start rest"
  shows "normalizeApplicationPathShape regexp (c # rest) = map_option ((#) c) (normalizeApplicationPathShape regexp rest)"
proof -
  have "fst (name_match rest) = [] \<or> c \<noteq> CHR '':''"
    using assms(3) by (auto simp: name_match_def first_char_def split: list.splits)
  then show ?thesis
    using assms(1,2) by (intro normalize_other) auto
qed

lemma normalize_tokens:
  "path_ok regexp ts \<Longrightarrow>
   normalizeApplicationPathShape regexp (concat_map token_text ts) = Some (concat_map token_shape ts)"
proof (induction ts)
  case (Cons t ts)
  then have ih: "normalizeApplicationPathShape regexp (concat_map token_text ts) = Some (concat_map token_shape ts)"
    and ok: "token_ok regexp t (concat_map token_text ts)" by auto
  show ?case
  proof (cases t)
    case (TLit c)
    with ok ih show ?thesis by (simp add: normalize_literal)
  next
    case (TBrace n)
    with ok ih show ?thesis by (simp add: normalize_brace [OF balanced_name(1) brace_shape_name])
  next
    case (TColon n)
    with ok ih show ?thesis by (simp add: normalize_colon)
  next
    case (TBraceRe n k)
    with ok have "validatePathConstraint regexp k = Some k" by (auto simp: validatePathConstraint_iff)
    with TBraceRe ok ih normalize_brace [OF balanced_name(2) brace_shape_constraint, of n k regexp]
    show ?thesis by simp
  next
    case (TColonRe n k)
    with ok have "validatePathConstraint regexp k = Some k" by (auto simp: validatePathConstraint_iff)
    with TColonRe ok ih show ?thesis by (simp add: normalize_colon_constraint)
  qed
qed simp

lemma tokens_of_normalize:
  "normalizeApplicationPathShape regexp s = Some r \<Longrightarrow>
   \<exists>ts. path_ok regexp ts \<and> concat_map token_text ts = s \<and> concat_map token_shape ts = r"
proof (induction regexp s arbitrary: r rule: normalizeApplicationPathShape.induct)
  case (1 regexp)
  then show ?case by (intro exI [of _ "[]"]) simp
next
  case (2 regexp c cs)
  consider (brace) "c = CHR ''{''" | (close) "c = CHR ''}''"
    | (colon) "c = CHR '':''" "fst (name_match cs) \<noteq> []"
    | (lit) "c \<noteq> CHR ''{''" "c \<noteq> CHR ''}''" "\<not> (c = CHR '':'' \<and> fst (name_match cs) \<noteq> [])"
    by blast
  then show ?case
  proof cases
    case brace
    then obtain body rest piece r' where d:
        "delimitedPathExpression (CHR ''{'') (CHR ''}'') 1 False False cs = Some (body, rest)"
        "brace_shape regexp body = Some piece" "normalizeApplicationPathShape regexp rest = Some r'" "r = piece @ r'"
      using 2(5) by (auto simp: normalize_eqs split: option.splits)
    then obtain ts where ts: "path_ok regexp ts" "concat_map token_text ts = rest" "concat_map token_shape ts = r'"
      using 2(1) [OF brace] by blast
    have cs: "cs = body @ CHR ''}'' # rest" "balanced (CHR ''{'') (CHR ''}'') body"
      using d(1) by (auto simp only: balanced_iff)
    from d(2) show ?thesis
    proof (cases rule: brace_shape_cases)
      case name
      with ts cs d(4) brace show ?thesis by (intro exI [of _ "TBrace body # ts"]) simp
    next
      case (constraint n k)
      with ts cs d(4) brace balanced_name(3) [of n k] show ?thesis
        by (intro exI [of _ "TBraceRe n k # ts"]) simp
    qed
  next
    case close
    with 2(5) show ?thesis by (simp add: normalize_eqs)
  next
    case colon
    obtain n rest where nm: "name_match cs = (n, rest)" by (cases "name_match cs")
    with colon have n: "cs = n @ rest" "pathName n" "\<not> first_char name_char rest"
      using name_match_cases [of cs n rest] by auto
    show ?thesis
    proof (cases rest)
      case Nil
      with 2(5) colon nm n show ?thesis
        by (intro exI [of _ "[TColon n]"]) (simp add: normalize_eqs first_char_def)
    next
      case (Cons d ds)
      show ?thesis
      proof (cases "d = CHR ''(''")
        case True
        then obtain k rest' r' where d:
            "delimitedPathExpression (CHR ''('') (CHR '')'') 1 False False ds = Some (k, rest')"
            "validatePathConstraint regexp k = Some k" "normalizeApplicationPathShape regexp rest' = Some r'"
            "r = ''{:'' @ k @ ''}'' @ r'"
          using 2(5) colon nm Cons
          by (auto simp: normalize_eqs validatePathConstraint_iff split: option.splits)
        then obtain ts where ts: "path_ok regexp ts" "concat_map token_text ts = rest'" "concat_map token_shape ts = r'"
          using 2(2) [of d ds "(k, rest')" k rest' k r'] colon nm Cons True by auto
        have "ds = k @ CHR '')'' # rest'" "balanced (CHR ''('') (CHR '')'') k"
          using d(1) by (auto simp only: balanced_iff)
        with ts d n colon Cons True show ?thesis by (intro exI [of _ "TColonRe n k # ts"]) simp
      next
        case False
        then obtain r' where d: "normalizeApplicationPathShape regexp (d # ds) = Some r'" "r = ''{}'' @ r'"
          using 2(5) colon nm Cons by (auto simp: normalize_eqs)
        then obtain ts where ts: "path_ok regexp ts" "concat_map token_text ts = d # ds" "concat_map token_shape ts = r'"
          using 2(3) [of d ds r'] colon nm Cons False by auto
        with d n colon Cons False show ?thesis
          by (intro exI [of _ "TColon n # ts"]) (simp add: first_char_def)
      qed
    qed
  next
    case lit
    then obtain r' where d: "normalizeApplicationPathShape regexp cs = Some r'" "r = c # r'"
      using 2(5) by (auto simp: normalize_eqs)
    then obtain ts where ts: "path_ok regexp ts" "concat_map token_text ts = cs" "concat_map token_shape ts = r'"
      using 2(4) [of r'] lit by auto
    have "c = CHR '':'' \<longrightarrow> \<not> first_char name_start cs"
      using lit by (auto simp: name_match_def first_char_def split: list.splits)
    with ts d lit show ?thesis by (intro exI [of _ "TLit c # ts"]) simp
  qed
qed

section \<open>Selectors\<close>

definition str_member :: "string \<Rightarrow> json \<Rightarrow> string" where
  "str_member k j = (case jget k j of Some (JStr s) \<Rightarrow> s | _ \<Rightarrow> '''')"

text \<open>\<open>{...object, [key]: value}\<close> for a key the object has.\<close>

fun with_member :: "string \<Rightarrow> json \<Rightarrow> json \<Rightarrow> json" where
  "with_member k v (JObj kvs) = JObj (map_set k v kvs)"
| "with_member k v j = j"

text \<open>\<open>"value" in selector ? selector.value : ""\<close>.\<close>

definition selectorValue :: "header_selector \<Rightarrow> string" where
  "selectorValue selector = str_member ''value'' selector"

definition selectorKey :: "header_selector \<Rightarrow> string" where
  "selectorKey selector =
     str_member ''name'' selector @ [CHR 0x00] @ str_member ''operator'' selector @ [CHR 0x00] @ selectorValue selector"

definition canonicalSelectorName :: "bool \<Rightarrow> header_selector \<Rightarrow> header_selector" where
  "canonicalSelectorName caseInsensitiveName selector =
     with_member ''name''
       (JStr (if caseInsensitiveName then toLowerCase (str_member ''name'' selector) else str_member ''name'' selector))
       selector"

definition canonicalSelectorList ::
  "(string \<Rightarrow> string \<Rightarrow> int) \<Rightarrow> header_selector list \<Rightarrow> bool \<Rightarrow> header_selector list" where
  "canonicalSelectorList localeCompare selectors caseInsensitiveName =
     map snd (js_sort (\<lambda>a b. localeCompare (fst a) (fst b))
       (keyed selectorKey
         (map (canonicalSelectorName caseInsensitiveName) selectors)))"

text \<open>\<open>.sort()\<close> without a comparator orders by UTF-16 code units, the code point order here.\<close>

definition selectorStringSet :: "string list \<Rightarrow> string list" where
  "selectorStringSet values = sort (js_set (map toLowerCase values))"

definition canonicalSelectors :: "(string \<Rightarrow> string \<Rightarrow> int) \<Rightarrow> route_selectors \<Rightarrow> route_selectors" where
  "canonicalSelectors localeCompare selectors =
     \<lparr>rs_headers = map_option (\<lambda>xs. canonicalSelectorList localeCompare xs True) (rs_headers selectors),
      rs_consumes = map_option selectorStringSet (rs_consumes selectors),
      rs_produces = map_option selectorStringSet (rs_produces selectors),
      rs_query = map_option (\<lambda>xs. canonicalSelectorList localeCompare xs False) (rs_query selectors)\<rparr>"

definition or_empty :: "'a list option \<Rightarrow> 'a list" where
  "or_empty xs = (case xs of None \<Rightarrow> [] | Some ys \<Rightarrow> ys)"

definition stableSelectors :: "route_selectors \<Rightarrow> string" where
  "stableSelectors selectors = json_text (JObj
     [(''headers'', JArr (or_empty (rs_headers selectors))),
      (''consumes'', JArr (map JStr (or_empty (rs_consumes selectors)))),
      (''produces'', JArr (map JStr (or_empty (rs_produces selectors)))),
      (''query'', JArr (or_empty (rs_query selectors)))])"

text \<open>The selectors as the JSON object they are, absent members left out.\<close>

definition opt_member :: "string \<Rightarrow> json option \<Rightarrow> (string \<times> json) list" where
  "opt_member k v = (case v of None \<Rightarrow> [] | Some j \<Rightarrow> [(k, j)])"

definition selectors_json :: "route_selectors \<Rightarrow> json" where
  "selectors_json selectors = JObj
     (opt_member ''headers'' (map_option JArr (rs_headers selectors)) @
      opt_member ''consumes'' (map_option (\<lambda>xs. JArr (map JStr xs)) (rs_consumes selectors)) @
      opt_member ''produces'' (map_option (\<lambda>xs. JArr (map JStr xs)) (rs_produces selectors)) @
      opt_member ''query'' (map_option JArr (rs_query selectors)))"

definition identity_json :: "endpoint_identity \<Rightarrow> json" where
  "identity_json i = JObj
     [(''identity_version'', JStr (ei_identity_version i)),
      (''route_key'', JStr (ei_route_key i)),
      (''service_id'', JStr (ei_service_id i)),
      (''method'', JStr (ei_method i)),
      (''normalized_path_shape'', JStr (ei_normalized_path_shape i)),
      (''selectors'', selectors_json (ei_selectors i))]"

section \<open>Deriving the identity\<close>

record identity_input =
  ii_identity_version :: string
  ii_service_id :: string
  ii_method :: string
  ii_application_path :: string
  ii_selectors :: "route_selectors option"

datatype identity_error = IdentityInputShape | IdentityPathSyntax

fun selector_shape_ok :: "header_selector \<Rightarrow> bool" where
  "selector_shape_ok (JObj kvs) =
     (distinct (map fst kvs) \<and> str_member ''name'' (JObj kvs) \<noteq> '''' \<and>
      (set (map fst kvs) = {''name'', ''operator'', ''value''} \<and> map_of kvs ''operator'' = Some (JStr ''equals'') \<and>
         (case map_of kvs ''value'' of Some (JStr _) \<Rightarrow> True | _ \<Rightarrow> False) \<or>
       set (map fst kvs) = {''name'', ''operator''} \<and>
         (map_of kvs ''operator'' = Some (JStr ''present'') \<or> map_of kvs ''operator'' = Some (JStr ''absent''))))"
| "selector_shape_ok _ = False"

definition selectors_shape_ok :: "route_selectors \<Rightarrow> bool" where
  "selectors_shape_ok s =
     (list_all selector_shape_ok (or_empty (rs_headers s)) \<and> list_all selector_shape_ok (or_empty (rs_query s)) \<and>
      list_all (\<lambda>x. x \<noteq> '''') (or_empty (rs_consumes s)) \<and> list_all (\<lambda>x. x \<noteq> '''') (or_empty (rs_produces s)))"

text \<open>What \<open>EndpointIdentityInputSchema\<close> asks of a typed input.\<close>

definition identity_input_ok :: "identity_input \<Rightarrow> bool" where
  "identity_input_ok i =
     (ii_identity_version i = IDENTITY_VERSION \<and> ii_service_id i \<noteq> '''' \<and>
      ii_method i \<noteq> '''' \<and> list_all (\<lambda>c. is_upper c \<or> is_lower c) (ii_method i) \<and>
      starts_with (ii_application_path i) ''/'' \<and>
      (case ii_selectors i of None \<Rightarrow> True | Some s \<Rightarrow> selectors_shape_ok s))"

definition empty_selectors :: route_selectors where
  "empty_selectors = \<lparr>rs_headers = None, rs_consumes = None, rs_produces = None, rs_query = None\<rparr>"

definition deriveEndpointIdentity :: "platform \<Rightarrow> identity_input \<Rightarrow> (identity_error, endpoint_identity) result" where
  "deriveEndpointIdentity pf input =
     (if \<not> identity_input_ok input then Inl IdentityInputShape
      else case normalizeApplicationPathShape (pf_regexp pf) (ii_application_path input) of
        None \<Rightarrow> Inl IdentityPathSyntax
      | Some normalizedPathShape \<Rightarrow>
          (let m = toUpperCase (ii_method input);
               selectors = canonicalSelectors (pf_locale pf)
                 (case ii_selectors input of None \<Rightarrow> empty_selectors | Some s \<Rightarrow> s)
           in Inr \<lparr>ei_identity_version = ii_identity_version input,
                   ei_route_key = ii_identity_version input @ ''|'' @ ii_service_id input @ ''|'' @ m @ ''|'' @
                     normalizedPathShape @ ''|'' @ stableSelectors selectors,
                   ei_service_id = ii_service_id input,
                   ei_method = m,
                   ei_normalized_path_shape = normalizedPathShape,
                   ei_selectors = selectors\<rparr>))"

section \<open>Canonical selectors\<close>

lemma lower_char_idem [simp]: "lower_char (lower_char c) = lower_char c"
proof -
  define n where "n = (of_char c :: nat)"
  have "n < 256" unfolding n_def by (rule nat_of_char_less_256) 
  then show ?thesis
    by (auto simp: lower_char_def Let_def n_def [symmetric] of_char_char_of)
qed

lemma toLowerCase_idem [simp]: "toLowerCase (toLowerCase s) = toLowerCase s"
  by (simp add: toLowerCase_def)

lemma upper_ascii_letters: "is_upper c \<or> is_lower c \<Longrightarrow> is_upper (upper_ascii c)"
proof -
  assume letter: "is_upper c \<or> is_lower c"
  define n where "n = (of_char c :: nat)"
  have n: "n < 256" unfolding n_def by (rule nat_of_char_less_256)
  show "is_upper (upper_ascii c)"
    using letter n
    by (auto simp: upper_ascii_def is_upper_def is_lower_def less_eq_char_def n_def [symmetric] of_char_char_of)
qed

lemma upper_ascii_idem: "is_upper (upper_ascii c) \<Longrightarrow> upper_ascii (upper_ascii c) = upper_ascii c"
  by (simp add: upper_ascii_def [of "upper_ascii c"]) (auto simp: is_upper_def is_lower_def less_eq_char_def)

lemma toUpperCase_letters:
  assumes "list_all (\<lambda>c. is_upper c \<or> is_lower c) s"
  shows "toUpperCase (toUpperCase s) = toUpperCase s"
    and "list_all (\<lambda>c. is_upper c \<or> is_lower c) (toUpperCase s)"
  using assms by (induction s) (auto simp: toUpperCase_def upper_ascii_letters upper_ascii_idem)

lemma set_selectorStringSet: "set (selectorStringSet xs) = toLowerCase ` set xs"
  by (simp add: selectorStringSet_def)

lemma sorted_selectorStringSet: "sorted_wrt (<) (selectorStringSet xs)"
  by (simp add: selectorStringSet_def sorted_wrt_less_sort)

lemma selectorStringSet_cong: "set xs = set ys \<Longrightarrow> selectorStringSet xs = selectorStringSet ys"
  by (rule sorted_wrt_less_unique) (simp_all add: sorted_selectorStringSet set_selectorStringSet)

lemma selectorStringSet_idem: "selectorStringSet (selectorStringSet xs) = selectorStringSet xs"
  by (rule sorted_wrt_less_unique)
    (simp_all add: sorted_selectorStringSet set_selectorStringSet image_image)

lemma canonicalSelectorName_idem:
  "canonicalSelectorName ci (canonicalSelectorName ci s) = canonicalSelectorName ci s"
  by (cases s) (auto simp: canonicalSelectorName_def str_member_def update_conv')

lemma keyed_sorted_idem:
  fixes key :: "'a \<Rightarrow> 'k" and xs :: "'a list"
  assumes "collation cmp"
  defines "l \<equiv> js_sort (\<lambda>a b. cmp (fst a) (fst b)) (keyed key xs)"
  shows "js_sort (\<lambda>a b. cmp (fst a) (fst b)) (keyed key (map snd l)) = l"
proof -
  have c: "collation (\<lambda>a b. cmp (fst a) (fst b))"
    by (rule collation.by_key [OF assms(1)])
  have l: "set l = set (keyed key xs)" "mset l = mset (keyed key xs)"
    unfolding l_def by (rule collation.set_sort [OF c], rule collation.mset_sort [OF c])
  have pair: "(key (snd p), snd p) = p" if "p \<in> set l" for p
    using that keyed_mem [of "fst p" "snd p" key xs] unfolding l(1) by simp
  have "distinct (map fst l)"
    using l(2) distinct_keyed [of key xs] by (metis mset_map mset_eq_imp_distinct_iff)
  moreover have keys: "map fst l = map key (map snd l)"
    using pair by (metis (mono_tags, lifting) comp_apply fst_conv map_map map_eq_conv)
  ultimately have d: "distinct (map key (map snd l))" by simp
  have "keyed key (map snd l) = map (\<lambda>x. (key x, x)) (map snd l)"
    by (rule keyed_inj) (use d distinct_map [of key "map snd l"] in blast)+
  also have "\<dots> = l" using pair by (simp add: comp_def map_idI)
  finally have "keyed key (map snd l) = l" .
  moreover have "js_sort (\<lambda>a b. cmp (fst a) (fst b)) l = l"
    unfolding l_def by (intro collation.sort_sorted [OF c] collation.sorted_sort [OF c])
  ultimately show ?thesis by simp
qed

lemma canonicalSelectorList_fixed:
  assumes "s \<in> set (canonicalSelectorList cmp xs ci)" "collation cmp"
  shows "\<exists>x \<in> set xs. s = canonicalSelectorName ci x"
proof -
  have c: "collation (\<lambda>a b. cmp (fst a) (fst b))" by (rule collation.by_key [OF assms(2)])
  from assms(1) obtain k where "(k, s) \<in> set (keyed selectorKey (map (canonicalSelectorName ci) xs))"
    by (auto simp: canonicalSelectorList_def collation.set_sort [OF c])
  from keyed_mem [OF this] show ?thesis by auto
qed

lemma canonicalSelectorList_idem:
  assumes "collation cmp"
  shows "canonicalSelectorList cmp (canonicalSelectorList cmp xs ci) ci = canonicalSelectorList cmp xs ci"
proof -
  have "map (canonicalSelectorName ci) (canonicalSelectorList cmp xs ci) = canonicalSelectorList cmp xs ci"
    using canonicalSelectorList_fixed [OF _ assms] canonicalSelectorName_idem by (intro map_idI) metis
  then show ?thesis
    by (simp only: canonicalSelectorList_def keyed_sorted_idem [OF assms])
qed

text \<open>
  A header or query selector list has one canonical form whatever the order and the
  repetitions of the declarations, as long as the collation tells the selectors' keys apart.
\<close>

theorem canonicalSelectorList_order_free:
  assumes "collation cmp" and "set xs = set ys"
    and "\<And>x y. x \<in> set xs \<Longrightarrow> y \<in> set xs \<Longrightarrow>
      cmp (selectorKey (canonicalSelectorName ci x)) (selectorKey (canonicalSelectorName ci y)) \<le> 0 \<Longrightarrow>
      cmp (selectorKey (canonicalSelectorName ci y)) (selectorKey (canonicalSelectorName ci x)) \<le> 0 \<Longrightarrow>
      canonicalSelectorName ci x = canonicalSelectorName ci y"
  shows "canonicalSelectorList cmp xs ci = canonicalSelectorList cmp ys ci"
proof -
  let ?n = "canonicalSelectorName ci"
  let ?cmp = "\<lambda>a b. cmp (fst a) (fst b)"
  have c: "collation ?cmp" by (rule collation.by_key [OF assms(1)])
  have refl: "cmp k k \<le> 0" for k using collation.total [OF assms(1), of k k] by simp
  have inj: "inj_on selectorKey (set (map ?n xs))" "inj_on selectorKey (set (map ?n ys))"
    using assms(2,3) refl by (fastforce simp: inj_on_def)+
  have sets: "set (keyed selectorKey (map ?n xs)) = set (keyed selectorKey (map ?n ys))"
    using assms(2) by (simp add: set_keyed [OF inj(1)] set_keyed [OF inj(2)])
  have "distinct (keyed selectorKey zs)" for zs
    using distinct_keyed [of selectorKey zs] by (simp add: distinct_map)
  with sets have "mset (keyed selectorKey (map ?n xs)) = mset (keyed selectorKey (map ?n ys))"
    by (simp add: set_eq_iff_mset_eq_distinct)
  then have "js_sort ?cmp (keyed selectorKey (map ?n xs)) = js_sort ?cmp (keyed selectorKey (map ?n ys))"
  proof (rule collation.sort_unique [OF c])
    fix a b
    assume ab: "a \<in> set (keyed selectorKey (map ?n xs))" "b \<in> set (keyed selectorKey (map ?n xs))"
      "cmp (fst a) (fst b) \<le> 0" "cmp (fst b) (fst a) \<le> 0"
    then obtain x y where xy: "x \<in> set xs" "a = (selectorKey (?n x), ?n x)"
        "y \<in> set xs" "b = (selectorKey (?n y), ?n y)"
      by (auto simp: set_keyed [OF inj(1)])
    with ab assms(3) [of x y] show "a = b" by simp
  qed
  then show ?thesis by (simp add: canonicalSelectorList_def)
qed

definition sample_selector :: "string \<Rightarrow> string \<Rightarrow> json" where
  "sample_selector n v = JObj [(''name'', JStr n), (''operator'', JStr ''equals''), (''value'', JStr v)]"

theorem canonicalSelectorList_order_free_witness:
  "canonicalSelectorList compareUtf8 [sample_selector ''Accept'' ''a'', sample_selector ''x'' ''b''] True =
   canonicalSelectorList compareUtf8
     [sample_selector ''x'' ''b'', sample_selector ''Accept'' ''a'', sample_selector ''x'' ''b''] True"
  by (rule canonicalSelectorList_order_free [OF utf8.collation_axioms])
    (auto simp: sample_selector_def canonicalSelectorName_def selectorKey_def selectorValue_def str_member_def)

lemma canonicalSelectors_idem:
  assumes "collation cmp"
  shows "canonicalSelectors cmp (canonicalSelectors cmp s) = canonicalSelectors cmp s"
  by (simp add: canonicalSelectors_def option.map_comp comp_def selectorStringSet_idem canonicalSelectorList_idem [OF assms])

lemma toLowerCase_Nil [simp]: "toLowerCase s = [] \<longleftrightarrow> s = []"
  by (simp add: toLowerCase_def)

lemma selector_shape_rename:
  assumes "selector_shape_ok (JObj kvs)" "n \<noteq> ''''"
  shows "selector_shape_ok (JObj (map_set ''name'' (JStr n) kvs))"
proof -
  have "map fst (map_set ''name'' (JStr n) kvs) = map fst kvs"
    using assms(1) by (auto simp: update_keys)
  with assms show ?thesis
    by (simp only: selector_shape_ok.simps) (simp add: str_member_def update_conv' del: map_of_eq_Some_iff)
qed

lemma selector_shape_canonical:
  assumes "selector_shape_ok s"
  shows "selector_shape_ok (canonicalSelectorName ci s)"
proof (cases s)
  case (JObj kvs)
  then have "str_member ''name'' s \<noteq> ''''" using assms by simp
  with JObj assms selector_shape_rename [of kvs] show ?thesis
    by (simp add: canonicalSelectorName_def del: selector_shape_ok.simps)
qed (use assms in auto)

lemma canonicalSelectors_shape:
  assumes "collation cmp" "selectors_shape_ok s"
  shows "selectors_shape_ok (canonicalSelectors cmp s)"
proof -
  have l: "list_all selector_shape_ok (canonicalSelectorList cmp xs ci)" if "list_all selector_shape_ok xs" for xs ci
    using that canonicalSelectorList_fixed [OF _ assms(1)] selector_shape_canonical
    by (fastforce simp: list_all_iff)
  have "list_all (\<lambda>x. x \<noteq> '''') (selectorStringSet xs)" if "list_all (\<lambda>x. x \<noteq> '''') xs" for xs
    using that by (auto simp: list_all_iff set_selectorStringSet)
  with l assms(2) show ?thesis
    by (auto simp: selectors_shape_ok_def canonicalSelectors_def or_empty_def split: option.splits)
qed

section \<open>Properties\<close>

text \<open>
  C28: A path is accepted exactly when it reads as literals and parameters, and its shape is the
  reading without the parameter names: \<open>/users/{id}\<close> and \<open>/users/:key\<close> have one shape, and a
  constraint is kept.
\<close>

theorem path_shape_grammar:
  "normalizeApplicationPathShape regexp path = Some shape \<longleftrightarrow>
   (\<exists>ts. path_ok regexp ts \<and> concat_map token_text ts = path \<and> concat_map token_shape ts = shape)"
  using normalize_tokens tokens_of_normalize by metis

text \<open>
  Renaming path parameters, or writing them in the other notation, does not change the
  endpoint identity, its route key included.
\<close>

theorem identity_ignores_parameter_names:
  assumes "path_ok (pf_regexp pf) ts" "path_ok (pf_regexp pf) us" "map token_shape ts = map token_shape us"
    and "ii_application_path input = concat_map token_text ts"
  shows "deriveEndpointIdentity pf (input\<lparr>ii_application_path := concat_map token_text us\<rparr>) =
    deriveEndpointIdentity pf input"
proof -
  have "concat_map token_shape ts = concat_map token_shape us"
    using assms(3) by (simp add: concat_map_def)
  then have shape: "normalizeApplicationPathShape (pf_regexp pf) (concat_map token_text us) =
      normalizeApplicationPathShape (pf_regexp pf) (concat_map token_text ts)"
    using assms(1,2) by (simp add: normalize_tokens)
  have slash: "starts_with (token_text t @ s) ''/'' \<longleftrightarrow> token_shape t = ''/''" for t s
    by (cases t) auto
  have "starts_with (concat_map token_text ts) ''/'' = starts_with (concat_map token_text us) ''/''"
    using assms(3) by (cases ts; cases us) (auto simp: slash)
  with shape assms(4) show ?thesis
    by (simp add: deriveEndpointIdentity_def identity_input_ok_def split: option.split)
qed

definition sample_input :: identity_input where
  "sample_input = \<lparr>ii_identity_version = IDENTITY_VERSION, ii_service_id = ''svc'', ii_method = ''get'',
     ii_application_path = ''/users/{id}'', ii_selectors = None\<rparr>"

definition sample_platform :: platform where
  "sample_platform = \<lparr>pf_regexp = (\<lambda>_. True), pf_locale = compareUtf8,
     pf_ajv_graph = (\<lambda>_. GraphCompiles), pf_sha256_hex = (\<lambda>s. s)\<rparr>"

theorem identity_ignores_parameter_names_witness:
  "deriveEndpointIdentity sample_platform (sample_input\<lparr>ii_application_path := ''/users/:key''\<rparr>) =
   deriveEndpointIdentity sample_platform sample_input"
  using identity_ignores_parameter_names
    [of sample_platform "map TLit ''/users/'' @ [TBrace ''id'']" "map TLit ''/users/'' @ [TColon ''key'']" sample_input]
  by (simp add: sample_input_def pathName_def first_char_def name_char_def name_start_def is_lower_def less_eq_char_def)

text \<open>
  C29: The identity of a derived identity is itself: what the analyzers derive passes the
  route identity check of the snapshot validator, which derives it again.
\<close>

theorem derived_identity_rederives:
  assumes "collation (pf_locale pf)" and "deriveEndpointIdentity pf input = Inr identity"
  shows "deriveEndpointIdentity pf
      \<lparr>ii_identity_version = ei_identity_version identity, ii_service_id = ei_service_id identity,
       ii_method = ei_method identity, ii_application_path = ii_application_path input,
       ii_selectors = Some (ei_selectors identity)\<rparr> = Inr identity"
proof -
  let ?s = "case ii_selectors input of None \<Rightarrow> empty_selectors | Some s \<Rightarrow> s"
  from assms(2) obtain shape where ok: "identity_input_ok input"
    and shape: "normalizeApplicationPathShape (pf_regexp pf) (ii_application_path input) = Some shape"
    and identity: "identity = \<lparr>ei_identity_version = ii_identity_version input,
         ei_route_key = ii_identity_version input @ ''|'' @ ii_service_id input @ ''|'' @ toUpperCase (ii_method input) @ ''|'' @
           shape @ ''|'' @ stableSelectors (canonicalSelectors (pf_locale pf) ?s),
         ei_service_id = ii_service_id input, ei_method = toUpperCase (ii_method input),
         ei_normalized_path_shape = shape, ei_selectors = canonicalSelectors (pf_locale pf) ?s\<rparr>"
    by (auto simp: deriveEndpointIdentity_def Let_def split: if_splits option.splits)
  have "selectors_shape_ok ?s"
    using ok by (auto simp: identity_input_ok_def empty_selectors_def selectors_shape_ok_def or_empty_def split: option.splits)
  then have "selectors_shape_ok (canonicalSelectors (pf_locale pf) ?s)"
    by (rule canonicalSelectors_shape [OF assms(1)])
  moreover have "toUpperCase (ii_method input) \<noteq> ''''"
    using ok by (simp add: identity_input_ok_def toUpperCase_def)
  moreover have "list_all (\<lambda>c. is_upper c \<or> is_lower c) (ii_method input)"
    using ok by (simp add: identity_input_ok_def)
  ultimately show ?thesis
    using ok toUpperCase_letters [of "ii_method input"]
    by (simp add: identity deriveEndpointIdentity_def identity_input_ok_def shape Let_def canonicalSelectors_idem [OF assms(1)])
qed

definition sample_identity :: endpoint_identity where
  "sample_identity = \<lparr>ei_identity_version = ''1.0.0'',
     ei_route_key = ''1.0.0|svc|GET|/users/{}|'' @ stableSelectors empty_selectors,
     ei_service_id = ''svc'', ei_method = ''GET'', ei_normalized_path_shape = ''/users/{}'',
     ei_selectors = empty_selectors\<rparr>"

lemma sample_identity_derived: "deriveEndpointIdentity sample_platform sample_input = Inr sample_identity"
proof -
  have "toUpperCase ''get'' = ''GET''" by code_simp
  moreover
  have "normalizeApplicationPathShape (pf_regexp sample_platform) ''/users/{id}'' = Some ''/users/{}''"
    using normalize_tokens [of "pf_regexp sample_platform" "map TLit ''/users/'' @ [TBrace ''id'']"]
    by (simp add: pathName_def name_char_def name_start_def is_lower_def less_eq_char_def)
  ultimately show ?thesis
    by (simp add: deriveEndpointIdentity_def identity_input_ok_def sample_input_def sample_identity_def IDENTITY_VERSION_def
        is_lower_def is_upper_def less_eq_char_def canonicalSelectors_def empty_selectors_def Let_def)
qed

theorem derived_identity_rederives_witness:
  "deriveEndpointIdentity sample_platform
      \<lparr>ii_identity_version = ''1.0.0'', ii_service_id = ''svc'', ii_method = ''GET'',
       ii_application_path = ''/users/{id}'', ii_selectors = Some empty_selectors\<rparr> = Inr sample_identity"
proof -
  have "collation (pf_locale sample_platform)" by (simp add: sample_platform_def utf8.collation_axioms)
  from derived_identity_rederives [OF this sample_identity_derived]
  show ?thesis by (simp add: sample_identity_def sample_input_def)
qed

end
