(* ===== verification/Snapshot.thy ===== *)
theory Snapshot
  imports Identity
begin

text \<open>
  \<open>packages/ir/src/snapshot.ts\<close>: the semantic checks of a contract snapshot whose shape is
  valid. Every check returns the list of issues it pushes, in the order the code pushes them.
\<close>

section \<open>Schema positions\<close>

fun escape_pointer :: "string \<Rightarrow> string" where
  "escape_pointer [] = []"
| "escape_pointer (c # cs) =
     (if c = CHR ''~'' then ''~0'' else if c = CHR ''/'' then ''~1'' else [c]) @ escape_pointer cs"

definition jsonPointerSegment :: "string \<Rightarrow> string" where
  "jsonPointerSegment value = escape_pointer value"

definition object_child :: "json \<Rightarrow> string \<Rightarrow> (string \<times> json) list" where
  "object_child value key =
     (case jget key value of Some child \<Rightarrow> (if is_object child then [(key, child)] else []) | None \<Rightarrow> [])"

definition array_children :: "json \<Rightarrow> string \<Rightarrow> (string \<times> json) list" where
  "array_children value key =
     (case jget key value of
        Some (JArr children) \<Rightarrow> collect_indexed (\<lambda>index child. [(key @ ''/'' @ nat_text index, child)]) children
      | _ \<Rightarrow> [])"

definition schemaChildren :: "json \<Rightarrow> (string \<times> json) list" where
  "schemaChildren value =
     (case jget ''properties'' value of
        Some (JObj kvs) \<Rightarrow> map (\<lambda>(key, child). (''properties/'' @ jsonPointerSegment key, child)) kvs
      | _ \<Rightarrow> []) @
     concat_map (object_child value) [''items'', ''additionalProperties'', ''not''] @
     concat_map (array_children value) [''allOf'', ''anyOf'', ''oneOf'', ''prefixItems'']"

lemma jget_size: "jget k j = Some v \<Longrightarrow> size v < size j"
  by (cases j) (auto dest!: map_of_SomeD size_snd_member)

lemma jget_arr_size:
  assumes "jget k j = Some (JArr vs)" "v \<in> set vs"
  shows "size v < size j"
  using jget_size [OF assms(1)] size_list_member [OF assms(2)] by simp

lemma jget_obj_size:
  assumes "jget k j = Some (JObj kvs)" "(n, v) \<in> set kvs"
  shows "size v < size j"
  using jget_size [OF assms(1)] size_snd_member [OF assms(2)] by simp

lemma collect_from_mem: "p \<in> set (collect_from i (\<lambda>j v. [(f j, v)]) vs) \<Longrightarrow> snd p \<in> set vs"
  by (induction vs arbitrary: i) auto

lemma schemaChildren_size [termination_simp]: "(p, child) \<in> set (schemaChildren value) \<Longrightarrow> size child < size value"
  by (auto simp: schemaChildren_def object_child_def array_children_def
      intro: jget_size [OF sym] jget_arr_size [OF sym] jget_obj_size [OF sym]
      dest!: collect_from_mem split: option.splits json.splits if_splits)

fun collectSchemaRefs :: "json \<Rightarrow> string \<Rightarrow> (string \<times> string) list" where
  "collectSchemaRefs value path =
     (if \<not> is_object value then []
      else (case jget ''$ref'' value of Some (JStr ref) \<Rightarrow> [(ref, path @ ''/$ref'')] | _ \<Rightarrow> []) @
        concat_map (\<lambda>(childPath, child). collectSchemaRefs child (path @ ''/'' @ childPath)) (schemaChildren value))"

declare collectSchemaRefs.simps [simp del]

text \<open>\<open>{...schema}\<close> with the members the code reassigns; each keeps its place.\<close>

definition translate_member :: "(json \<Rightarrow> json) \<Rightarrow> string \<Rightarrow> json \<Rightarrow> json" where
  "translate_member translate key child =
     (if key = ''$ref'' then
        (case child of
           JStr ref \<Rightarrow> (if starts_with ref ''#/schemas/''
              then JStr (''#/$defs/'' @ jsonPointerSegment (drop (length ''#/schemas/'') ref)) else child)
         | _ \<Rightarrow> child)
      else if key = ''properties'' then
        (case child of JObj members \<Rightarrow> JObj (map (\<lambda>(k, v). (k, translate v)) members) | _ \<Rightarrow> child)
      else if key \<in> {''items'', ''additionalProperties'', ''not''} then translate child
      else if key \<in> {''allOf'', ''anyOf'', ''oneOf'', ''prefixItems''} then
        (case child of JArr members \<Rightarrow> JArr (map translate members) | _ \<Rightarrow> child)
      else child)"

lemma translate_member_cong [fundef_cong]:
  assumes "key = key'" "child = child'" "\<And>v. size v \<le> size child' \<Longrightarrow> f v = g v"
  shows "translate_member f key child = translate_member g key' child'"
proof -
  have "map f vs = map g vs" if "child' = JArr vs" for vs
    using that assms(3) size_list_member [of _ vs] by (auto intro: less_imp_le)
  moreover have "map (\<lambda>(k, v). (k, f v)) kvs = map (\<lambda>(k, v). (k, g v)) kvs" if "child' = JObj kvs" for kvs
    using that assms(3) size_snd_member [of _ _ kvs] by (auto intro: less_imp_le)
  ultimately show ?thesis
    using assms by (auto simp: translate_member_def split: json.splits)
qed

lemma size_member_le [termination_simp]:
  "(key, child) \<in> set kvs \<Longrightarrow> size v \<le> size child \<Longrightarrow> size v < Suc (size_list (size_prod (\<lambda>_. 0) size) kvs)"
  using size_snd_member [of key child kvs] by simp

fun translateComponentRefs :: "json \<Rightarrow> json" where
  "translateComponentRefs (JObj kvs) = JObj (map (\<lambda>(key, child). (key, translate_member translateComponentRefs key child)) kvs)"
| "translateComponentRefs value = value"

definition at :: "string \<Rightarrow> nat \<Rightarrow> string" where
  "at prefix index = prefix @ ''/'' @ nat_text index"

definition response_roots :: "string \<Rightarrow> response \<Rightarrow> (string \<times> json) list" where
  "response_roots path r =
     collect_indexed (\<lambda>k c. [(at (path @ ''/content'') k @ ''/schema'', ct_schema c)]) (rp_content r) @
     collect_indexed (\<lambda>k h. [(at (path @ ''/headers'') k @ ''/schema'', hd_schema h)]) (response_headers r)"

definition endpoint_roots :: "nat \<Rightarrow> endpoint \<Rightarrow> (string \<times> json) list" where
  "endpoint_roots i e =
     (let path = at ''/endpoints'' i in
      collect_indexed (\<lambda>j p. [(at (path @ ''/parameters'') j @ ''/schema'', pm_schema p)]) (ep_parameters e) @
      collect_indexed (\<lambda>j b. [(at (path @ ''/request_bodies'') j @ ''/schema'', rb_schema b)]) (ep_request_bodies e) @
      collect_indexed (\<lambda>j r. response_roots (at (path @ ''/responses'') j) r) (ep_responses e))"

definition snapshotSchemaRoots :: "contract_snapshot \<Rightarrow> (string \<times> json) list" where
  "snapshotSchemaRoots s =
     map (\<lambda>(id, component). (''/schemas/'' @ jsonPointerSegment id @ ''/schema'', sm_schema component)) (cs_schemas s) @
     collect_indexed endpoint_roots (cs_endpoints s)"

section \<open>The local canonical text\<close>

text \<open>\<open>canonicalJson\<close> of this file sorts the members by \<open>localeCompare\<close>.\<close>

fun localeCanonicalJson :: "(string \<Rightarrow> string \<Rightarrow> int) \<Rightarrow> json \<Rightarrow> string" where
  "localeCanonicalJson localeCompare (JArr vs) =
     ''['' @ join_with '','' (map (localeCanonicalJson localeCompare) vs) @ '']''"
| "localeCanonicalJson localeCompare (JObj kvs) =
     ''{'' @ join_with '','' (map (\<lambda>(key, text). json_quote key @ '':'' @ text)
        (js_sort (\<lambda>a b. localeCompare (fst a) (fst b))
          (map (\<lambda>(key, child). (key, localeCanonicalJson localeCompare child)) kvs))) @ ''}''"
| "localeCanonicalJson localeCompare value = json_text value"

definition conditionKey :: "(string \<Rightarrow> string \<Rightarrow> int) \<Rightarrow> json option \<Rightarrow> string" where
  "conditionKey localeCompare condition =
     (case condition of None \<Rightarrow> ''<unconditional>'' | Some c \<Rightarrow> localeCanonicalJson localeCompare c)"

fun containsDuplicateEnum :: "(string \<Rightarrow> string \<Rightarrow> int) \<Rightarrow> json \<Rightarrow> bool" where
  "containsDuplicateEnum localeCompare value =
     ((case jget ''enum'' value of
         Some (JArr members) \<Rightarrow>
           length (js_set (map (localeCanonicalJson localeCompare) members)) \<noteq> length members
       | _ \<Rightarrow> False) \<or>
      list_ex (\<lambda>(_, child). containsDuplicateEnum localeCompare child) (schemaChildren value))"

declare containsDuplicateEnum.simps [simp del]

section \<open>The embedded schema graph\<close>

definition endpoint_schemas :: "endpoint \<Rightarrow> json list" where
  "endpoint_schemas e =
     map pm_schema (ep_parameters e) @ map rb_schema (ep_request_bodies e) @
     concat_map (\<lambda>r. map ct_schema (rp_content r) @ map hd_schema (response_headers r)) (ep_responses e)"

definition schemaGraph :: "contract_snapshot \<Rightarrow> json" where
  "schemaGraph s =
     (let definitions = map (\<lambda>(id, c). (id, translateComponentRefs (sm_schema c))) (cs_schemas s);
          candidates =
            map (\<lambda>(id, _). JObj [(''$ref'', JStr (''#/$defs/'' @ jsonPointerSegment id))]) (cs_schemas s) @
            map translateComponentRefs (concat_map endpoint_schemas (cs_endpoints s))
      in JObj ([(''$schema'', JStr ''https://json-schema.org/draft/2020-12/schema''), (''$defs'', JObj definitions)] @
           (if candidates \<noteq> [] then [(''anyOf'', JArr candidates)] else [])))"

definition embeddedSchemaIssues :: "platform \<Rightarrow> contract_snapshot \<Rightarrow> validation_issue list" where
  "embeddedSchemaIssues pf s =
     (if list_ex (\<lambda>(_, schema). containsDuplicateEnum (pf_locale pf) schema) (snapshotSchemaRoots s)
      then [issue ''/schemas'' ''semantic.invalid_api_schema'' ''embedded schema enum values must be unique'']
      else case pf_ajv_graph pf (schemaGraph s) of
        GraphInvalid \<Rightarrow> [issue ''/schemas'' ''semantic.invalid_api_schema'' ''embedded schema graph is invalid'']
      | GraphCompiles \<Rightarrow> []
      | GraphThrows \<Rightarrow> [issue ''/schemas'' ''semantic.invalid_api_schema'' ''embedded schema graph cannot be compiled''])"

section \<open>The semantic checks\<close>

text \<open>One issue per repeated value, whatever the number of repetitions.\<close>

definition duplicates :: "string list \<Rightarrow> string list" where
  "duplicates values = snd (foldl (\<lambda>(seen, dups) v.
     if v \<in> set seen then (seen, set_add v dups) else (set_add v seen, dups)) ([], []) values)"

definition duplicateIssues :: "string list \<Rightarrow> string \<Rightarrow> validation_issue list" where
  "duplicateIssues values path = map (\<lambda>_. issue path ''semantic.duplicate_id'' ''duplicate ID'') (duplicates values)"

definition evidenceReference :: "string list \<Rightarrow> string list \<Rightarrow> string \<Rightarrow> validation_issue list" where
  "evidenceReference ids evidenceIds path =
     collect_indexed (\<lambda>index id. if id \<notin> set evidenceIds
       then [issue (at path index) ''semantic.dangling_reference'' ''unknown evidence reference''] else []) ids"

definition endpointIds :: "contract_snapshot \<Rightarrow> string list" where
  "endpointIds s = js_set (map ep_endpoint_id (cs_endpoints s))"

definition evidenceIds :: "contract_snapshot \<Rightarrow> string list" where
  "evidenceIds s = js_set (map ev_evidence_id (cs_evidence s))"

definition claimIds :: "contract_snapshot \<Rightarrow> string list" where
  "claimIds s = js_set (map cl_claim_id (cs_claims s))"

definition diagnosticIds :: "contract_snapshot \<Rightarrow> string list" where
  "diagnosticIds s = js_set (map dg_diagnostic_id (cs_diagnostics s))"

definition schemaIds :: "contract_snapshot \<Rightarrow> string list" where
  "schemaIds s = js_set (map fst (cs_schemas s))"

definition securitySchemes :: "contract_snapshot \<Rightarrow> (string \<times> security_scheme_fact) list" where
  "securitySchemes s = (case cs_security_schemes s of None \<Rightarrow> [] | Some m \<Rightarrow> m)"

definition idIssues :: "contract_snapshot \<Rightarrow> validation_issue list" where
  "idIssues s =
     duplicateIssues (map ep_endpoint_id (cs_endpoints s)) ''/endpoints'' @
     duplicateIssues (map ev_evidence_id (cs_evidence s)) ''/evidence'' @
     duplicateIssues (map cl_claim_id (cs_claims s)) ''/claims'' @
     duplicateIssues (map dg_diagnostic_id (cs_diagnostics s)) ''/diagnostics'' @
     duplicateIssues (map er_review_id (cs_editorial_reviews s)) ''/editorial_reviews'' @
     duplicateIssues (map ee_eligibility_id (cs_export_eligibility s)) ''/export_eligibility''"

definition routeKeyCounts :: "contract_snapshot \<Rightarrow> (string, nat) jmap" where
  "routeKeyCounts s = foldl (\<lambda>counts e.
     let k = ei_route_key (ep_identity e) in map_set k (map_get_or 0 counts k + 1) counts) [] (cs_endpoints s)"

definition routeIssues :: "contract_snapshot \<Rightarrow> validation_issue list" where
  "routeIssues s =
     (if list_ex (\<lambda>count. count > 1) (map_values (routeKeyCounts s))
      then [issue ''/endpoints'' ''semantic.route_identity_collision'' ''multiple endpoints have the same route identity'']
      else [])"

definition sourceIssues :: "contract_snapshot \<Rightarrow> validation_issue list" where
  "sourceIssues s =
     (if sr_repository_id (cs_source s) \<noteq> sv_repository_id (cs_service s)
      then [issue ''/source/repository_id'' ''semantic.cross_repository_reference''
              ''source repository differs from service repository''] else [])"

definition evidenceIssues :: "contract_snapshot \<Rightarrow> nat \<Rightarrow> evidence \<Rightarrow> validation_issue list" where
  "evidenceIssues s index e =
     (let path = at ''/evidence'' index; scope = ev_scope e in
      (if es_service_id scope \<noteq> sv_service_id (cs_service s)
       then [issue (path @ ''/scope/service_id'') ''semantic.cross_service_reference'' ''evidence belongs to another service''] else []) @
      (case es_snapshot_id scope of None \<Rightarrow> []
       | Some i \<Rightarrow> (if i \<noteq> cs_snapshot_id s
           then [issue (path @ ''/scope/snapshot_id'') ''semantic.dangling_reference'' ''evidence references another snapshot''] else [])) @
      (case es_endpoint_id scope of None \<Rightarrow> []
       | Some i \<Rightarrow> (if i \<notin> set (endpointIds s)
           then [issue (path @ ''/scope/endpoint_id'') ''semantic.dangling_reference'' ''unknown endpoint reference''] else [])))"

text \<open>The route identity of an endpoint, derived again.\<close>

definition identityInput :: "endpoint \<Rightarrow> identity_input" where
  "identityInput e =
     \<lparr>ii_identity_version = ei_identity_version (ep_identity e), ii_service_id = ei_service_id (ep_identity e),
      ii_method = ei_method (ep_identity e), ii_application_path = ep_application_path e,
      ii_selectors = Some (ei_selectors (ep_identity e))\<rparr>"

definition identityMatches :: "platform \<Rightarrow> endpoint_identity \<Rightarrow> endpoint_identity \<Rightarrow> bool" where
  "identityMatches pf expected actual =
     (ei_route_key expected = ei_route_key actual \<and>
      ei_normalized_path_shape expected = ei_normalized_path_shape actual \<and>
      localeCanonicalJson (pf_locale pf) (selectors_json (ei_selectors expected)) =
      localeCanonicalJson (pf_locale pf) (selectors_json (ei_selectors actual)))"

definition identityIssues :: "platform \<Rightarrow> contract_snapshot \<Rightarrow> nat \<Rightarrow> endpoint \<Rightarrow> validation_issue list" where
  "identityIssues pf s index e =
     (let path = at ''/endpoints'' index in
      (if ei_service_id (ep_identity e) \<noteq> sv_service_id (cs_service s)
       then [issue (path @ ''/identity/service_id'') ''semantic.cross_service_reference'' ''endpoint belongs to another service''] else []) @
      (case deriveEndpointIdentity pf (identityInput e) of
         Inl _ \<Rightarrow> [issue (path @ ''/application_path'') ''semantic.invalid_path_syntax''
                    ''application path contains malformed or unsupported placeholder syntax'']
       | Inr expected \<Rightarrow>
           (if \<not> identityMatches pf expected (ep_identity e)
            then [issue (path @ ''/identity'') ''semantic.identity_mismatch''
                    ''route identity does not match method, path, and selectors''] else [])))"

text \<open>The requirements of one alternative, with the set of schemes already named.\<close>

fun requirementIssues :: "string list \<Rightarrow> string \<Rightarrow> nat \<Rightarrow> string list \<Rightarrow> requirement list \<Rightarrow> validation_issue list" where
  "requirementIssues schemeIds prefix index names [] = []"
| "requirementIssues schemeIds prefix index names (r # rs) =
     (let path = at (prefix @ ''/requirements'') index @ ''/scheme'' in
      (if rq_scheme r \<notin> set schemeIds
       then [issue path ''semantic.dangling_reference'' ''security scheme definition is absent'']
       else if rq_scopes r \<noteq> []
       then [issue (path @ ''/scopes'') ''semantic.invalid_security_scopes''
               ''apiKey and HTTP security requirements cannot declare scopes'']
       else []) @
      (if rq_scheme r \<in> set names
       then [issue path ''semantic.duplicate_id'' ''security requirement repeats a scheme''] else []) @
      requirementIssues schemeIds prefix (Suc index) (set_add (rq_scheme r) names) rs)"

definition securityStateIssues :: "contract_snapshot \<Rightarrow> nat \<Rightarrow> security \<Rightarrow> validation_issue list" where
  "securityStateIssues s index security =
     (let path = at ''/endpoints'' index @ ''/security'' in
      case sc_state security of None \<Rightarrow> []
      | Some state \<Rightarrow>
          (if (state = SecDeclared) \<noteq> (sc_alternatives security \<noteq> [])
           then [issue (path @ ''/state'') ''semantic.security_state_mismatch'' ''explicit security state and requirements disagree''] else []) @
          (if state \<noteq> SecUnknown \<and> or_empty (sc_evidence_ids security) = []
           then [issue (path @ ''/evidence_ids'') ''semantic.missing_evidence'' ''explicit security requires evidence''] else []) @
          (if state = SecDeclared
           then collect_indexed (\<lambda>alternativeIndex alternative.
                  requirementIssues (map fst (securitySchemes s)) (at (path @ ''/alternatives'') alternativeIndex) 0 [] alternative)
                (sc_alternatives security)
           else []))"

definition find_evidence :: "contract_snapshot \<Rightarrow> string \<Rightarrow> evidence option" where
  "find_evidence s wanted = list_find (\<lambda>candidate. ev_evidence_id candidate = wanted) (cs_evidence s)"

definition securityEvidenceIssues :: "contract_snapshot \<Rightarrow> nat \<Rightarrow> endpoint \<Rightarrow> validation_issue list" where
  "securityEvidenceIssues s index e =
     collect_indexed (\<lambda>evidenceIndex i.
       let path = at (at ''/endpoints'' index @ ''/security/evidence_ids'') evidenceIndex in
       case find_evidence s i of
         None \<Rightarrow> [issue path ''semantic.dangling_reference'' ''unknown security evidence'']
       | Some found \<Rightarrow>
           (if es_service_id (ev_scope found) \<noteq> sv_service_id (cs_service s)
              \<or> es_snapshot_id (ev_scope found) \<noteq> Some (cs_snapshot_id s)
              \<or> es_endpoint_id (ev_scope found) \<noteq> None \<and> es_endpoint_id (ev_scope found) \<noteq> Some (ep_endpoint_id e)
            then [issue path ''semantic.scope_mismatch'' ''security evidence does not cover the endpoint''] else []))
     (or_empty (sc_evidence_ids (ep_security e)))"

text \<open>\<open>String(value)\<close> on the values the \<open>type\<close> keyword may have.\<close>

definition js_string :: "json option \<Rightarrow> string" where
  "js_string v =
     (case v of None \<Rightarrow> ''undefined''
      | Some (JStr s) \<Rightarrow> s
      | Some (JArr vs) \<Rightarrow> join_with '','' (map (\<lambda>x. case x of JStr s \<Rightarrow> s | JNull \<Rightarrow> '''' | _ \<Rightarrow> json_text x) vs)
      | Some j \<Rightarrow> json_text j)"

definition type_char :: "char \<Rightarrow> bool" where
  "type_char c = (is_upper c \<or> is_lower c \<or> is_digit c \<or> c \<in> set ''!#$&^_.+-'')"

text \<open>\<open>/^[A-Za-z0-9!#$&^_.+-]+\/[A-Za-z0-9!#$&^_.+*-]+$/\<close>.\<close>

definition part_content_type :: "string \<Rightarrow> bool" where
  "part_content_type s =
     (case dropWhile type_char s of
        c # rest \<Rightarrow> c = CHR ''/'' \<and> takeWhile type_char s \<noteq> [] \<and> rest \<noteq> [] \<and> list_all (\<lambda>c. type_char c \<or> c = CHR ''*'') rest
      | [] \<Rightarrow> False)"

definition encodingIssues :: "string list \<Rightarrow> string \<Rightarrow> request_body \<Rightarrow> string \<Rightarrow> form_encoding \<Rightarrow> validation_issue list" where
  "encodingIssues evIds prefix body name encoding =
     (let path = prefix @ ''/encoding/'' @ jsonPointerSegment name;
          property = (case jget ''properties'' (rb_schema body) of Some props \<Rightarrow> jget name props | None \<Rightarrow> None);
          property_type = (case property of None \<Rightarrow> None | Some p \<Rightarrow> jget ''type'' p);
          styleMode = (fe_style encoding \<noteq> None \<or> fe_explode encoding \<noteq> None);
          bad = (\<lambda>message. [issue path ''semantic.invalid_form_encoding'' message])
      in evidenceReference (fe_evidence_ids encoding) evIds (path @ ''/evidence_ids'') @
         (if rb_media_type body \<notin> {''application/x-www-form-urlencoded'', ''multipart/form-data''}
            \<or> jget ''type'' (rb_schema body) \<noteq> Some (JStr ''object'') \<or> property = None
          then bad ''encoding requires a direct form object property'' else []) @
         (if (if styleMode then fe_style encoding = None \<or> fe_explode encoding = None \<or> fe_content_type encoding \<noteq> None
              else fe_content_type encoding = None)
          then bad ''encoding requires either style/explode or content type'' else []) @
         (if fe_style encoding = Some StyleSpaceDelimited \<or> fe_style encoding = Some StylePipeDelimited then
            (if fe_explode encoding \<noteq> Some False \<or> property_type \<noteq> Some (JStr ''array'')
             then bad ''delimited form encoding requires a non-exploded array'' else [])
          else []) @
         (if styleMode \<and> property_type \<noteq> Some (JStr ''array'') \<and>
            js_string property_type \<notin> {''string'', ''integer'', ''number'', ''boolean''}
          then bad ''unsupported form property type'' else []) @
         (case fe_content_type encoding of None \<Rightarrow> []
          | Some t \<Rightarrow> (if \<not> part_content_type t then bad ''unsupported part content type'' else [])))"

definition requestBodyIssues :: "contract_snapshot \<Rightarrow> nat \<Rightarrow> nat \<Rightarrow> request_body \<Rightarrow> validation_issue list" where
  "requestBodyIssues s index bodyIndex body =
     (let prefix = at (at ''/endpoints'' index @ ''/request_bodies'') bodyIndex in
      (if cs_ir_version s = ''1.0.0'' \<and> rb_encoding body \<noteq> None
       then [issue (prefix @ ''/encoding'') ''semantic.unsupported_version_field'' ''form encoding requires IR 1.1.0''] else []) @
      concat_map (\<lambda>(name, encoding). encodingIssues (evidenceIds s) prefix body name encoding) (or_empty (rb_encoding body)) @
      evidenceReference (pr_evidence_ids (rb_presence body)) (evidenceIds s) (prefix @ ''/presence/evidence_ids''))"

definition endpointIssues :: "platform \<Rightarrow> contract_snapshot \<Rightarrow> nat \<Rightarrow> endpoint \<Rightarrow> validation_issue list" where
  "endpointIssues pf s index e =
     (let path = at ''/endpoints'' index in
      identityIssues pf s index e @
      securityStateIssues s index (ep_security e) @
      securityEvidenceIssues s index e @
      evidenceReference (ep_evidence_ids e) (evidenceIds s) (path @ ''/evidence_ids'') @
      collect_indexed (\<lambda>parameterIndex parameter.
        evidenceReference (pr_evidence_ids (pm_presence parameter)) (evidenceIds s)
          (at (path @ ''/parameters'') parameterIndex @ ''/presence/evidence_ids'')) (ep_parameters e) @
      collect_indexed (requestBodyIssues s index) (ep_request_bodies e))"

definition key_char :: "char \<Rightarrow> bool" where
  "key_char c = (is_upper c \<or> is_lower c \<or> is_digit c \<or> c \<in> set ''._-'')"

definition securitySchemeIssues :: "contract_snapshot \<Rightarrow> string \<Rightarrow> security_scheme_fact \<Rightarrow> validation_issue list" where
  "securitySchemeIssues s name definition_fact =
     (let path = ''/security_schemes/'' @ name in
      (case sf_definition definition_fact of
         HttpScheme scheme (Some bearer) \<Rightarrow>
           (if toLowerCase scheme \<noteq> ''bearer''
            then [issue (path @ ''/definition/bearerFormat'') ''semantic.invalid_bearer_format''
                    ''bearerFormat only applies to HTTP bearer schemes''] else [])
       | _ \<Rightarrow> []) @
      (if name = '''' \<or> \<not> list_all key_char name
       then [issue path ''semantic.invalid_component_key'' ''security scheme name cannot be used as an OpenAPI component key''] else []) @
      collect_indexed (\<lambda>index i.
        let p = at (path @ ''/evidence_ids'') index in
        case find_evidence s i of
          None \<Rightarrow> [issue p ''semantic.dangling_reference'' ''unknown security scheme evidence'']
        | Some found \<Rightarrow>
            (if es_service_id (ev_scope found) \<noteq> sv_service_id (cs_service s)
               \<or> es_snapshot_id (ev_scope found) \<noteq> Some (cs_snapshot_id s) \<or> es_endpoint_id (ev_scope found) \<noteq> None
             then [issue p ''semantic.scope_mismatch'' ''security scheme evidence must cover the service''] else []))
        (sf_evidence_ids definition_fact))"

definition schemaIssues :: "contract_snapshot \<Rightarrow> string \<Rightarrow> schema_component \<Rightarrow> validation_issue list" where
  "schemaIssues s key component =
     (let path = ''/schemas/'' @ key in
      (if key \<noteq> sm_schema_id component
       then [issue (path @ ''/schema_id'') ''semantic.identity_mismatch'' ''schema key and ID differ''] else []) @
      evidenceReference (sm_evidence_ids component) (evidenceIds s) (path @ ''/evidence_ids''))"

definition claimIssues :: "contract_snapshot \<Rightarrow> nat \<Rightarrow> claim \<Rightarrow> validation_issue list" where
  "claimIssues s index c =
     (let path = at ''/claims'' index in
      (if cj_service_id (cl_subject c) \<noteq> sv_service_id (cs_service s)
       then [issue (path @ ''/subject/service_id'') ''semantic.cross_service_reference'' ''claim belongs to another service''] else []) @
      (case cj_endpoint_id (cl_subject c) of None \<Rightarrow> []
       | Some e \<Rightarrow> (if e \<notin> set (endpointIds s)
           then [issue (path @ ''/subject/endpoint_id'') ''semantic.dangling_reference'' ''unknown endpoint reference''] else [])) @
      evidenceReference (cl_evidence_ids c) (evidenceIds s) (path @ ''/evidence_ids''))"

definition reviewIssues :: "contract_snapshot \<Rightarrow> nat \<Rightarrow> editorial_review \<Rightarrow> validation_issue list" where
  "reviewIssues s index review =
     (if er_claim_id review \<notin> set (claimIds s)
      then [issue (at ''/editorial_reviews'' index @ ''/claim_id'') ''semantic.dangling_reference'' ''unknown claim reference''] else [])"

fun qualifyingMethodByBasis :: "basis_kind \<Rightarrow> evidence_method" where
  "qualifyingMethodByBasis BasisRuntimeValidator = RuntimeValidator"
| "qualifyingMethodByBasis BasisDeterministicAnalysis = DeterministicAnalysis"
| "qualifyingMethodByBasis BasisBehavioralVerification = BehavioralVerification"

definition qualifyingMethods :: "evidence_method list" where
  "qualifyingMethods = map qualifyingMethodByBasis [BasisRuntimeValidator, BasisDeterministicAnalysis, BasisBehavioralVerification]"

definition contradicts :: "platform \<Rightarrow> claim \<Rightarrow> claim \<Rightarrow> bool" where
  "contradicts pf c candidate =
     (cl_claim_id candidate \<noteq> cl_claim_id c \<and> cl_predicate candidate = cl_predicate c \<and>
      cj_service_id (cl_subject candidate) = cj_service_id (cl_subject c) \<and>
      cj_endpoint_id (cl_subject candidate) = cj_endpoint_id (cl_subject c) \<and>
      cj_schema_pointer (cl_subject candidate) = cj_schema_pointer (cl_subject c) \<and>
      conditionKey (pf_locale pf) (cl_condition candidate) = conditionKey (pf_locale pf) (cl_condition c) \<and>
      localeCanonicalJson (pf_locale pf) (cl_value candidate) \<noteq> localeCanonicalJson (pf_locale pf) (cl_value c))"

definition basisIssues ::
  "contract_snapshot \<Rightarrow> claim option \<Rightarrow> export_eligibility \<Rightarrow> basis_kind \<Rightarrow> string \<Rightarrow> string \<Rightarrow> validation_issue list" where
  "basisIssues s claim el kind path i =
     (case map_get (keyed ev_evidence_id (cs_evidence s)) i of
        None \<Rightarrow> [issue path ''semantic.dangling_reference'' ''unknown evidence reference'']
      | Some e \<Rightarrow>
          (case claim of None \<Rightarrow> []
           | Some c \<Rightarrow> (if i \<notin> set (cl_evidence_ids c)
               then [issue path ''semantic.unrelated_evidence'' ''eligibility evidence is not attached to the claim''] else [])) @
          (if ev_method e \<notin> set qualifyingMethods
           then [issue path ''semantic.ineligible_evidence'' ''evidence method cannot establish normative eligibility''] else []) @
          (if ev_method e \<noteq> qualifyingMethodByBasis kind
           then [issue path ''semantic.basis_mismatch'' ''eligibility basis does not match the evidence method''] else []) @
          (let subject_endpoint = (case claim of None \<Rightarrow> None | Some c \<Rightarrow> cj_endpoint_id (cl_subject c)) in
           if es_snapshot_id (ev_scope e) \<noteq> Some (cs_snapshot_id s)
             \<or> es_service_id (ev_scope e) \<noteq> ee_scope_service_id el
             \<or> (subject_endpoint \<noteq> None \<and> es_endpoint_id (ev_scope e) \<noteq> subject_endpoint)
             \<or> (subject_endpoint = None \<and> es_endpoint_id (ev_scope e) \<noteq> None)
           then [issue path ''semantic.scope_mismatch'' ''eligibility evidence does not cover the claim scope''] else []))"

definition eligibleIssues ::
  "platform \<Rightarrow> contract_snapshot \<Rightarrow> string \<Rightarrow> export_eligibility \<Rightarrow> basis_kind \<Rightarrow> string list \<Rightarrow> validation_issue list" where
  "eligibleIssues pf s path el kind ids =
     (let claim = map_get (keyed cl_claim_id (cs_claims s)) (ee_claim_id el) in
      (case claim of None \<Rightarrow> []
       | Some c \<Rightarrow>
           (case cj_endpoint_id (cl_subject c) of None \<Rightarrow> []
            | Some e \<Rightarrow> (if e \<notin> set (ee_scope_endpoint_ids el)
                then [issue (path @ ''/scope/endpoint_ids'') ''semantic.scope_mismatch'' ''eligibility scope excludes the claim subject'']
                else [])) @
           (if list_find (contradicts pf c) (cs_claims s) \<noteq> None
            then [issue (path @ ''/claim_id'') ''semantic.conflicting_claims'' ''eligible claim has an unresolved contradiction''] else [])) @
      collect_indexed (\<lambda>evidenceIndex i. basisIssues s claim el kind (at (path @ ''/basis/evidence_ids'') evidenceIndex) i) ids)"

definition eligibilityIssues :: "platform \<Rightarrow> contract_snapshot \<Rightarrow> nat \<Rightarrow> export_eligibility \<Rightarrow> validation_issue list" where
  "eligibilityIssues pf s index el =
     (let path = at ''/export_eligibility'' index in
      (if ee_claim_id el \<notin> set (claimIds s)
       then [issue (path @ ''/claim_id'') ''semantic.dangling_reference'' ''unknown claim reference''] else []) @
      (if ee_scope_service_id el \<noteq> sv_service_id (cs_service s)
       then [issue (path @ ''/scope/service_id'') ''semantic.cross_service_reference'' ''eligibility belongs to another service''] else []) @
      (if ee_scope_snapshot_id el \<noteq> cs_snapshot_id s
       then [issue (path @ ''/scope/snapshot_id'') ''semantic.dangling_reference'' ''eligibility references another snapshot''] else []) @
      collect_indexed (\<lambda>endpointIndex i. if i \<notin> set (endpointIds s)
        then [issue (at (path @ ''/scope/endpoint_ids'') endpointIndex) ''semantic.dangling_reference'' ''unknown endpoint reference'']
        else []) (ee_scope_endpoint_ids el) @
      (case ee_status el of
         Eligible kind ids \<Rightarrow> eligibleIssues pf s path el kind ids
       | Ineligible _ \<Rightarrow> []))"

definition dependencyTargetExists :: "contract_snapshot \<Rightarrow> dependency \<Rightarrow> bool" where
  "dependencyTargetExists s d =
     (case dp_to_kind d of
        DepEndpoint \<Rightarrow> dp_to_id d \<in> set (endpointIds s)
      | DepSchema \<Rightarrow> dp_to_id d \<in> set (schemaIds s)
      | DepEvidence \<Rightarrow> dp_to_id d \<in> set (evidenceIds s))"

definition dependencyIssues :: "contract_snapshot \<Rightarrow> nat \<Rightarrow> dependency \<Rightarrow> validation_issue list" where
  "dependencyIssues s index d =
     (let path = at ''/dependencies'' index in
      (if dp_from_endpoint_id d \<notin> set (endpointIds s)
       then [issue (path @ ''/from_endpoint_id'') ''semantic.dangling_reference'' ''unknown endpoint reference''] else []) @
      (if \<not> dependencyTargetExists s d
       then [issue (path @ ''/to/id'') ''semantic.dangling_reference'' ''unknown dependency target''] else []) @
      evidenceReference (dp_evidence_ids d) (evidenceIds s) (path @ ''/evidence_ids''))"

definition diagnosticIssues :: "contract_snapshot \<Rightarrow> nat \<Rightarrow> diagnostic \<Rightarrow> validation_issue list" where
  "diagnosticIssues s index d =
     (let path = at ''/diagnostics'' index in
      collect_indexed (\<lambda>endpointIndex i. if i \<notin> set (endpointIds s)
        then [issue (at (path @ ''/affected_endpoint_ids'') endpointIndex) ''semantic.dangling_reference'' ''unknown endpoint reference'']
        else []) (dg_affected_endpoint_ids d) @
      evidenceReference (dg_evidence_ids d) (evidenceIds s) (path @ ''/evidence_ids''))"

definition coverageIssues :: "contract_snapshot \<Rightarrow> validation_issue list" where
  "coverageIssues s =
     collect_indexed (\<lambda>index i. if i \<notin> set (diagnosticIds s)
       then [issue (at ''/coverage/diagnostic_ids'' index) ''semantic.dangling_reference'' ''unknown diagnostic reference'']
       else []) (cv_diagnostic_ids (cs_coverage s)) @
     (if coverage_incomplete (cs_coverage s) \<and> cv_diagnostic_ids (cs_coverage s) = []
      then [issue ''/coverage/diagnostic_ids'' ''semantic.incomplete_coverage_without_diagnostic''
              ''incomplete coverage must identify affected diagnostics''] else [])"

definition referenceIssues :: "contract_snapshot \<Rightarrow> validation_issue list" where
  "referenceIssues s =
     concat_map (\<lambda>(ref, path).
       if starts_with ref ''#/schemas/'' \<and> drop (length ''#/schemas/'') ref \<notin> set (schemaIds s)
       then [issue path ''semantic.dangling_reference'' ''unknown schema reference'']
       else if \<not> starts_with ref ''#/schemas/''
       then [issue path ''semantic.invalid_api_schema'' ''only local component references are supported'']
       else [])
     (concat_map (\<lambda>(path, schema). collectSchemaRefs schema path) (snapshotSchemaRoots s))"

text \<open>Every issue pushed before the embedded schema graph is looked at.\<close>

definition structuralIssues :: "platform \<Rightarrow> contract_snapshot \<Rightarrow> validation_issue list" where
  "structuralIssues pf s =
     idIssues s @ routeIssues s @ sourceIssues s @
     collect_indexed (evidenceIssues s) (cs_evidence s) @
     collect_indexed (endpointIssues pf s) (cs_endpoints s) @
     concat_map (\<lambda>(name, definition_fact). securitySchemeIssues s name definition_fact) (securitySchemes s) @
     concat_map (\<lambda>(key, component). schemaIssues s key component) (cs_schemas s) @
     collect_indexed (claimIssues s) (cs_claims s) @
     collect_indexed (reviewIssues s) (cs_editorial_reviews s) @
     collect_indexed (eligibilityIssues pf s) (cs_export_eligibility s) @
     collect_indexed (dependencyIssues s) (cs_dependencies s) @
     collect_indexed (diagnosticIssues s) (cs_diagnostics s) @
     coverageIssues s @
     referenceIssues s"

definition validateContractSnapshotSemantics :: "platform \<Rightarrow> contract_snapshot \<Rightarrow> validation_issue list" where
  "validateContractSnapshotSemantics pf s =
     (let issues = structuralIssues pf s in
      if \<not> list_ex (\<lambda>item. vi_code item = ''semantic.invalid_api_schema'' \<or> vi_code item = ''semantic.dangling_reference'') issues
      then issues @ embeddedSchemaIssues pf s else issues)"

section \<open>Well-formed snapshots\<close>

text \<open>What every later stage relies on: identifiers are unique and references resolve.\<close>

definition closed_snapshot :: "contract_snapshot \<Rightarrow> bool" where
  "closed_snapshot s =
     (distinct (map ep_endpoint_id (cs_endpoints s)) \<and>
      distinct (map (\<lambda>e. ei_route_key (ep_identity e)) (cs_endpoints s)) \<and>
      distinct (map ev_evidence_id (cs_evidence s)) \<and>
      distinct (map cl_claim_id (cs_claims s)) \<and>
      distinct (map dg_diagnostic_id (cs_diagnostics s)) \<and>
      (\<forall>(key, c) \<in> set (cs_schemas s). key = sm_schema_id c \<and> set (sm_evidence_ids c) \<subseteq> set (evidenceIds s)) \<and>
      (\<forall>e \<in> set (cs_endpoints s). set (ep_evidence_ids e) \<subseteq> set (evidenceIds s) \<and>
         (\<forall>p \<in> set (ep_parameters e). set (pr_evidence_ids (pm_presence p)) \<subseteq> set (evidenceIds s)) \<and>
         (\<forall>b \<in> set (ep_request_bodies e). set (pr_evidence_ids (rb_presence b)) \<subseteq> set (evidenceIds s))) \<and>
      (\<forall>e \<in> set (cs_evidence s). \<forall>i. es_endpoint_id (ev_scope e) = Some i \<longrightarrow> i \<in> set (endpointIds s)) \<and>
      (\<forall>c \<in> set (cs_claims s). set (cl_evidence_ids c) \<subseteq> set (evidenceIds s) \<and>
         (\<forall>i. cj_endpoint_id (cl_subject c) = Some i \<longrightarrow> i \<in> set (endpointIds s))) \<and>
      (\<forall>d \<in> set (cs_dependencies s). dp_from_endpoint_id d \<in> set (endpointIds s) \<and>
         dependencyTargetExists s d \<and> set (dp_evidence_ids d) \<subseteq> set (evidenceIds s)) \<and>
      (\<forall>d \<in> set (cs_diagnostics s). set (dg_affected_endpoint_ids d) \<subseteq> set (endpointIds s)) \<and>
      (\<forall>(path, schema) \<in> set (snapshotSchemaRoots s). \<forall>(ref, _) \<in> set (collectSchemaRefs schema path).
         \<exists>i \<in> set (schemaIds s). ref = ''#/schemas/'' @ i))"

lemma duplicates_fold:
  "(\<exists>dups'. foldl (\<lambda>(seen, dups) v. if v \<in> set seen then (seen, set_add v dups) else (set_add v seen, dups))
     (seen, dups) vs = (set_add_all vs seen, dups') \<and>
     (dups' = [] \<longleftrightarrow> dups = [] \<and> distinct vs \<and> set vs \<inter> set seen = {}))"
proof (induction vs arbitrary: seen dups)
  case Nil
  then show ?case by simp
next
  case (Cons v vs)
  show ?case
  proof (cases "v \<in> set seen")
    case True
    moreover from this have "set_add v seen = seen" by (simp add: set_add_def)
    moreover have "set_add v dups \<noteq> []" by (auto simp: set_add_def)
    ultimately show ?thesis using Cons.IH [of seen "set_add v dups"] by auto
  next
    case False
    then show ?thesis using Cons.IH [of "set_add v seen" dups] by auto
  qed
qed

lemma duplicates_Nil_iff: "duplicates vs = [] \<longleftrightarrow> distinct vs"
  using duplicates_fold [of "[]" "[]" vs] by (auto simp: duplicates_def)

lemma duplicateIssues_Nil_iff: "duplicateIssues vs path = [] \<longleftrightarrow> distinct vs"
  by (simp add: duplicateIssues_def duplicates_Nil_iff)

lemma evidenceReference_Nil_iff: "evidenceReference ids known path = [] \<longleftrightarrow> set ids \<subseteq> set known"
  by (auto simp: evidenceReference_def collect_from_Nil_iff set_conv_nth subset_iff)

lemma routeKeyCounts_get:
  "map_get_or 0 (routeKeyCounts s) k = count_list (map (\<lambda>e. ei_route_key (ep_identity e)) (cs_endpoints s)) k"
proof -
  have "map_get_or 0 (foldl (\<lambda>counts e. let k = ei_route_key (ep_identity e) in
          map_set k (map_get_or 0 counts k + 1) counts) m es) k =
        map_get_or 0 m k + count_list (map (\<lambda>e. ei_route_key (ep_identity e)) es) k"
    for m :: "(string, nat) jmap" and es
    by (induction es arbitrary: m) (auto simp: map_get_or_def Let_def split: option.splits)
  from this [of "[]"] show ?thesis by (simp add: routeKeyCounts_def map_get_or_def)
qed

lemma distinct_routeKeyCounts: "distinct (map_keys (routeKeyCounts s))"
proof -
  have "distinct (map_keys m) \<Longrightarrow> distinct (map_keys (foldl (\<lambda>counts e. let k = ei_route_key (ep_identity e) in
          map_set k (map_get_or 0 counts k + 1) counts) m es))"
    for m :: "(string, nat) jmap" and es
    by (induction es arbitrary: m) (auto simp: Let_def)
  from this [of "[]"] show ?thesis by (simp add: routeKeyCounts_def)
qed

lemma distinct_count_le_1: "(\<And>x. count_list xs x \<le> 1) \<Longrightarrow> distinct xs"
proof (induction xs)
  case (Cons y ys)
  have "count_list ys x \<le> 1" for x using Cons.prems [of x] by (simp split: if_splits)
  then have "distinct ys" by (rule Cons.IH)
  moreover have "y \<notin> set ys" using Cons.prems [of y] by (simp add: count_list_0_iff)
  ultimately show ?case by simp
qed simp

lemma routeIssues_distinct:
  assumes "routeIssues s = []"
  shows "distinct (map (\<lambda>e. ei_route_key (ep_identity e)) (cs_endpoints s))"
proof -
  have "map_get_or 0 (routeKeyCounts s) k \<le> 1" for k
  proof (cases "map_of (routeKeyCounts s) k")
    case (Some n)
    then have "(k, n) \<in> set (routeKeyCounts s)" by (rule map_of_SomeD)
    then have "n \<in> set (map_values (routeKeyCounts s))" by force
    with assms have "n \<le> 1" by (force simp: routeIssues_def list_ex_iff split: if_splits)
    with Some show ?thesis by (simp add: map_get_or_def)
  qed (simp add: map_get_or_def)
  then show ?thesis by (intro distinct_count_le_1) (simp only: routeKeyCounts_get)
qed

lemma structural_parts:
  assumes "validateContractSnapshotSemantics pf s = []"
  shows "structuralIssues pf s = []" "embeddedSchemaIssues pf s = []"
  using assms by (auto simp: validateContractSnapshotSemantics_def Let_def split: if_splits)

lemma collect_from_mem_Nil: "collect_from i f xs = [] \<Longrightarrow> x \<in> set xs \<Longrightarrow> \<exists>j. f j x = []"
  by (metis collect_from_Nil_iff in_set_conv_nth)

lemma concat_map_Nil_iff: "concat_map f xs = [] \<longleftrightarrow> (\<forall>x \<in> set xs. f x = [])"
  by (simp add: concat_map_def)

lemma structural_conjuncts:
  assumes "structuralIssues pf s = []"
  shows "idIssues s = []" "routeIssues s = []" "sourceIssues s = []"
    "collect_indexed (evidenceIssues s) (cs_evidence s) = []"
    "collect_indexed (endpointIssues pf s) (cs_endpoints s) = []"
    "concat_map (\<lambda>(key, component). schemaIssues s key component) (cs_schemas s) = []"
    "collect_indexed (claimIssues s) (cs_claims s) = []"
    "collect_indexed (eligibilityIssues pf s) (cs_export_eligibility s) = []"
    "collect_indexed (dependencyIssues s) (cs_dependencies s) = []"
    "collect_indexed (diagnosticIssues s) (cs_diagnostics s) = []"
    "coverageIssues s = []" "referenceIssues s = []"
  using assms by (simp_all add: structuralIssues_def)

lemma if_Nil_iff: "(if b then [x] else []) = [] \<longleftrightarrow> \<not> b"
  by simp

lemma endpoint_closed:
  assumes "structuralIssues pf s = []" "e \<in> set (cs_endpoints s)"
  shows "set (ep_evidence_ids e) \<subseteq> set (evidenceIds s)"
    "p \<in> set (ep_parameters e) \<Longrightarrow> set (pr_evidence_ids (pm_presence p)) \<subseteq> set (evidenceIds s)"
    "b \<in> set (ep_request_bodies e) \<Longrightarrow> set (pr_evidence_ids (rb_presence b)) \<subseteq> set (evidenceIds s)"
    "\<exists>identity. deriveEndpointIdentity pf (identityInput e) = Inr identity \<and> identityMatches pf identity (ep_identity e)"
    "ei_service_id (ep_identity e) = sv_service_id (cs_service s)"
proof -
  obtain j where j: "endpointIssues pf s j e = []"
    using collect_from_mem_Nil [OF structural_conjuncts(5) [OF assms(1)] assms(2)] by blast
  show "set (ep_evidence_ids e) \<subseteq> set (evidenceIds s)"
    using j by (simp add: endpointIssues_def Let_def evidenceReference_Nil_iff)
  show "set (pr_evidence_ids (pm_presence p)) \<subseteq> set (evidenceIds s)" if "p \<in> set (ep_parameters e)"
    using j collect_from_mem_Nil [OF _ that]
    by (fastforce simp: endpointIssues_def Let_def evidenceReference_Nil_iff)
  show "set (pr_evidence_ids (rb_presence b)) \<subseteq> set (evidenceIds s)" if "b \<in> set (ep_request_bodies e)"
  proof -
    have "collect_indexed (requestBodyIssues s j) (ep_request_bodies e) = []"
      using j by (simp add: endpointIssues_def Let_def)
    from collect_from_mem_Nil [OF this that] show ?thesis
      by (auto simp: requestBodyIssues_def Let_def evidenceReference_Nil_iff)
  qed
  have "identityIssues pf s j e = []" using j by (simp add: endpointIssues_def Let_def)
  then show "\<exists>identity. deriveEndpointIdentity pf (identityInput e) = Inr identity \<and> identityMatches pf identity (ep_identity e)"
    "ei_service_id (ep_identity e) = sv_service_id (cs_service s)"
    by (auto simp: identityIssues_def Let_def split: sum.splits if_splits)
qed

lemma references_resolve:
  assumes "referenceIssues s = []" "(path, schema) \<in> set (snapshotSchemaRoots s)"
    "(ref, p) \<in> set (collectSchemaRefs schema path)"
  shows "\<exists>i \<in> set (schemaIds s). ref = ''#/schemas/'' @ i"
proof -
  have "(ref, p) \<in> set (concat_map (\<lambda>(path, schema). collectSchemaRefs schema path) (snapshotSchemaRoots s))"
    using assms(2,3) by auto
  from bspec [OF assms(1) [unfolded referenceIssues_def concat_map_Nil_iff] this]
  have ref: "starts_with ref ''#/schemas/''" "drop (length ''#/schemas/'') ref \<in> set (schemaIds s)"
    by (simp_all split: if_splits)
  then obtain t where "ref = ''#/schemas/'' @ t" by (auto simp only: starts_with_iff)
  with ref(2) show ?thesis by auto
qed

lemma claim_closed:
  assumes "structuralIssues pf s = []" "c \<in> set (cs_claims s)"
  shows "set (cl_evidence_ids c) \<subseteq> set (evidenceIds s)"
    and "cj_endpoint_id (cl_subject c) = Some i \<Longrightarrow> i \<in> set (endpointIds s)"
  using collect_from_mem_Nil [OF structural_conjuncts(7) [OF assms(1)] assms(2)]
  by (auto simp: claimIssues_def Let_def evidenceReference_Nil_iff split: if_splits)

lemma dependency_closed:
  assumes "structuralIssues pf s = []" "d \<in> set (cs_dependencies s)"
  shows "dp_from_endpoint_id d \<in> set (endpointIds s)" "dependencyTargetExists s d"
    "set (dp_evidence_ids d) \<subseteq> set (evidenceIds s)"
  using collect_from_mem_Nil [OF structural_conjuncts(9) [OF assms(1)] assms(2)]
  by (auto simp: dependencyIssues_def Let_def evidenceReference_Nil_iff split: if_splits)

lemma evidence_closed:
  assumes "structuralIssues pf s = []" "e \<in> set (cs_evidence s)" "es_endpoint_id (ev_scope e) = Some i"
  shows "i \<in> set (endpointIds s)"
  using collect_from_mem_Nil [OF structural_conjuncts(4) [OF assms(1)] assms(2)] assms(3)
  by (auto simp: evidenceIssues_def Let_def split: if_splits)

lemma diagnostic_closed:
  assumes "structuralIssues pf s = []" "d \<in> set (cs_diagnostics s)"
  shows "set (dg_affected_endpoint_ids d) \<subseteq> set (endpointIds s)"
proof -
  obtain j where "diagnosticIssues s j d = []"
    using collect_from_mem_Nil [OF structural_conjuncts(10) [OF assms(1)] assms(2)] by blast
  then have "collect_indexed (\<lambda>endpointIndex i. if i \<notin> set (endpointIds s)
      then [issue (at (at ''/diagnostics'' j @ ''/affected_endpoint_ids'') endpointIndex)
        ''semantic.dangling_reference'' ''unknown endpoint reference'']
      else []) (dg_affected_endpoint_ids d) = []"
    by (simp add: diagnosticIssues_def Let_def)
  then show ?thesis
    by (auto dest: collect_from_mem_Nil split: if_splits)
qed

lemma schema_closed:
  assumes "structuralIssues pf s = []" "(key, c) \<in> set (cs_schemas s)"
  shows "key = sm_schema_id c" "set (sm_evidence_ids c) \<subseteq> set (evidenceIds s)"
proof -
  have "schemaIssues s key c = []"
    using bspec [OF structural_conjuncts(6) [OF assms(1), unfolded concat_map_Nil_iff] assms(2)] by simp
  then show "key = sm_schema_id c" "set (sm_evidence_ids c) \<subseteq> set (evidenceIds s)"
    by (simp_all add: schemaIssues_def Let_def evidenceReference_Nil_iff split: if_splits)
qed

lemma ids_distinct:
  assumes "structuralIssues pf s = []"
  shows "distinct (map ep_endpoint_id (cs_endpoints s))" "distinct (map ev_evidence_id (cs_evidence s))"
    "distinct (map cl_claim_id (cs_claims s))" "distinct (map dg_diagnostic_id (cs_diagnostics s))"
    "distinct (map (\<lambda>e. ei_route_key (ep_identity e)) (cs_endpoints s))"
  using structural_conjuncts(1) [OF assms] routeIssues_distinct [OF structural_conjuncts(2) [OF assms]]
  by (simp_all add: idIssues_def duplicateIssues_Nil_iff)

lemma validated_closed:
  assumes "validateContractSnapshotSemantics pf s = []"
  shows "closed_snapshot s"
proof -
  have v: "structuralIssues pf s = []" by (rule structural_parts [OF assms])
  show ?thesis
    unfolding closed_snapshot_def
  proof (intro conjI)
    show "\<forall>(key, c) \<in> set (cs_schemas s). key = sm_schema_id c \<and> set (sm_evidence_ids c) \<subseteq> set (evidenceIds s)"
      using schema_closed [OF v] by blast
    show "\<forall>(path, schema) \<in> set (snapshotSchemaRoots s). \<forall>(ref, _) \<in> set (collectSchemaRefs schema path).
        \<exists>i \<in> set (schemaIds s). ref = ''#/schemas/'' @ i"
      using references_resolve [OF structural_conjuncts(12) [OF v]] by blast
  qed (use ids_distinct [OF v] endpoint_closed(1-3) [OF v] evidence_closed [OF v] claim_closed [OF v]
      dependency_closed [OF v] diagnostic_closed [OF v] in \<open>simp; fail\<close> | use endpoint_closed(1-3) [OF v] evidence_closed [OF v] claim_closed [OF v]
      dependency_closed [OF v] diagnostic_closed [OF v] in blast)+
qed


section \<open>A concrete snapshot\<close>

definition sample_evidence :: "string \<Rightarrow> string \<Rightarrow> evidence" where
  "sample_evidence i path =
     \<lparr>ev_evidence_id = i, ev_source_kind = ''repository'', ev_source_id = ''repo'', ev_source_version = ''1'',
      ev_location = \<lparr>lo_path = Some path, lo_symbol = None, lo_pointer = None, lo_line = None\<rparr>,
      ev_method = DeterministicAnalysis,
      ev_scope = \<lparr>es_service_id = ''svc'', es_snapshot_id = Some ''snap'', es_endpoint_id = None, es_revision = None\<rparr>,
      ev_limitations = [], ev_access_label = ''internal''\<rparr>"

definition sample_endpoint :: endpoint where
  "sample_endpoint =
     \<lparr>ep_endpoint_id = ''users'', ep_identity = sample_identity, ep_application_path = ''/users/{id}'',
      ep_parameters = [\<lparr>pm_name = ''id'', pm_in = InPath, pm_presence = Stated PRequired [''ev''],
        pm_schema = JObj [(''$ref'', JStr ''#/schemas/User'')], pm_serialization = JObj [(''style'', JStr ''simple'')]\<rparr>],
      ep_request_bodies = [],
      ep_responses = [\<lparr>rp_status = ExactStatus 200, rp_content = [], rp_headers = None\<rparr>],
      ep_security = \<lparr>sc_state = None, sc_evidence_ids = None, sc_alternatives = []\<rparr>,
      ep_evidence_ids = [''ev'']\<rparr>"

definition sample_snapshot :: contract_snapshot where
  "sample_snapshot =
     \<lparr>cs_ir_version = ''1.1.0'', cs_identity_version = ''1.0.0'', cs_snapshot_id = ''snap'',
      cs_service = \<lparr>sv_service_id = ''svc'', sv_repository_id = ''repo'', sv_root = ''.'', sv_label = None\<rparr>,
      cs_source = \<lparr>sr_repository_id = ''repo'', sr_immutable_revision = ''abcdefabcdef'', sr_source_digest = ''d''\<rparr>,
      cs_analyzer = \<lparr>an_analyzer_id = ''a'', an_analyzer_version = ''1''\<rparr>,
      cs_config_version = ''1.0.0'', cs_config_fingerprint = ''f'', cs_created_at = ''2026-01-01T00:00:00Z'',
      cs_coverage = CoverageComplete [''.''] [],
      cs_evidence = [sample_evidence ''ev'' ''src/users.ts'', sample_evidence ''sev'' ''src/schema.ts''],
      cs_schemas = [(''User'', \<lparr>sm_schema_id = ''User'', sm_schema = JObj [(''type'', JStr ''object'')], sm_evidence_ids = [''sev'']\<rparr>)],
      cs_security_schemes = None, cs_endpoints = [sample_endpoint],
      cs_claims = [\<lparr>cl_claim_id = ''c'',
        cl_subject = \<lparr>cj_service_id = ''svc'', cj_endpoint_id = Some ''users'', cj_schema_pointer = None\<rparr>,
        cl_predicate = ''request.field.presence'', cl_value = JStr ''optional'', cl_verification = Declared,
        cl_condition = None, cl_evidence_ids = [''ev'']\<rparr>],
      cs_editorial_reviews = [], cs_export_eligibility = [],
      cs_dependencies = [\<lparr>dp_from_endpoint_id = ''users'', dp_to_kind = DepSchema, dp_to_id = ''User'', dp_evidence_ids = [''ev'']\<rparr>],
      cs_diagnostics = []\<rparr>"

lemma sample_snapshot_valid: "validateContractSnapshotSemantics sample_platform sample_snapshot = []"
  by code_simp


text \<open>
  C27: In an accepted snapshot a claim is export eligible only on qualifying grounds: the claim
  exists and no other claim contradicts it, every basis evidence exists, is attached to the
  claim, was obtained by the method of the stated basis, and is scoped to this snapshot and to
  the claim's own subject.
\<close>

theorem eligible_claim_grounded:
  assumes "validateContractSnapshotSemantics pf s = []"
    and "el \<in> set (cs_export_eligibility s)" "ee_status el = Eligible kind ids"
  shows "\<exists>c \<in> set (cs_claims s). cl_claim_id c = ee_claim_id el \<and>
      (\<forall>d \<in> set (cs_claims s). \<not> contradicts pf c d) \<and>
      (\<forall>i \<in> set ids. i \<in> set (cl_evidence_ids c) \<and>
        (\<exists>e \<in> set (cs_evidence s). ev_evidence_id e = i \<and> ev_method e = qualifyingMethodByBasis kind \<and>
           es_snapshot_id (ev_scope e) = Some (cs_snapshot_id s) \<and>
           es_service_id (ev_scope e) = sv_service_id (cs_service s) \<and>
           es_endpoint_id (ev_scope e) = cj_endpoint_id (cl_subject c)))"
proof -
  obtain j where "eligibilityIssues pf s j el = []"
    using collect_from_mem_Nil [OF structural_conjuncts(8) [OF structural_parts(1) [OF assms(1)]] assms(2)] by blast
  then have el: "ee_claim_id el \<in> set (claimIds s)" "ee_scope_service_id el = sv_service_id (cs_service s)"
    "eligibleIssues pf s (at ''/export_eligibility'' j) el kind ids = []"
    using assms(3) by (auto simp: eligibilityIssues_def Let_def split: if_splits)
  obtain c where c: "map_get (keyed cl_claim_id (cs_claims s)) (ee_claim_id el) = Some c"
    using el(1) keyed_None [of cl_claim_id "cs_claims s" "ee_claim_id el"]
    by (cases "map_get (keyed cl_claim_id (cs_claims s)) (ee_claim_id el)") (auto simp: claimIds_def)
  have find: "list_find (contradicts pf c) (cs_claims s) = None"
    and basis: "collect_indexed (\<lambda>evidenceIndex i.
        basisIssues s (Some c) el kind (at (at ''/export_eligibility'' j @ ''/basis/evidence_ids'') evidenceIndex) i) ids = []"
    using el(3) c by (auto simp: eligibleIssues_def Let_def split: if_splits)
  have "i \<in> set (cl_evidence_ids c) \<and> (\<exists>e \<in> set (cs_evidence s). ev_evidence_id e = i \<and>
      ev_method e = qualifyingMethodByBasis kind \<and> es_snapshot_id (ev_scope e) = Some (cs_snapshot_id s) \<and>
      es_service_id (ev_scope e) = sv_service_id (cs_service s) \<and>
      es_endpoint_id (ev_scope e) = cj_endpoint_id (cl_subject c))" if member: "i \<in> set ids" for i
  proof -
    obtain k where k: "basisIssues s (Some c) el kind (at (at ''/export_eligibility'' j @ ''/basis/evidence_ids'') k) i = []"
      using collect_from_mem_Nil [OF basis member] by blast
    then obtain e where e: "map_get (keyed ev_evidence_id (cs_evidence s)) i = Some e"
      by (auto simp: basisIssues_def split: option.splits)
    with k el(2) keyed_get [OF e] show ?thesis
      by (cases "cj_endpoint_id (cl_subject c)") (auto simp: basisIssues_def Let_def split: if_splits)
  qed
  with find keyed_get [OF c] show ?thesis by (auto simp: list_find_None)
qed

definition sample_eligible :: contract_snapshot where
  "sample_eligible = sample_snapshot
     \<lparr>cs_claims := [\<lparr>cl_claim_id = ''c'',
        cl_subject = \<lparr>cj_service_id = ''svc'', cj_endpoint_id = None, cj_schema_pointer = None\<rparr>,
        cl_predicate = ''auth.required'', cl_value = JBool True, cl_verification = EstablishedByAnalysis,
        cl_condition = None, cl_evidence_ids = [''ev'']\<rparr>],
      cs_export_eligibility := [\<lparr>ee_eligibility_id = ''e'', ee_claim_id = ''c'', ee_scope_service_id = ''svc'',
        ee_scope_snapshot_id = ''snap'', ee_scope_endpoint_ids = [], ee_policy_version = ''1'',
        ee_evidence_fingerprint = ''f'', ee_status = Eligible BasisDeterministicAnalysis [''ev'']\<rparr>]\<rparr>"

lemma sample_eligible_valid: "validateContractSnapshotSemantics sample_platform sample_eligible = []"
  by code_simp

theorem eligible_claim_grounded_witness:
  "\<exists>c \<in> set (cs_claims sample_eligible). cl_claim_id c = ''c'' \<and>
     (\<forall>i \<in> set [''ev'']. i \<in> set (cl_evidence_ids c))"
  using eligible_claim_grounded [OF sample_eligible_valid, of "hd (cs_export_eligibility sample_eligible)"
      BasisDeterministicAnalysis "[''ev'']"]
  by (auto simp: sample_eligible_def)

end
