(* ===== verification/UpdTypes.thy ===== *)
theory UpdTypes
  imports Snapshot
begin

text \<open>
  \<open>packages/updates/src/types.ts\<close> and \<open>errors.ts\<close>: the closed vocabularies of the update
  packages and the errors that leave them. An error names only allow-listed path segments and
  issue codes, so that no document content leaks through a rejected input.
\<close>

section \<open>Vocabularies\<close>

definition UPDATE_PLAN_VERSION :: string where "UPDATE_PLAN_VERSION = ''1.0.0''"
definition CONTRACT_DIFFERENCE_VERSION :: string where "CONTRACT_DIFFERENCE_VERSION = ''1.0.0''"
definition CONTRACT_CHANGES_OUTPUT_VERSION :: string where "CONTRACT_CHANGES_OUTPUT_VERSION = ''1.0.0''"

datatype update_fallback_reason =
    FbAdapterIncrementalTargetsUnsupported
  | FbPriorCoverageIncomplete
  | FbChangedPathsIncomplete
  | FbChangedPathsDigestMismatch
  | FbChangedPathUnindexed
  | FbDependencyIndexIncomplete
  | FbAnalyzerChanged
  | FbConfigChanged
  | FbIrChanged
  | FbIdentityChanged

fun fallback_reason_text :: "update_fallback_reason \<Rightarrow> string" where
  "fallback_reason_text FbAdapterIncrementalTargetsUnsupported = ''adapter_incremental_targets_unsupported''"
| "fallback_reason_text FbPriorCoverageIncomplete = ''prior_coverage_incomplete''"
| "fallback_reason_text FbChangedPathsIncomplete = ''changed_paths_incomplete''"
| "fallback_reason_text FbChangedPathsDigestMismatch = ''changed_paths_digest_mismatch''"
| "fallback_reason_text FbChangedPathUnindexed = ''changed_path_unindexed''"
| "fallback_reason_text FbDependencyIndexIncomplete = ''dependency_index_incomplete''"
| "fallback_reason_text FbAnalyzerChanged = ''analyzer_changed''"
| "fallback_reason_text FbConfigChanged = ''config_changed''"
| "fallback_reason_text FbIrChanged = ''ir_changed''"
| "fallback_reason_text FbIdentityChanged = ''identity_changed''"

datatype difference_incomplete_reason =
    BaseCoverageIncomplete
  | TargetCoverageIncomplete
  | IdentityVersionChanged

fun incomplete_reason_text :: "difference_incomplete_reason \<Rightarrow> string" where
  "incomplete_reason_text BaseCoverageIncomplete = ''base_coverage_incomplete''"
| "incomplete_reason_text TargetCoverageIncomplete = ''target_coverage_incomplete''"
| "incomplete_reason_text IdentityVersionChanged = ''identity_version_changed''"

datatype difference_kind =
    DkEndpointAdded
  | DkEndpointRemoved
  | DkEndpointAbsenceUnconfirmed
  | DkEndpointPathParameterNamesChanged
  | DkParameterAdded
  | DkParameterRemoved
  | DkParameterChanged
  | DkRequestBodyAdded
  | DkRequestBodyRemoved
  | DkRequestBodyChanged
  | DkResponseAdded
  | DkResponseRemoved
  | DkResponseChanged
  | DkSecurityChanged
  | DkSchemaAdded
  | DkSchemaRemoved
  | DkSchemaChanged
  | DkClaimAdded
  | DkClaimRemoved
  | DkClaimChanged
  | DkConditionAdded
  | DkConditionRemoved
  | DkConditionChanged
  | DkFactAbsenceUnconfirmed
  | DkAnalysisCoverageChanged
  | DkAnalysisIdentityChanged
  | DkAnalysisDiagnosticAdded
  | DkAnalysisDiagnosticResolved

fun difference_kind_text :: "difference_kind \<Rightarrow> string" where
  "difference_kind_text DkEndpointAdded = ''endpoint.added''"
| "difference_kind_text DkEndpointRemoved = ''endpoint.removed''"
| "difference_kind_text DkEndpointAbsenceUnconfirmed = ''endpoint.absence_unconfirmed''"
| "difference_kind_text DkEndpointPathParameterNamesChanged = ''endpoint.path_parameter_names_changed''"
| "difference_kind_text DkParameterAdded = ''parameter.added''"
| "difference_kind_text DkParameterRemoved = ''parameter.removed''"
| "difference_kind_text DkParameterChanged = ''parameter.changed''"
| "difference_kind_text DkRequestBodyAdded = ''request_body.added''"
| "difference_kind_text DkRequestBodyRemoved = ''request_body.removed''"
| "difference_kind_text DkRequestBodyChanged = ''request_body.changed''"
| "difference_kind_text DkResponseAdded = ''response.added''"
| "difference_kind_text DkResponseRemoved = ''response.removed''"
| "difference_kind_text DkResponseChanged = ''response.changed''"
| "difference_kind_text DkSecurityChanged = ''security.changed''"
| "difference_kind_text DkSchemaAdded = ''schema.added''"
| "difference_kind_text DkSchemaRemoved = ''schema.removed''"
| "difference_kind_text DkSchemaChanged = ''schema.changed''"
| "difference_kind_text DkClaimAdded = ''claim.added''"
| "difference_kind_text DkClaimRemoved = ''claim.removed''"
| "difference_kind_text DkClaimChanged = ''claim.changed''"
| "difference_kind_text DkConditionAdded = ''condition.added''"
| "difference_kind_text DkConditionRemoved = ''condition.removed''"
| "difference_kind_text DkConditionChanged = ''condition.changed''"
| "difference_kind_text DkFactAbsenceUnconfirmed = ''fact.absence_unconfirmed''"
| "difference_kind_text DkAnalysisCoverageChanged = ''analysis.coverage_changed''"
| "difference_kind_text DkAnalysisIdentityChanged = ''analysis.identity_changed''"
| "difference_kind_text DkAnalysisDiagnosticAdded = ''analysis.diagnostic_added''"
| "difference_kind_text DkAnalysisDiagnosticResolved = ''analysis.diagnostic_resolved''"

definition DIFFERENCE_KINDS :: "difference_kind list" where
  "DIFFERENCE_KINDS =
     [DkEndpointAdded,
      DkEndpointRemoved,
      DkEndpointAbsenceUnconfirmed,
      DkEndpointPathParameterNamesChanged,
      DkParameterAdded,
      DkParameterRemoved,
      DkParameterChanged,
      DkRequestBodyAdded,
      DkRequestBodyRemoved,
      DkRequestBodyChanged,
      DkResponseAdded,
      DkResponseRemoved,
      DkResponseChanged,
      DkSecurityChanged,
      DkSchemaAdded,
      DkSchemaRemoved,
      DkSchemaChanged,
      DkClaimAdded,
      DkClaimRemoved,
      DkClaimChanged,
      DkConditionAdded,
      DkConditionRemoved,
      DkConditionChanged,
      DkFactAbsenceUnconfirmed,
      DkAnalysisCoverageChanged,
      DkAnalysisIdentityChanged,
      DkAnalysisDiagnosticAdded,
      DkAnalysisDiagnosticResolved]"

datatype fact_kind =
    FkEndpoint
  | FkParameter
  | FkRequestBody
  | FkResponse
  | FkSecurity
  | FkSchema
  | FkClaim
  | FkConditionGroup
  | FkDiagnostic
  | FkCoverage
  | FkIdentity

fun fact_kind_text :: "fact_kind \<Rightarrow> string" where
  "fact_kind_text FkEndpoint = ''endpoint''"
| "fact_kind_text FkParameter = ''parameter''"
| "fact_kind_text FkRequestBody = ''request_body''"
| "fact_kind_text FkResponse = ''response''"
| "fact_kind_text FkSecurity = ''security''"
| "fact_kind_text FkSchema = ''schema''"
| "fact_kind_text FkClaim = ''claim''"
| "fact_kind_text FkConditionGroup = ''condition_group''"
| "fact_kind_text FkDiagnostic = ''diagnostic''"
| "fact_kind_text FkCoverage = ''coverage''"
| "fact_kind_text FkIdentity = ''identity''"

datatype compatibility_label = NonBreaking | PotentiallyBreaking | UnknownCompatibility

fun compatibility_text :: "compatibility_label \<Rightarrow> string" where
  "compatibility_text NonBreaking = ''non_breaking''"
| "compatibility_text PotentiallyBreaking = ''potentially_breaking''"
| "compatibility_text UnknownCompatibility = ''unknown''"

section \<open>Errors\<close>

datatype update_error_code =
    INVALID_UPDATE_INPUT
  | UPDATE_SCOPE_MISMATCH
  | UPDATE_ANALYSIS_MISMATCH
  | UPDATE_COMPARISON_INCOMPATIBLE
  | UPDATE_EXECUTION_FAILED

fun update_error_message :: "update_error_code \<Rightarrow> string" where
  "update_error_message INVALID_UPDATE_INPUT = ''Update input is invalid''"
| "update_error_message UPDATE_SCOPE_MISMATCH = ''Update scope does not match''"
| "update_error_message UPDATE_ANALYSIS_MISMATCH = ''Update analysis does not match''"
| "update_error_message UPDATE_COMPARISON_INCOMPATIBLE = ''Contract snapshots cannot be compared''"
| "update_error_message UPDATE_EXECUTION_FAILED = ''Update execution failed''"

definition safePathSegments :: "string list" where
  "safePathSegments =
     [''action'', ''affected_endpoint_ids'', ''after'', ''analysis'', ''analysis_key'', ''analyzed_roots'',
      ''analyzer_result'', ''analyzer'', ''analyzer_exchange_version'', ''analyzer_id'', ''analyzer_version'',
      ''application_path'', ''base'', ''base_analysis_key'', ''base_revision'', ''base_snapshot'',
      ''base_snapshot_id'', ''base_source_digest'', ''before'', ''changed_paths'', ''changed_paths_complete'',
      ''claims'', ''code'', ''comparison_status'', ''component_id'', ''condition'', ''config'',
      ''config_fingerprint'', ''config_version'', ''content'', ''contract_changes_output_version'',
      ''contract_difference_version'', ''coverage'', ''coverage_status'', ''created_at'', ''dependencies'',
      ''dependency_coverage'', ''diagnostics'', ''difference_id'', ''difference_set_id'', ''differences'',
      ''editorial_reviews'', ''endpoint_id'', ''endpoints'', ''evidence'', ''exchange_version'',
      ''execution_policy'', ''export_eligibility'', ''extraction_mode'', ''fact_key'', ''fact_kind'',
      ''fallback_reasons'', ''headers'', ''identity'', ''identity_version'', ''immutable_revision'', ''in'',
      ''incomplete_reason_codes'', ''ir_version'', ''encoding'', ''explode'', ''style'', ''content_type'',
      ''kind'', ''limits'', ''name'', ''parameters'', ''plan'', ''plan_id'', ''predicate'',
      ''prior_dependencies'', ''properties'', ''repository_id'', ''request'', ''request_bodies'', ''request_id'',
      ''resolution_inputs'', ''responses'', ''schema'', ''schema_id'', ''schemas'', ''security'', ''service'',
      ''service_id'', ''root'', ''service_root'', ''severity'', ''snapshot_id'', ''source'', ''source_digest'',
      ''status'', ''subject'', ''target'', ''target_snapshot'', ''target_revision'', ''target_source_digest'',
      ''update_plan_version'', ''value'', ''verification'']"

definition safeIssueCodes :: "string list" where
  "safeIssueCodes =
     [''shape.additionalProperties'', ''shape.anyOf'', ''shape.const'', ''shape.enum'', ''shape.format'',
      ''shape.invalid_json_value'', ''shape.maximum'', ''shape.maxItems'', ''shape.maxLength'',
      ''shape.minItems'', ''shape.minimum'', ''shape.minLength'', ''shape.minProperties'', ''shape.oneOf'',
      ''shape.pattern'', ''shape.required'', ''shape.type'', ''shape.uniqueItems'',
      ''semantic.action_mode_mismatch'', ''semantic.analysis_mismatch'', ''semantic.basis_mismatch'',
      ''semantic.conflicting_artifact_mapping'', ''semantic.conflicting_claims'',
      ''semantic.cross_repository_reference'', ''semantic.cross_service_reference'',
      ''semantic.dangling_reference'', ''semantic.duplicate_comparison_key'', ''semantic.duplicate_id'',
      ''semantic.environment_mismatch'', ''semantic.fact_key_mismatch'', ''semantic.identity_mismatch'',
      ''semantic.incomplete_coverage_without_diagnostic'', ''semantic.incomplete_absence'',
      ''semantic.incomplete_reason_mismatch'', ''semantic.inconsistent_completeness'',
      ''semantic.inconsistent_coverage'', ''semantic.ineligible_evidence'', ''semantic.intended_branch_mismatch'',
      ''semantic.invalid_api_schema'', ''semantic.invalid_path_syntax'', ''semantic.invalid_form_encoding'',
      ''semantic.unsupported_version_field'', ''semantic.invalid_subject'', ''semantic.missing_fact_key'',
      ''semantic.nested_snapshot_mismatch'', ''semantic.noncanonical_order'',
      ''semantic.path_outside_service_root'', ''semantic.reuse_mismatch'', ''semantic.route_identity_collision'',
      ''semantic.scope_mismatch'', ''semantic.unchanged_condition_group'', ''semantic.unrelated_evidence'',
      ''semantic.unsafe_fact_projection'']"

text \<open>\<open>/^(0|[1-9][0-9]*)$/\<close>.\<close>

definition index_segment :: "string \<Rightarrow> bool" where
  "index_segment s =
     (case s of [] \<Rightarrow> False
      | c # cs \<Rightarrow> (c = CHR ''0'' \<and> cs = []) \<or> (CHR ''1'' \<le> c \<and> c \<le> CHR ''9'' \<and> list_all is_digit cs))"

definition sanitize_segment :: "string \<Rightarrow> string" where
  "sanitize_segment segment =
     (if index_segment segment then segment
      else if segment \<in> set safePathSegments then segment else ''*'')"

definition sanitizeUpdateIssuePath :: "string \<Rightarrow> string" where
  "sanitizeUpdateIssuePath candidate =
     (if candidate = ''/'' \<or> \<not> starts_with candidate ''/'' then ''/''
      else ''/'' @ join_with ''/'' (map sanitize_segment (tl (split_char (CHR ''/'') candidate))))"

definition sanitizeUpdateIssueCode :: "string \<Rightarrow> string" where
  "sanitizeUpdateIssueCode candidate =
     (if candidate \<in> set safeIssueCodes then candidate else ''validation.invalid'')"

record update_issue =
  ui_path :: string
  ui_code :: string

record update_error =
  ue_code :: update_error_code
  ue_issues :: "update_issue list option"
  ue_retryable :: bool

text \<open>
  A candidate issue as its own property descriptors show it: each of the two members is a string
  or something else (\<open>None\<close>), and reading the descriptors may throw (\<open>Hostile\<close>).
\<close>

datatype issue_candidate = Hostile | Candidate "string option" "string option"

fun sanitize_candidate :: "issue_candidate \<Rightarrow> update_issue" where
  "sanitize_candidate Hostile = \<lparr>ui_path = ''/'', ui_code = ''validation.invalid''\<rparr>"
| "sanitize_candidate (Candidate path code) =
     \<lparr>ui_path = (case path of None \<Rightarrow> ''/'' | Some p \<Rightarrow> sanitizeUpdateIssuePath p),
      ui_code = (case code of None \<Rightarrow> ''validation.invalid'' | Some c \<Rightarrow> sanitizeUpdateIssueCode c)\<rparr>"

definition updateError :: "update_error_code \<Rightarrow> issue_candidate list option \<Rightarrow> bool option \<Rightarrow> update_error" where
  "updateError code issues retryable =
     \<lparr>ue_code = code,
      ue_issues = map_option (map sanitize_candidate) issues,
      ue_retryable = (case retryable of Some r \<Rightarrow> r | None \<Rightarrow> code = UPDATE_EXECUTION_FAILED)\<rparr>"

definition updateValidationError :: "update_error_code \<Rightarrow> validation_issue list \<Rightarrow> update_error" where
  "updateValidationError code issues =
     updateError code (Some (map (\<lambda>i. Candidate (Some (vi_path i)) (Some (vi_code i))) issues)) None"

definition updateExecutionError :: update_error where
  "updateExecutionError = updateError UPDATE_EXECUTION_FAILED None (Some True)"

datatype thrown = ThrownUpdate update_error | ThrownOther

fun asUpdateError :: "thrown \<Rightarrow> update_error" where
  "asUpdateError (ThrownUpdate e) = e"
| "asUpdateError ThrownOther = updateExecutionError"

section \<open>What an error may show\<close>

definition safe_segment :: "string \<Rightarrow> bool" where
  "safe_segment s = (index_segment s \<or> s \<in> set safePathSegments \<or> s = ''*'')"

definition safe_path :: "string \<Rightarrow> bool" where
  "safe_path p = (p = ''/'' \<or> (\<exists>ws. ws \<noteq> [] \<and> list_all safe_segment ws \<and> p = ''/'' @ join_with ''/'' ws))"

lemma no_slash_allowed: "list_all (\<lambda>s. CHR ''/'' \<notin> set s \<and> s \<noteq> []) safePathSegments"
  by (simp add: safePathSegments_def)

lemma index_segment_no_slash: "index_segment s \<Longrightarrow> CHR ''/'' \<notin> set s \<and> s \<noteq> []"
  by (auto simp: index_segment_def is_digit_def less_eq_char_def list_all_iff split: list.splits)

lemma safe_segment_no_slash: "safe_segment s \<Longrightarrow> CHR ''/'' \<notin> set s \<and> s \<noteq> []"
  using no_slash_allowed index_segment_no_slash by (auto simp: safe_segment_def list_all_iff)

lemma sanitize_segment_safe: "safe_segment (sanitize_segment s)"
  by (simp add: sanitize_segment_def safe_segment_def)

lemma sanitize_segment_id: "safe_segment s \<Longrightarrow> sanitize_segment s = s"
  by (auto simp: sanitize_segment_def safe_segment_def)

lemma sanitize_safe_path: "safe_path p \<Longrightarrow> sanitizeUpdateIssuePath p = p"
proof -
  assume "safe_path p"
  then consider "p = ''/''" | ws where "ws \<noteq> []" "list_all safe_segment ws" "p = ''/'' @ join_with ''/'' ws"
    by (auto simp: safe_path_def)
  then show ?thesis
  proof cases
    case (2 ws)
    have no_slash: "\<forall>w \<in> set ws. CHR ''/'' \<notin> set w" using 2(2) safe_segment_no_slash by (auto simp: list_all_iff)
    have "join_with ''/'' ws \<noteq> []"
      using 2(1,2) safe_segment_no_slash by (cases "(''/'', ws)" rule: join_with.cases) (auto simp: list_all_iff)
    moreover have "split_char (CHR ''/'') p = [] # ws"
      using 2(1,3) no_slash by (simp add: split_join_char)
    moreover have "map sanitize_segment ws = ws"
      using 2(2) by (intro map_idI) (auto simp: list_all_iff sanitize_segment_id)
    ultimately show ?thesis using 2(3) by (simp add: sanitizeUpdateIssuePath_def)
  qed (simp add: sanitizeUpdateIssuePath_def)
qed

lemma sanitize_path_safe: "safe_path (sanitizeUpdateIssuePath p)"
proof (cases "p = ''/'' \<or> \<not> starts_with p ''/''")
  case False
  then obtain t where t: "p = ''/'' @ t" by (auto simp only: starts_with_iff)
  with False obtain c cs where p: "p = CHR ''/'' # c # cs" by (cases t) auto
  then have "tl (split_char (CHR ''/'') p) = split_char (CHR ''/'') (c # cs)" by simp
  then have "tl (split_char (CHR ''/'') p) \<noteq> []" by (simp only: split_char_not_Nil not_False_eq_True)
  then have "map sanitize_segment (tl (split_char (CHR ''/'') p)) \<noteq> []" by simp
  moreover have "list_all safe_segment (map sanitize_segment (tl (split_char (CHR ''/'') p)))"
    by (simp add: list_all_iff sanitize_segment_safe)
  ultimately show ?thesis using False unfolding safe_path_def sanitizeUpdateIssuePath_def by metis
qed (auto simp: safe_path_def sanitizeUpdateIssuePath_def)

lemma root_safe [simp]: "safe_path ''/''"
  by (simp add: safe_path_def)

text \<open>
  Every issue of an update error is safe to show: its path is made of array indices,
  allow-listed names and \<open>*\<close>, its code is allow-listed or \<open>validation.invalid\<close>, whatever the
  rejected document held.
\<close>

theorem update_error_is_safe:
  "list_all (\<lambda>i. safe_path (ui_path i) \<and> ui_code i \<in> set (''validation.invalid'' # safeIssueCodes))
     (or_empty (ue_issues (updateError code issues retryable)))"
proof -
  have "safe_path (ui_path (sanitize_candidate c)) \<and> ui_code (sanitize_candidate c) \<in> set (''validation.invalid'' # safeIssueCodes)" for c
    by (cases c) (auto simp: sanitize_path_safe root_safe sanitizeUpdateIssueCode_def split: option.split)
  then show ?thesis
    by (auto simp: updateError_def or_empty_def list_all_iff split: option.splits)
qed

text \<open>Sanitizing keeps what is already safe, so it is idempotent on paths.\<close>

theorem sanitize_path_fixpoint:
  "sanitizeUpdateIssuePath p = p \<longleftrightarrow> safe_path p"
  using sanitize_safe_path sanitize_path_safe by metis

end
