(* ===== verification/UpdOwnership.thy ===== *)
theory UpdOwnership
  imports UpdTypes
begin

text \<open>
  The endpoint ownership index of \<open>packages/updates/src/planner.ts\<close>: which evidence and which
  schema components each endpoint depends on, closed under the snapshot's dependencies. The
  mutable sets and maps are threaded as a state; dereferencing an endpoint the index does not
  hold (a JavaScript \<open>TypeError\<close>) is \<open>None\<close>.
\<close>

section \<open>Component references\<close>

datatype ownership_route =
    RouteEndpoint
  | RouteParameterPresence
  | RouteRequestBodyPresence
  | RouteClaim
  | RouteEligibility
  | RouteSchema
  | RouteEvidenceScope
  | RouteDependencyEvidence
  | RouteDependencySchema
  | RouteDependencyEndpoint

definition path_char :: "char \<Rightarrow> bool" where
  "path_char c = (is_upper c \<or> is_lower c \<or> is_digit c \<or> c \<in> set ''_@+.-'')"

text \<open>\<open>/^[A-Za-z0-9_@+.-]+(?:\/[A-Za-z0-9_@+.-]+)*$/\<close>.\<close>

definition normalizedRelativePath :: "string \<Rightarrow> bool" where
  "normalizedRelativePath candidate =
     list_all (\<lambda>w. w \<noteq> '''' \<and> list_all path_char w) (split_char (CHR ''/'') candidate)"

definition isNormalizedServicePath :: "string \<Rightarrow> bool" where
  "isNormalizedServicePath candidate =
     (candidate = ''.'' \<or>
      normalizedRelativePath candidate \<and>
      list_all (\<lambda>segment. segment \<noteq> ''.'' \<and> segment \<noteq> ''..'') (split_char (CHR ''/'') candidate))"

text \<open>\<open>replaceAll("~d", r)\<close>.\<close>

fun replace_tilde :: "char \<Rightarrow> char \<Rightarrow> string \<Rightarrow> string" where
  "replace_tilde d r (a # b # cs) =
     (if a = CHR ''~'' \<and> b = d then r # replace_tilde d r cs else a # replace_tilde d r (b # cs))"
| "replace_tilde d r s = s"

text \<open>\<open>/~(?![01])/u\<close>: a tilde that starts no escape.\<close>

fun bad_tilde :: "string \<Rightarrow> bool" where
  "bad_tilde [] = False"
| "bad_tilde (c # cs) =
     (c = CHR ''~'' \<and> \<not> first_char (\<lambda>d. d = CHR ''0'' \<or> d = CHR ''1'') cs \<or> bad_tilde cs)"

definition localComponentId :: "string \<Rightarrow> string option" where
  "localComponentId reference =
     (if \<not> starts_with reference ''#/schemas/'' then None
      else let encoded = drop (length ''#/schemas/'') reference in
        if encoded = '''' \<or> bad_tilde encoded then None
        else Some (replace_tilde (CHR ''0'') (CHR ''~'') (replace_tilde (CHR ''1'') (CHR ''/'') encoded)))"

text \<open>The positions \<open>collectSchemaReferences\<close> visits below a schema, in its order.\<close>

definition member_values :: "string \<Rightarrow> json \<Rightarrow> json list" where
  "member_values key value = (case jget key value of Some (JObj kvs) \<Rightarrow> map snd kvs | _ \<Rightarrow> [])"

definition member_value :: "string \<Rightarrow> json \<Rightarrow> json list" where
  "member_value key value = (case jget key value of Some v \<Rightarrow> [v] | None \<Rightarrow> [])"

definition member_items :: "string \<Rightarrow> json \<Rightarrow> json list" where
  "member_items key value = (case jget key value of Some (JArr vs) \<Rightarrow> vs | _ \<Rightarrow> [])"

definition reference_children :: "json \<Rightarrow> json list" where
  "reference_children value =
     member_values ''properties'' value @ member_value ''items'' value @ member_items ''prefixItems'' value @
     filter (\<lambda>v. is_object v \<or> is_array v) (member_value ''additionalProperties'' value) @
     member_items ''oneOf'' value @ member_items ''anyOf'' value @ member_items ''allOf'' value @
     member_value ''not'' value"

lemma reference_children_size [termination_simp]: "child \<in> set (reference_children value) \<Longrightarrow> size child < size value"
  by (auto simp: reference_children_def member_values_def member_value_def member_items_def
      intro: jget_size [OF sym] jget_arr_size [OF sym] jget_obj_size [OF sym] split: option.splits json.splits)

fun schemaReferences :: "json \<Rightarrow> string list" where
  "schemaReferences value =
     (case jget ''$ref'' value of
        Some (JStr ref) \<Rightarrow> (case localComponentId ref of Some i \<Rightarrow> [i] | None \<Rightarrow> [])
      | _ \<Rightarrow> []) @
     concat_map schemaReferences (reference_children value)"

declare schemaReferences.simps [simp del]

definition collectSchemaReferences :: "json \<Rightarrow> string list \<Rightarrow> string list" where
  "collectSchemaReferences value output = set_add_all (schemaReferences value) output"

definition endpointSchemaReferences :: "endpoint \<Rightarrow> string list" where
  "endpointSchemaReferences e = foldl (\<lambda>out schema. collectSchemaReferences schema out) [] (endpoint_schemas e)"

text \<open>
  The worklist: \<open>pending\<close> is popped at its end, an unknown or already reached component is
  skipped.
\<close>

type_synonym schema_map = "(string, schema_component) jmap"

function component_closure :: "schema_map \<Rightarrow> string list \<Rightarrow> string list \<Rightarrow> string list" where
  "component_closure schemas reached pending =
     (if pending = [] then reached
      else
        (let componentId = last pending; rest = butlast pending in
         if componentId \<in> set reached then component_closure schemas reached rest
         else case map_get schemas componentId of
           None \<Rightarrow> component_closure schemas reached rest
         | Some component \<Rightarrow>
             (let reached' = set_add componentId reached in
              component_closure schemas reached'
                (rest @ filter (\<lambda>r. r \<notin> set reached') (collectSchemaReferences (sm_schema component) [])))))"
  by pat_completeness auto
termination
proof (relation "measures [\<lambda>(schemas, reached, _). card (fst ` set schemas - set reached), \<lambda>(_, _, pending). length pending]",
    goal_cases)
  case (4 schemas reached pending x xa x2 xb)
  then have "x \<in> fst ` set schemas" by (force dest: map_of_SomeD)
  with 4 have "fst ` set schemas - set (set_add x reached) \<subset> fst ` set schemas - set reached" by auto
  with 4 show ?case by (auto intro!: psubset_card_mono)
qed auto

declare component_closure.simps [simp del]

definition componentClosure :: "string list \<Rightarrow> schema_map \<Rightarrow> string list" where
  "componentClosure initialIds schemas = component_closure schemas [] initialIds"

section \<open>Building the index\<close>

record ownership =
  ow_evidenceIds :: "string list"
  ow_schemaIds :: "string list"

type_synonym route_map = "(string, (string, ownership_route list) jmap) jmap"

record builder =
  bu_endpoints :: "(string, ownership) jmap"
  bu_routes :: route_map

definition addRoute :: "route_map \<Rightarrow> string \<Rightarrow> string \<Rightarrow> ownership_route \<Rightarrow> route_map" where
  "addRoute routeMap evidenceId endpointId route =
     (let endpointRoutes = map_get_or [] routeMap evidenceId;
          routes = map_get_or [] endpointRoutes endpointId
      in map_set evidenceId (map_set endpointId (set_add route routes) endpointRoutes) routeMap)"

text \<open>A step returns the new state and whether it added anything.\<close>

type_synonym step = "builder \<Rightarrow> (builder \<times> bool) option"

definition addEvidence :: "string \<Rightarrow> string \<Rightarrow> ownership_route \<Rightarrow> step" where
  "addEvidence endpointId evidenceId route st =
     (case map_get (bu_endpoints st) endpointId of
        None \<Rightarrow> None
      | Some ownership \<Rightarrow> Some
          (st\<lparr>bu_routes := addRoute (bu_routes st) evidenceId endpointId route,
              bu_endpoints := map_set endpointId
                (ownership\<lparr>ow_evidenceIds := set_add evidenceId (ow_evidenceIds ownership)\<rparr>) (bu_endpoints st)\<rparr>,
           evidenceId \<notin> set (ow_evidenceIds ownership)))"

definition addSchemaId :: "string \<Rightarrow> string \<Rightarrow> step" where
  "addSchemaId endpointId schemaId st =
     (case map_get (bu_endpoints st) endpointId of
        None \<Rightarrow> None
      | Some ownership \<Rightarrow> Some
          (st\<lparr>bu_endpoints := map_set endpointId
                (ownership\<lparr>ow_schemaIds := set_add schemaId (ow_schemaIds ownership)\<rparr>) (bu_endpoints st)\<rparr>,
           schemaId \<notin> set (ow_schemaIds ownership)))"

text \<open>A \<open>for\<close> loop whose body is a step; \<open>changed = step() || changed\<close>.\<close>

fun each :: "('a \<Rightarrow> step) \<Rightarrow> 'a list \<Rightarrow> step" where
  "each f [] st = Some (st, False)"
| "each f (x # xs) st =
     (case f x st of None \<Rightarrow> None
      | Some (st', c) \<Rightarrow> (case each f xs st' of None \<Rightarrow> None | Some (st'', d) \<Rightarrow> Some (st'', c \<or> d)))"

definition then_step :: "step \<Rightarrow> step \<Rightarrow> step" where
  "then_step f g = each (\<lambda>h. h) [f, g]"

definition addSchemas :: "schema_map \<Rightarrow> string \<Rightarrow> string list \<Rightarrow> ownership_route \<Rightarrow> step" where
  "addSchemas schemas endpointId ids route =
     each (\<lambda>schemaId.
       then_step (addSchemaId endpointId schemaId)
         (\<lambda>st. case map_get schemas schemaId of
            None \<Rightarrow> None
          | Some component \<Rightarrow> each (\<lambda>evidenceId. addEvidence endpointId evidenceId route) (sm_evidence_ids component) st))
       (componentClosure ids schemas)"

definition snapshot_schemas :: "contract_snapshot \<Rightarrow> schema_map" where
  "snapshot_schemas s = js_map (cs_schemas s)"

definition addEndpoint :: "contract_snapshot \<Rightarrow> endpoint \<Rightarrow> step" where
  "addEndpoint s e st =
     (let i = ep_endpoint_id e in
      each (\<lambda>h. h)
        [each (\<lambda>evidenceId. addEvidence i evidenceId RouteEndpoint) (ep_evidence_ids e),
         each (\<lambda>p. each (\<lambda>evidenceId. addEvidence i evidenceId RouteParameterPresence) (pr_evidence_ids (pm_presence p)))
           (ep_parameters e),
         each (\<lambda>b. each (\<lambda>evidenceId. addEvidence i evidenceId RouteRequestBodyPresence) (pr_evidence_ids (rb_presence b)))
           (ep_request_bodies e),
         addSchemas (snapshot_schemas s) i (endpointSchemaReferences e) RouteSchema]
        (st\<lparr>bu_endpoints := map_set i \<lparr>ow_evidenceIds = [], ow_schemaIds = []\<rparr> (bu_endpoints st)\<rparr>))"

definition eligibleEvidence :: "contract_snapshot \<Rightarrow> claim \<Rightarrow> string list" where
  "eligibleEvidence s c =
     concat_map (\<lambda>el. if ee_claim_id el \<noteq> cl_claim_id c then []
       else case ee_status el of Eligible _ ids \<Rightarrow> ids | Ineligible _ \<Rightarrow> []) (cs_export_eligibility s)"

definition addClaim :: "contract_snapshot \<Rightarrow> claim \<Rightarrow> step" where
  "addClaim s c st =
     (case cj_endpoint_id (cl_subject c) of
        None \<Rightarrow> Some (st, False)
      | Some i \<Rightarrow> then_step
          (each (\<lambda>evidenceId. addEvidence i evidenceId RouteClaim) (cl_evidence_ids c))
          (each (\<lambda>evidenceId. addEvidence i evidenceId RouteEligibility) (eligibleEvidence s c)) st)"

definition addScopedEvidence :: "evidence \<Rightarrow> step" where
  "addScopedEvidence e st =
     (case es_endpoint_id (ev_scope e) of
        None \<Rightarrow> Some (st, False)
      | Some i \<Rightarrow> addEvidence i (ev_evidence_id e) RouteEvidenceScope st)"

text \<open>A dependency on another endpoint copies what that endpoint owns at this moment.\<close>

definition copyEndpoint :: "string \<Rightarrow> string \<Rightarrow> step" where
  "copyEndpoint fromId toId st =
     (case map_get (bu_endpoints st) toId of
        None \<Rightarrow> None
      | Some target \<Rightarrow> then_step
          (each (\<lambda>evidenceId. addEvidence fromId evidenceId RouteDependencyEndpoint) (ow_evidenceIds target))
          (each (addSchemaId fromId) (ow_schemaIds target)) st)"

definition applyDependency :: "schema_map \<Rightarrow> dependency \<Rightarrow> step" where
  "applyDependency schemas d =
     then_step
       (each (\<lambda>evidenceId. addEvidence (dp_from_endpoint_id d) evidenceId RouteDependencyEvidence) (dp_evidence_ids d))
       (case dp_to_kind d of
          DepEvidence \<Rightarrow> addEvidence (dp_from_endpoint_id d) (dp_to_id d) RouteDependencyEvidence
        | DepSchema \<Rightarrow> addSchemas schemas (dp_from_endpoint_id d) [dp_to_id d] RouteDependencySchema
        | DepEndpoint \<Rightarrow> copyEndpoint (dp_from_endpoint_id d) (dp_to_id d))"

definition dependency_pass :: "contract_snapshot \<Rightarrow> step" where
  "dependency_pass s = each (applyDependency (snapshot_schemas s)) (cs_dependencies s)"

definition initial_ownership :: "contract_snapshot \<Rightarrow> builder option" where
  "initial_ownership s = map_option fst (each (\<lambda>h. h)
     [each (addEndpoint s) (cs_endpoints s),
      each (addClaim s) (cs_claims s),
      each addScopedEvidence (cs_evidence s)] \<lparr>bu_endpoints = [], bu_routes = []\<rparr>)"

section \<open>What a step adds\<close>

text \<open>The pairs of an endpoint and an owned evidence (\<open>Inl\<close>) or component (\<open>Inr\<close>).\<close>

type_synonym owned_pair = "string \<times> (string + string)"

definition ow_content :: "ownership \<Rightarrow> (string + string) set" where
  "ow_content ow = Inl ` set (ow_evidenceIds ow) \<union> Inr ` set (ow_schemaIds ow)"

definition owned :: "builder \<Rightarrow> owned_pair set" where
  "owned st = {(i, x). \<exists>ow. map_get (bu_endpoints st) i = Some ow \<and> x \<in> ow_content ow}"

definition bu_keys :: "builder \<Rightarrow> string list" where
  "bu_keys st = map_keys (bu_endpoints st)"

definition step_adds :: "step \<Rightarrow> builder \<Rightarrow> owned_pair set \<Rightarrow> bool" where
  "step_adds f st A \<longleftrightarrow> (\<forall>st' c. f st = Some (st', c) \<longrightarrow>
     bu_keys st' = bu_keys st \<and> owned st' = owned st \<union> A \<and> (c \<longleftrightarrow> \<not> A \<subseteq> owned st))"

definition defined_for :: "string set \<Rightarrow> step \<Rightarrow> bool" where
  "defined_for K f \<longleftrightarrow> (\<forall>st. K \<subseteq> set (bu_keys st) \<longrightarrow> f st \<noteq> None)"

lemma step_addsD:
  assumes "step_adds f st A" "f st = Some (st', c)"
  shows "bu_keys st' = bu_keys st" "owned st' = owned st \<union> A" "c \<longleftrightarrow> \<not> A \<subseteq> owned st"
  using assms unfolding step_adds_def by blast+

lemma owned_keys: "owned st \<subseteq> set (bu_keys st) \<times> UNIV"
  by (force simp: owned_def bu_keys_def dest: map_of_SomeD)

lemma finite_owned: "finite (owned st)"
proof (rule finite_subset)
  show "owned st \<subseteq> (\<Union>(i, ow) \<in> set (bu_endpoints st). {i} \<times> ow_content ow)"
    by (auto simp: owned_def dest: map_of_SomeD)
  show "finite (\<Union>(i, ow) \<in> set (bu_endpoints st). {i} \<times> ow_content ow)"
    by (auto simp: ow_content_def)
qed

lemma owned_update:
  assumes "map_get (bu_endpoints st) i = Some ow" "ow_content ow' = insert x (ow_content ow)"
    "bu_endpoints st' = map_set i ow' (bu_endpoints st)"
  shows "owned st' = insert (i, x) (owned st)" "bu_keys st' = bu_keys st"
proof -
  have "i \<in> fst ` set (bu_endpoints st)" using assms(1) by (force dest: map_of_SomeD)
  then show "bu_keys st' = bu_keys st" using assms(3) by (simp add: bu_keys_def update_keys)
  show "owned st' = insert (i, x) (owned st)"
    using assms by (auto simp: owned_def split: if_splits)
qed

lemma addEvidence_adds: "step_adds (addEvidence i e r) st {(i, Inl e)}"
proof -
  have "bu_keys st' = bu_keys st \<and> owned st' = owned st \<union> {(i, Inl e)} \<and> (c \<longleftrightarrow> \<not> {(i, Inl e)} \<subseteq> owned st)"
    if f: "addEvidence i e r st = Some (st', c)" for st' c
  proof -
    from f obtain ow where ow: "map_get (bu_endpoints st) i = Some ow"
      and st': "bu_endpoints st' = map_set i (ow\<lparr>ow_evidenceIds := set_add e (ow_evidenceIds ow)\<rparr>) (bu_endpoints st)"
      and c: "c \<longleftrightarrow> e \<notin> set (ow_evidenceIds ow)"
      by (auto simp: addEvidence_def split: option.splits)
    have "ow_content (ow\<lparr>ow_evidenceIds := set_add e (ow_evidenceIds ow)\<rparr>) = insert (Inl e) (ow_content ow)"
      by (auto simp: ow_content_def)
    from owned_update [OF ow this st'] show ?thesis using ow c by (auto simp: owned_def ow_content_def)
  qed
  then show ?thesis by (simp add: step_adds_def)
qed

lemma addSchemaId_adds: "step_adds (addSchemaId i e) st {(i, Inr e)}"
proof -
  have "bu_keys st' = bu_keys st \<and> owned st' = owned st \<union> {(i, Inr e)} \<and> (c \<longleftrightarrow> \<not> {(i, Inr e)} \<subseteq> owned st)"
    if f: "addSchemaId i e st = Some (st', c)" for st' c
  proof -
    from f obtain ow where ow: "map_get (bu_endpoints st) i = Some ow"
      and st': "bu_endpoints st' = map_set i (ow\<lparr>ow_schemaIds := set_add e (ow_schemaIds ow)\<rparr>) (bu_endpoints st)"
      and c: "c \<longleftrightarrow> e \<notin> set (ow_schemaIds ow)"
      by (auto simp: addSchemaId_def split: option.splits)
    have "ow_content (ow\<lparr>ow_schemaIds := set_add e (ow_schemaIds ow)\<rparr>) = insert (Inr e) (ow_content ow)"
      by (auto simp: ow_content_def)
    from owned_update [OF ow this st'] show ?thesis using ow c by (auto simp: owned_def ow_content_def)
  qed
  then show ?thesis by (simp add: step_adds_def)
qed

lemma each_adds:
  assumes "\<And>x st'. x \<in> set xs \<Longrightarrow> bu_keys st' = bu_keys st \<Longrightarrow> owned st \<subseteq> owned st' \<Longrightarrow> step_adds (f x) st' (A x)"
  shows "step_adds (each f xs) st (\<Union>x \<in> set xs. A x)"
  using assms
proof (induction xs arbitrary: st)
  case Nil
  then show ?case by (simp add: step_adds_def)
next
  case (Cons x xs)
  have "bu_keys st' = bu_keys st \<and> owned st' = owned st \<union> (\<Union>x \<in> set (x # xs). A x) \<and>
      (c \<longleftrightarrow> \<not> (\<Union>x \<in> set (x # xs). A x) \<subseteq> owned st)"
    if run: "each f (x # xs) st = Some (st', c)" for st' c
  proof -
    from run obtain st1 c1 c2 where f: "f x st = Some (st1, c1)" and r: "each f xs st1 = Some (st', c2)" and c: "c = (c1 \<or> c2)"
      by (auto split: option.splits prod.splits)
    note s1 = step_addsD [OF Cons.prems [of x st] f]
    have "step_adds (each f xs) st1 (\<Union>x \<in> set xs. A x)"
      by (rule Cons.IH) (use s1 Cons.prems in auto)
    note s2 = step_addsD [OF this r]
    show ?thesis using s1 s2 c by auto
  qed
  then show ?case by (simp add: step_adds_def)
qed

lemma then_step_eq:
  "then_step f g st =
     (case f st of None \<Rightarrow> None
      | Some (st', c) \<Rightarrow> (case g st' of None \<Rightarrow> None | Some (st'', d) \<Rightarrow> Some (st'', c \<or> d)))"
  by (auto simp: then_step_def split: option.splits)

lemma then_step_adds:
  assumes "step_adds f st A"
    and "\<And>st'. bu_keys st' = bu_keys st \<Longrightarrow> owned st' = owned st \<union> A \<Longrightarrow> step_adds g st' B"
  shows "step_adds (then_step f g) st (A \<union> B)"
proof -
  have "bu_keys st' = bu_keys st \<and> owned st' = owned st \<union> (A \<union> B) \<and> (c \<longleftrightarrow> \<not> A \<union> B \<subseteq> owned st)"
    if run: "then_step f g st = Some (st', c)" for st' c
  proof -
    obtain st1 c1 c2 where f: "f st = Some (st1, c1)" and g: "g st1 = Some (st', c2)" and c: "c = (c1 \<or> c2)"
    proof (cases "f st")
      case (Some p)
      then show ?thesis using run that by (cases p; cases "g (fst p)") (auto simp: then_step_eq)
    qed (use run in \<open>simp add: then_step_eq\<close>)
    note s1 = step_addsD [OF assms(1) f]
    note s2 = step_addsD [OF assms(2) [OF s1(1,2)] g]
    show ?thesis using s1 s2 c by auto
  qed
  then show ?thesis by (simp add: step_adds_def)
qed

lemma skip_adds: "step_adds (\<lambda>st. Some (st, False)) st {}"
  by (simp add: step_adds_def)

lemmas step_adds_intros = addEvidence_adds addSchemaId_adds each_adds then_step_adds skip_adds

lemma defined_each: "(\<And>x. x \<in> set xs \<Longrightarrow> defined_for K (f x)) \<Longrightarrow>
    (\<And>x st. x \<in> set xs \<Longrightarrow> step_adds (f x) st (A x st)) \<Longrightarrow> defined_for K (each f xs)"
proof (induction xs)
  case Nil
  then show ?case by (simp add: defined_for_def)
next
  case (Cons x xs)
  have "defined_for K (each f xs)" by (rule Cons.IH) (use Cons.prems in auto)
  moreover have "defined_for K (f x)" using Cons.prems by auto
  moreover have "bu_keys st' = bu_keys st" if "f x st = Some (st', c)" for st st' c
    using step_addsD(1) [OF Cons.prems(2) [of x st] that] by simp
  ultimately have "each f (x # xs) st \<noteq> None" if "K \<subseteq> set (bu_keys st)" for st
    using that by (cases "f x st") (auto simp: defined_for_def split: option.split)
  then show ?case by (simp add: defined_for_def)
qed

lemma defined_addEvidence: "i \<in> K \<Longrightarrow> defined_for K (addEvidence i e r)"
  and defined_addSchemaId: "i \<in> K \<Longrightarrow> defined_for K (addSchemaId i e)"
  by (auto simp: defined_for_def addEvidence_def addSchemaId_def bu_keys_def map_of_eq_None_iff split: option.splits)

section \<open>The component closure\<close>

text \<open>The components reachable from a set of references, through \<open>$ref\<close>s of known components.\<close>

inductive reaches :: "schema_map \<Rightarrow> string set \<Rightarrow> string \<Rightarrow> bool" for schemas I where
  start: "i \<in> I \<Longrightarrow> map_get schemas i = Some c \<Longrightarrow> reaches schemas I i"
| follow: "reaches schemas I i \<Longrightarrow> map_get schemas i = Some c \<Longrightarrow> j \<in> set (schemaReferences (sm_schema c)) \<Longrightarrow>
    map_get schemas j = Some c' \<Longrightarrow> reaches schemas I j"

lemma reaches_known: "reaches schemas I i \<Longrightarrow> \<exists>c. map_get schemas i = Some c"
  by (induction rule: reaches.induct) auto

lemma set_collectSchemaReferences [simp]:
  "set (collectSchemaReferences value output) = set (schemaReferences value) \<union> set output"
  by (simp add: collectSchemaReferences_def)

lemma set_butlast_last: "pending \<noteq> [] \<Longrightarrow> set pending = insert (last pending) (set (butlast pending))"
  by (metis append_butlast_last_id Un_insert_right list.simps(15) set_append set_empty sup_bot.right_neutral empty_set)

lemma component_closure_sound:
  assumes "\<forall>i \<in> set reached. reaches schemas I i"
    and "\<forall>i \<in> set pending. map_get schemas i \<noteq> None \<longrightarrow> reaches schemas I i"
  shows "\<forall>i \<in> set (component_closure schemas reached pending). reaches schemas I i"
  using assms
proof (induction schemas reached pending rule: component_closure.induct)
  case (1 schemas reached pending)
  show ?case
  proof (cases "pending = []")
    case False
    let ?i = "last pending" and ?rest = "butlast pending"
    have members: "set pending = insert ?i (set ?rest)" by (rule set_butlast_last [OF False])
    show ?thesis
    proof (cases "?i \<in> set reached")
      case True
      then have "component_closure schemas reached pending = component_closure schemas reached ?rest"
        using False by (subst component_closure.simps) (simp add: Let_def)
      with "1.IH"(1) [OF False refl refl True] "1.prems" members show ?thesis by simp
    next
      case new: False
      show ?thesis
      proof (cases "map_get schemas ?i")
        case None
        then have "component_closure schemas reached pending = component_closure schemas reached ?rest"
          using False new by (subst component_closure.simps) (simp add: Let_def)
        with "1.IH"(2) [OF False refl refl new None] "1.prems" members show ?thesis by simp
      next
        case (Some c)
        let ?refs = "filter (\<lambda>r. r \<notin> set (set_add ?i reached)) (collectSchemaReferences (sm_schema c) [])"
        have eq: "component_closure schemas reached pending = component_closure schemas (set_add ?i reached) (?rest @ ?refs)"
          using False new Some by (subst component_closure.simps) (simp add: Let_def)
        have i: "reaches schemas I ?i" using "1.prems" members Some by simp
        have "reaches schemas I r" if "r \<in> set ?refs" "map_get schemas r \<noteq> None" for r
          using that reaches.follow [OF i Some] by auto
        then have "\<forall>j \<in> set (?rest @ ?refs). map_get schemas j \<noteq> None \<longrightarrow> reaches schemas I j"
          using "1.prems"(2) members by (metis Un_iff insert_iff set_append)
        moreover have "\<forall>j \<in> set (set_add ?i reached). reaches schemas I j" using "1.prems"(1) i by simp
        ultimately show ?thesis
          unfolding eq by (rule "1.IH"(3) [OF False refl refl new Some refl, rotated])
      qed
    qed
  qed (use "1.prems" component_closure.simps [of schemas reached pending] in simp)
qed

text \<open>The references of every reached component are reached, pending or unknown.\<close>

definition closure_inv :: "schema_map \<Rightarrow> string list \<Rightarrow> string list \<Rightarrow> bool" where
  "closure_inv schemas reached pending \<longleftrightarrow>
     (\<forall>i \<in> set reached. \<forall>c j. map_get schemas i = Some c \<longrightarrow> j \<in> set (schemaReferences (sm_schema c)) \<longrightarrow>
        map_get schemas j \<noteq> None \<longrightarrow> j \<in> set reached \<union> set pending)"

lemma component_closure_complete:
  assumes "closure_inv schemas reached pending"
  shows "set reached \<subseteq> set (component_closure schemas reached pending) \<and>
    (\<forall>i \<in> set pending. map_get schemas i \<noteq> None \<longrightarrow> i \<in> set (component_closure schemas reached pending)) \<and>
    closure_inv schemas (component_closure schemas reached pending) []"
  using assms
proof (induction schemas reached pending rule: component_closure.induct)
  case (1 schemas reached pending)
  show ?case
  proof (cases "pending = []")
    case False
    let ?i = "last pending" and ?rest = "butlast pending"
    have members: "set pending = insert ?i (set ?rest)" by (rule set_butlast_last [OF False])
    show ?thesis
    proof (cases "?i \<in> set reached")
      case True
      then have "component_closure schemas reached pending = component_closure schemas reached ?rest"
        using False by (subst component_closure.simps) (simp add: Let_def)
      moreover have "closure_inv schemas reached ?rest"
        using "1.prems" True members by (auto simp: closure_inv_def)
      ultimately show ?thesis using "1.IH"(1) [OF False refl refl True] members True by auto
    next
      case new: False
      show ?thesis
      proof (cases "map_get schemas ?i")
        case None
        then have "component_closure schemas reached pending = component_closure schemas reached ?rest"
          using False new by (subst component_closure.simps) (simp add: Let_def)
        moreover have "closure_inv schemas reached ?rest"
          using "1.prems" None members unfolding closure_inv_def by (metis Un_iff insertE)
        ultimately show ?thesis using "1.IH"(2) [OF False refl refl new None] members None by auto
      next
        case (Some c)
        let ?reached = "set_add ?i reached"
        let ?refs = "filter (\<lambda>r. r \<notin> set ?reached) (collectSchemaReferences (sm_schema c) [])"
        have "component_closure schemas reached pending = component_closure schemas ?reached (?rest @ ?refs)"
          using False new Some by (subst component_closure.simps) (simp add: Let_def)
        moreover have "closure_inv schemas ?reached (?rest @ ?refs)"
          using "1.prems" Some members by (fastforce simp: closure_inv_def)
        ultimately show ?thesis using "1.IH"(3) [OF False refl refl new Some refl] members by auto
      qed
    qed
  qed (use "1.prems" component_closure.simps [of schemas reached pending] in simp)
qed

text \<open>
  \<open>componentClosure\<close> returns exactly the components reachable from the given references.
\<close>

theorem componentClosure_reaches: "set (componentClosure ids schemas) = {i. reaches schemas (set ids) i}"
proof (intro equalityI subsetI)
  fix i assume "i \<in> set (componentClosure ids schemas)"
  then show "i \<in> {i. reaches schemas (set ids) i}"
    using component_closure_sound [of "[]" schemas "set ids" ids] reaches.start
    by (fastforce simp: componentClosure_def)
next
  fix i assume "i \<in> {i. reaches schemas (set ids) i}"
  then have "reaches schemas (set ids) i" by simp
  then show "i \<in> set (componentClosure ids schemas)"
    using component_closure_complete [of schemas "[]" ids]
    by (induction rule: reaches.induct) (auto simp: componentClosure_def closure_inv_def)
qed

section \<open>The dependency loop\<close>

definition schema_content :: "schema_map \<Rightarrow> string set \<Rightarrow> (string + string) set" where
  "schema_content schemas C =
     Inr ` C \<union> (\<Union>i \<in> C. case map_get schemas i of None \<Rightarrow> {} | Some c \<Rightarrow> Inl ` set (sm_evidence_ids c))"

lemma componentClosure_known: "i \<in> set (componentClosure ids schemas) \<Longrightarrow> \<exists>c. map_get schemas i = Some c"
  by (auto simp: componentClosure_reaches dest: reaches_known)

lemma UN_Inl_pair: "(\<Union>e \<in> E. {(i, Inl e)}) = {i} \<times> Inl ` E"
  by auto

lemma addEvidences_adds: "step_adds (each (\<lambda>e. addEvidence i e r) es) st ({i} \<times> Inl ` set es)"
  unfolding UN_Inl_pair [symmetric] by (rule each_adds) (rule addEvidence_adds)

lemma addSchemaIds_adds: "step_adds (each (addSchemaId i) es) st ({i} \<times> Inr ` set es)"
proof -
  have eq: "{i} \<times> Inr ` set es = (\<Union>e \<in> set es. {(i, Inr e)})" by auto
  show ?thesis unfolding eq by (rule each_adds) (rule addSchemaId_adds)
qed

lemma addSchemas_adds:
  "step_adds (addSchemas schemas i ids r) st ({i} \<times> schema_content schemas (set (componentClosure ids schemas)))"
proof -
  let ?A = "\<lambda>c. insert (i, Inr c) ({i} \<times> (case map_get schemas c of None \<Rightarrow> {} | Some k \<Rightarrow> Inl ` set (sm_evidence_ids k)))"
  have "step_adds (addSchemas schemas i ids r) st (\<Union>c \<in> set (componentClosure ids schemas). ?A c)"
    unfolding addSchemas_def
  proof (rule each_adds)
    fix c st'
    assume "c \<in> set (componentClosure ids schemas)"
    then obtain k where k: "map_get schemas c = Some k" using componentClosure_known by blast
    have "step_adds (then_step (addSchemaId i c)
        (\<lambda>st. case map_get schemas c of None \<Rightarrow> None
          | Some component \<Rightarrow> each (\<lambda>e. addEvidence i e r) (sm_evidence_ids component) st)) st'
        ({(i, Inr c)} \<union> {i} \<times> Inl ` set (sm_evidence_ids k))"
      by (rule then_step_adds [OF addSchemaId_adds]) (simp add: k addEvidences_adds)
    then show "step_adds (then_step (addSchemaId i c)
        (\<lambda>st. case map_get schemas c of None \<Rightarrow> None
          | Some component \<Rightarrow> each (\<lambda>e. addEvidence i e r) (sm_evidence_ids component) st)) st' (?A c)"
      by (simp add: k)
  qed
  moreover have "(\<Union>c \<in> set (componentClosure ids schemas). ?A c) =
      {i} \<times> schema_content schemas (set (componentClosure ids schemas))"
    by (auto simp: schema_content_def)
  ultimately show ?thesis by simp
qed

text \<open>What one dependency adds to what is owned.\<close>

definition dependency_adds :: "schema_map \<Rightarrow> dependency \<Rightarrow> owned_pair set \<Rightarrow> owned_pair set" where
  "dependency_adds schemas d Ow =
     (let i = dp_from_endpoint_id d; own = {i} \<times> Inl ` set (dp_evidence_ids d) in
      own \<union> (case dp_to_kind d of
          DepEvidence \<Rightarrow> {(i, Inl (dp_to_id d))}
        | DepSchema \<Rightarrow> {i} \<times> schema_content schemas (set (componentClosure [dp_to_id d] schemas))
        | DepEndpoint \<Rightarrow> {i} \<times> {x. (dp_to_id d, x) \<in> Ow \<union> own}))"

lemma dependency_adds_mono: "Ow \<subseteq> Ow' \<Longrightarrow> dependency_adds schemas d Ow \<subseteq> dependency_adds schemas d Ow'"
  by (auto simp: dependency_adds_def Let_def split: dependency_kind.splits)

lemma copyEndpoint_adds: "step_adds (copyEndpoint i j) st ({i} \<times> {x. (j, x) \<in> owned st})"
proof (cases "map_get (bu_endpoints st) j")
  case None
  then show ?thesis by (simp add: step_adds_def copyEndpoint_def)
next
  case (Some target)
  have "step_adds (then_step
      (each (\<lambda>e. addEvidence i e RouteDependencyEndpoint) (ow_evidenceIds target))
      (each (addSchemaId i) (ow_schemaIds target))) st
      ({i} \<times> Inl ` set (ow_evidenceIds target) \<union> {i} \<times> Inr ` set (ow_schemaIds target))"
    by (rule then_step_adds [OF addEvidences_adds]) (rule addSchemaIds_adds)
  moreover have "{i} \<times> Inl ` set (ow_evidenceIds target) \<union> {i} \<times> Inr ` set (ow_schemaIds target) =
      {i} \<times> {x. (j, x) \<in> owned st}"
    using Some by (auto simp: owned_def ow_content_def)
  ultimately show ?thesis using Some by (simp add: step_adds_def copyEndpoint_def)
qed

lemma applyDependency_adds: "step_adds (applyDependency schemas d) st (dependency_adds schemas d (owned st))"
proof -
  let ?i = "dp_from_endpoint_id d"
  let ?own = "{?i} \<times> Inl ` set (dp_evidence_ids d)"
  have "step_adds (applyDependency schemas d) st (?own \<union> (case dp_to_kind d of
          DepEvidence \<Rightarrow> {(?i, Inl (dp_to_id d))}
        | DepSchema \<Rightarrow> {?i} \<times> schema_content schemas (set (componentClosure [dp_to_id d] schemas))
        | DepEndpoint \<Rightarrow> {?i} \<times> {x. (dp_to_id d, x) \<in> owned st \<union> ?own}))"
    unfolding applyDependency_def
  proof (rule then_step_adds [OF addEvidences_adds])
    fix st'
    assume "owned st' = owned st \<union> ?own"
    then show "step_adds (case dp_to_kind d of
          DepEvidence \<Rightarrow> addEvidence ?i (dp_to_id d) RouteDependencyEvidence
        | DepSchema \<Rightarrow> addSchemas schemas ?i [dp_to_id d] RouteDependencySchema
        | DepEndpoint \<Rightarrow> copyEndpoint ?i (dp_to_id d)) st' (case dp_to_kind d of
          DepEvidence \<Rightarrow> {(?i, Inl (dp_to_id d))}
        | DepSchema \<Rightarrow> {?i} \<times> schema_content schemas (set (componentClosure [dp_to_id d] schemas))
        | DepEndpoint \<Rightarrow> {?i} \<times> {x. (dp_to_id d, x) \<in> owned st \<union> ?own})"
      using copyEndpoint_adds [of ?i "dp_to_id d" st']
      by (cases "dp_to_kind d") (simp_all add: addEvidence_adds addSchemas_adds)
  qed
  then show ?thesis by (simp add: dependency_adds_def Let_def)
qed

text \<open>A whole pass: it only adds, and when it adds nothing every dependency is satisfied.\<close>

lemma dependency_pass_step:
  "each (applyDependency schemas) ds st = Some (st', c) \<Longrightarrow>
   bu_keys st' = bu_keys st \<and> owned st \<subseteq> owned st' \<and> (c \<longleftrightarrow> owned st' \<noteq> owned st) \<and>
   (\<not> c \<longrightarrow> (\<forall>d \<in> set ds. dependency_adds schemas d (owned st) \<subseteq> owned st)) \<and>
   (\<forall>Ow. owned st \<subseteq> Ow \<longrightarrow> (\<forall>d \<in> set ds. dependency_adds schemas d Ow \<subseteq> Ow) \<longrightarrow> owned st' \<subseteq> Ow)"
proof (induction ds arbitrary: st c)
  case Nil
  then show ?case by auto
next
  case (Cons d ds)
  then obtain st1 c1 c2 where f: "applyDependency schemas d st = Some (st1, c1)"
    and r: "each (applyDependency schemas) ds st1 = Some (st', c2)" and c: "c = (c1 \<or> c2)"
    by (auto split: option.splits prod.splits)
  note s = step_addsD [OF applyDependency_adds f]
  note ih = Cons.IH [OF r]
  have "owned st' \<subseteq> Ow"
    if "owned st \<subseteq> Ow" "\<forall>d \<in> set (d # ds). dependency_adds schemas d Ow \<subseteq> Ow" for Ow
  proof -
    have "dependency_adds schemas d (owned st) \<subseteq> Ow"
      using that dependency_adds_mono [OF that(1), of schemas d] by auto
    then show ?thesis using ih s(2) that by auto
  qed
  moreover have "\<forall>d \<in> set (d # ds). dependency_adds schemas d (owned st) \<subseteq> owned st" if "\<not> c"
  proof -
    from that c s have "owned st1 = owned st" "dependency_adds schemas d (owned st) \<subseteq> owned st" by auto
    with that c ih show ?thesis by simp
  qed
  moreover have "bu_keys st' = bu_keys st" "owned st \<subseteq> owned st'"
    using ih s(1,2) by auto
  moreover have "c \<longleftrightarrow> owned st' \<noteq> owned st"
  proof (cases c1)
    case True
    then have "owned st1 \<noteq> owned st" using s(2,3) by auto
    moreover have "owned st \<subseteq> owned st1" "owned st1 \<subseteq> owned st'" using s(2) ih by auto
    ultimately show ?thesis using c True by auto
  next
    case False
    then have "owned st1 = owned st" using s(2,3) by auto
    with False c ih show ?thesis by simp
  qed
  ultimately show ?case by (intro conjI allI impI) simp_all
qed

lemma pass_facts:
  assumes "dependency_pass s st = Some (st', c)"
  shows "bu_keys st' = bu_keys st" "owned st \<subseteq> owned st'" "c \<longleftrightarrow> owned st' \<noteq> owned st"
    and "\<not> c \<Longrightarrow> d \<in> set (cs_dependencies s) \<Longrightarrow> dependency_adds (snapshot_schemas s) d (owned st) \<subseteq> owned st"
    and "owned st \<subseteq> Ow \<Longrightarrow> (\<And>d. d \<in> set (cs_dependencies s) \<Longrightarrow> dependency_adds (snapshot_schemas s) d Ow \<subseteq> Ow) \<Longrightarrow>
      owned st' \<subseteq> Ow"
proof -
  note p = dependency_pass_step [OF assms [unfolded dependency_pass_def]]
  show "bu_keys st' = bu_keys st" by (rule p [THEN conjunct1])
  show "owned st \<subseteq> owned st'" by (rule p [THEN conjunct2, THEN conjunct1])
  show "c \<longleftrightarrow> owned st' \<noteq> owned st" by (rule p [THEN conjunct2, THEN conjunct2, THEN conjunct1])
  from p show "\<not> c \<Longrightarrow> d \<in> set (cs_dependencies s) \<Longrightarrow> dependency_adds (snapshot_schemas s) d (owned st) \<subseteq> owned st" by simp
  from p have "\<forall>Ow. owned st \<subseteq> Ow \<longrightarrow> (\<forall>d \<in> set (cs_dependencies s). dependency_adds (snapshot_schemas s) d Ow \<subseteq> Ow) \<longrightarrow>
      owned st' \<subseteq> Ow" by (elim conjE)
  then show "owned st \<subseteq> Ow \<Longrightarrow> (\<And>d. d \<in> set (cs_dependencies s) \<Longrightarrow> dependency_adds (snapshot_schemas s) d Ow \<subseteq> Ow) \<Longrightarrow>
      owned st' \<subseteq> Ow" by blast
qed

text \<open>Pairs that the loop may still add: endpoints against everything in sight.\<close>

definition universe :: "contract_snapshot \<Rightarrow> builder \<Rightarrow> (string + string) set" where
  "universe s st = snd ` owned st \<union> (\<Union>d \<in> set (cs_dependencies s). snd ` dependency_adds (snapshot_schemas s) d {})"

lemma finite_schema_content: "finite C \<Longrightarrow> finite (schema_content schemas C)"
  by (auto simp: schema_content_def split: option.split)

lemma finite_dependency_adds: "finite Ow \<Longrightarrow> finite (dependency_adds schemas d Ow)"
proof -
  assume fin: "finite Ow"
  have slice: "finite {x. (j, x) \<in> F}" if "finite F" for j and F :: "owned_pair set"
    by (rule finite_subset [of _ "snd ` F"]) (use that in force)+
  have "finite {x. (dp_to_id d, x) \<in> Ow \<union> {dp_from_endpoint_id d} \<times> Inl ` set (dp_evidence_ids d)}"
    by (rule slice) (use fin in simp)
  then show ?thesis
    by (cases "dp_to_kind d") (simp_all add: dependency_adds_def Let_def finite_schema_content)
qed

lemma finite_universe: "finite (universe s st)"
  unfolding universe_def by (intro finite_UnI finite_UN_I finite_imageI finite_owned finite_dependency_adds) auto

lemma dependency_adds_universe:
  "snd ` dependency_adds schemas d Ow \<subseteq> snd ` Ow \<union> snd ` dependency_adds schemas d {}"
proof
  fix x assume "x \<in> snd ` dependency_adds schemas d Ow"
  then obtain i where "(i, x) \<in> dependency_adds schemas d Ow" by force
  then have "(i, x) \<in> dependency_adds schemas d {} \<or> (\<exists>j. (j, x) \<in> Ow)"
    by (cases "dp_to_kind d") (auto simp: dependency_adds_def Let_def)
  then show "x \<in> snd ` Ow \<union> snd ` dependency_adds schemas d {}" by force
qed

lemma pass_universe:
  assumes "dependency_pass s st = Some (st', c)"
  shows "universe s st' \<subseteq> universe s st"
proof -
  let ?Ow = "UNIV \<times> universe s st"
  have "snd ` owned st \<subseteq> universe s st" by (simp add: universe_def)
  then have "owned st \<subseteq> ?Ow" by (auto simp: image_subset_iff mem_Times_iff)
  moreover have "dependency_adds (snapshot_schemas s) d ?Ow \<subseteq> ?Ow" if "d \<in> set (cs_dependencies s)" for d
  proof -
    have img: "snd ` ?Ow = universe s st" by simp
    have "snd ` dependency_adds (snapshot_schemas s) d {} \<subseteq> universe s st"
      using that unfolding universe_def by blast
    with dependency_adds_universe [of "snapshot_schemas s" d ?Ow]
    have "snd ` dependency_adds (snapshot_schemas s) d ?Ow \<subseteq> universe s st"
      unfolding img by (rule subset_trans [OF _ Un_least [OF subset_refl]])
    then show ?thesis by (simp add: image_subset_iff mem_Times_iff subset_iff)
  qed
  ultimately have "owned st' \<subseteq> ?Ow" by (rule pass_facts(5) [OF assms])
  then have "snd ` owned st' \<subseteq> universe s st" by auto
  then show ?thesis unfolding universe_def [of s st'] by (simp add: universe_def [of s st])
qed

definition missing :: "contract_snapshot \<Rightarrow> builder \<Rightarrow> owned_pair set" where
  "missing s st = set (bu_keys st) \<times> universe s st - owned st"

lemma pass_decreases:
  assumes "dependency_pass s st = Some (st', True)"
  shows "card (missing s st') < card (missing s st)"
proof (rule psubset_card_mono)
  show "finite (missing s st)" by (simp add: missing_def finite_universe bu_keys_def)
  have p: "bu_keys st' = bu_keys st" "owned st \<subseteq> owned st'" "owned st' \<noteq> owned st"
    using pass_facts(1-3) [OF assms] by simp_all
  then obtain q where q: "q \<in> owned st'" "q \<notin> owned st" by blast
  have "snd q \<in> universe s st'" using q(1) by (simp add: universe_def)
  moreover have "fst q \<in> set (bu_keys st)" using q(1) owned_keys [of st'] p(1) by auto
  ultimately have "q \<in> missing s st" "q \<notin> missing s st'"
    using q pass_universe [OF assms] by (auto simp: missing_def mem_Times_iff)
  moreover have "missing s st' \<subseteq> missing s st"
    using p pass_universe [OF assms] by (auto simp: missing_def)
  ultimately show "missing s st' \<subset> missing s st" by blast
qed

text \<open>\<open>while (changed)\<close>.\<close>

function ownership_loop :: "contract_snapshot \<Rightarrow> builder \<Rightarrow> builder option" where
  "ownership_loop s st =
     (case dependency_pass s st of
        None \<Rightarrow> None
      | Some (st', changed) \<Rightarrow> (if changed then ownership_loop s st' else Some st'))"
  by pat_completeness auto
termination
  by (relation "measure (\<lambda>(s, st). card (missing s st))") (auto simp: pass_decreases)

declare ownership_loop.simps [simp del]

section \<open>The index\<close>

record ownership_index =
  oi_endpointIds :: "string list"
  oi_evidenceOwners :: "(string, string list) jmap"
  oi_schemaOwners :: "(string, string list) jmap"
  oi_evidenceOwnerRoutes :: route_map
  oi_endpointOwnership :: "(string, ownership) jmap"

definition add_owner :: "string \<times> string \<Rightarrow> (string, string list) jmap \<Rightarrow> (string, string list) jmap" where
  "add_owner p owners = map_set (fst p) (set_add (snd p) (map_get_or [] owners (fst p))) owners"

definition owner_map :: "(ownership \<Rightarrow> string list) \<Rightarrow> (string, ownership) jmap \<Rightarrow> (string, string list) jmap" where
  "owner_map ids endpoints =
     foldl (\<lambda>owners p. add_owner p owners) []
       (concat_map (\<lambda>(endpointId, ownership). map (\<lambda>i. (i, endpointId)) (ids ownership)) endpoints)"

definition buildEndpointOwnershipIndex :: "contract_snapshot \<Rightarrow> ownership_index option" where
  "buildEndpointOwnershipIndex s =
     (case initial_ownership s of None \<Rightarrow> None
      | Some start \<Rightarrow> (case ownership_loop s start of None \<Rightarrow> None
        | Some st \<Rightarrow> Some
            \<lparr>oi_endpointIds = js_sort compareUtf8 (map_keys (bu_endpoints st)),
             oi_evidenceOwners = owner_map ow_evidenceIds (bu_endpoints st),
             oi_schemaOwners = owner_map ow_schemaIds (bu_endpoints st),
             oi_evidenceOwnerRoutes = bu_routes st,
             oi_endpointOwnership = bu_endpoints st\<rparr>))"

section \<open>The ownership relation\<close>

definition endpoint_pairs :: "contract_snapshot \<Rightarrow> endpoint \<Rightarrow> owned_pair set" where
  "endpoint_pairs s e = {ep_endpoint_id e} \<times>
     (Inl ` (set (ep_evidence_ids e) \<union>
        (\<Union>p \<in> set (ep_parameters e). set (pr_evidence_ids (pm_presence p))) \<union>
        (\<Union>b \<in> set (ep_request_bodies e). set (pr_evidence_ids (rb_presence b)))) \<union>
      schema_content (snapshot_schemas s) (set (componentClosure (endpointSchemaReferences e) (snapshot_schemas s))))"

definition claim_pairs :: "contract_snapshot \<Rightarrow> claim \<Rightarrow> owned_pair set" where
  "claim_pairs s c =
     (case cj_endpoint_id (cl_subject c) of None \<Rightarrow> {}
      | Some i \<Rightarrow> {i} \<times> Inl ` (set (cl_evidence_ids c) \<union> set (eligibleEvidence s c)))"

definition scope_pairs :: "evidence \<Rightarrow> owned_pair set" where
  "scope_pairs e = (case es_endpoint_id (ev_scope e) of None \<Rightarrow> {} | Some i \<Rightarrow> {(i, Inl (ev_evidence_id e))})"

definition initial_pairs :: "contract_snapshot \<Rightarrow> owned_pair set" where
  "initial_pairs s =
     (\<Union>e \<in> set (cs_endpoints s). endpoint_pairs s e) \<union> (\<Union>c \<in> set (cs_claims s). claim_pairs s c) \<union>
     (\<Union>e \<in> set (cs_evidence s). scope_pairs e)"

text \<open>An endpoint owns what it declares and what its dependencies give it, transitively.\<close>

inductive_set owns :: "contract_snapshot \<Rightarrow> owned_pair set" for s where
  declared: "p \<in> initial_pairs s \<Longrightarrow> p \<in> owns s"
| depends: "d \<in> set (cs_dependencies s) \<Longrightarrow> p \<in> dependency_adds (snapshot_schemas s) d {} \<Longrightarrow> p \<in> owns s"
| inherits: "d \<in> set (cs_dependencies s) \<Longrightarrow> dp_to_kind d = DepEndpoint \<Longrightarrow> (dp_to_id d, x) \<in> owns s \<Longrightarrow>
    (dp_from_endpoint_id d, x) \<in> owns s"

lemma dependency_adds_split:
  "dependency_adds schemas d Ow = dependency_adds schemas d {} \<union>
     (if dp_to_kind d = DepEndpoint then {dp_from_endpoint_id d} \<times> {x. (dp_to_id d, x) \<in> Ow} else {})"
  by (cases "dp_to_kind d") (auto simp: dependency_adds_def Let_def)

lemma owns_closed:
  assumes "d \<in> set (cs_dependencies s)"
  shows "dependency_adds (snapshot_schemas s) d (owns s) \<subseteq> owns s"
proof -
  have "dependency_adds (snapshot_schemas s) d {} \<subseteq> owns s"
    using owns.depends [OF assms] by blast
  moreover have "{dp_from_endpoint_id d} \<times> {x. (dp_to_id d, x) \<in> owns s} \<subseteq> owns s" if "dp_to_kind d = DepEndpoint"
    using owns.inherits [OF assms that] by blast
  ultimately show ?thesis
    unfolding dependency_adds_split [of _ d "owns s"] by (auto split: if_splits)
qed

lemma owns_least:
  assumes "initial_pairs s \<subseteq> Ow" "\<And>d. d \<in> set (cs_dependencies s) \<Longrightarrow> dependency_adds (snapshot_schemas s) d Ow \<subseteq> Ow"
  shows "owns s \<subseteq> Ow"
proof
  fix p assume "p \<in> owns s"
  then show "p \<in> Ow"
  proof (induction rule: owns.induct)
    case (depends d p)
    then show ?case using assms(2) [of d] unfolding dependency_adds_split [of _ d Ow] by blast
  next
    case (inherits d x)
    then show ?case using assms(2) [of d] unfolding dependency_adds_split [of _ d Ow] by (simp add: subset_iff)
  qed (use assms(1) in blast)
qed

lemma ownership_loop_keys: "ownership_loop s st = Some st' \<Longrightarrow> bu_keys st' = bu_keys st \<and> owned st \<subseteq> owned st' \<and>
    (\<forall>d \<in> set (cs_dependencies s). dependency_adds (snapshot_schemas s) d (owned st') \<subseteq> owned st') \<and>
    (owned st \<subseteq> owns s \<longrightarrow> owned st' \<subseteq> owns s)"
proof (induction s st rule: ownership_loop.induct)
  case (1 s st)
  obtain st1 c where pass: "dependency_pass s st = Some (st1, c)"
    and rest: "(if c then ownership_loop s st1 else Some st1) = Some st'"
    using "1.prems" by (subst (asm) ownership_loop.simps) (auto split: option.splits prod.splits)
  note p = pass_facts [OF pass]
  have least: "owned st1 \<subseteq> owns s" if "owned st \<subseteq> owns s"
    by (rule p(5) [OF that]) (rule owns_closed)
  show ?case
  proof (cases c)
    case True
    then have ih: "bu_keys st' = bu_keys st1 \<and> owned st1 \<subseteq> owned st' \<and>
      (\<forall>d \<in> set (cs_dependencies s). dependency_adds (snapshot_schemas s) d (owned st') \<subseteq> owned st') \<and>
      (owned st1 \<subseteq> owns s \<longrightarrow> owned st' \<subseteq> owns s)"
      using "1.IH" [OF pass refl] rest by simp
    then show ?thesis using p(1,2) least by auto
  next
    case False
    then have "st' = st1" "owned st1 = owned st" using rest p(3) by auto
    with p(1,4) False least show ?thesis by auto
  qed
qed

section \<open>The index is the relation\<close>

lemma addEndpoint_adds:
  assumes "addEndpoint s e st = Some (st', c)" "ep_endpoint_id e \<notin> set (bu_keys st)"
  shows "bu_keys st' = bu_keys st @ [ep_endpoint_id e]" "owned st' = owned st \<union> endpoint_pairs s e"
proof -
  let ?i = "ep_endpoint_id e"
  define st0 where "st0 = st\<lparr>bu_endpoints := map_set ?i \<lparr>ow_evidenceIds = [], ow_schemaIds = []\<rparr> (bu_endpoints st)\<rparr>"
  have new: "map_get (bu_endpoints st) ?i = None" using assms(2) by (simp add: bu_keys_def map_of_eq_None_iff)
  have keys0: "bu_keys st0 = bu_keys st @ [?i]" using assms(2) by (simp add: st0_def bu_keys_def update_keys)
  have owned0: "owned st0 = owned st"
    using new by (auto simp: owned_def st0_def ow_content_def split: if_splits)
  let ?f1 = "each (\<lambda>ev. addEvidence ?i ev RouteEndpoint) (ep_evidence_ids e)"
  let ?f2 = "each (\<lambda>p. each (\<lambda>ev. addEvidence ?i ev RouteParameterPresence) (pr_evidence_ids (pm_presence p))) (ep_parameters e)"
  let ?f3 = "each (\<lambda>b. each (\<lambda>ev. addEvidence ?i ev RouteRequestBodyPresence) (pr_evidence_ids (rb_presence b))) (ep_request_bodies e)"
  let ?f4 = "addSchemas (snapshot_schemas s) ?i (endpointSchemaReferences e) RouteSchema"
  let ?A1 = "{?i} \<times> Inl ` set (ep_evidence_ids e)"
  let ?A2 = "\<Union>p \<in> set (ep_parameters e). {?i} \<times> Inl ` set (pr_evidence_ids (pm_presence p))"
  let ?A3 = "\<Union>b \<in> set (ep_request_bodies e). {?i} \<times> Inl ` set (pr_evidence_ids (rb_presence b))"
  let ?A4 = "{?i} \<times> schema_content (snapshot_schemas s) (set (componentClosure (endpointSchemaReferences e) (snapshot_schemas s)))"
  have adds: "step_adds ?f1 st ?A1" "step_adds ?f2 st ?A2" "step_adds ?f3 st ?A3" "step_adds ?f4 st ?A4" for st
    by (rule addEvidences_adds addSchemas_adds each_adds)+
  from assms(1) obtain st1 c1 st2 c2 st3 c3 c4 where
    runs: "?f1 st0 = Some (st1, c1)" "?f2 st1 = Some (st2, c2)" "?f3 st2 = Some (st3, c3)" "?f4 st3 = Some (st', c4)"
    unfolding addEndpoint_def Let_def st0_def [symmetric] by (auto split: option.splits prod.splits)
  note s = step_addsD [OF adds(1) runs(1)] step_addsD [OF adds(2) runs(2)] step_addsD [OF adds(3) runs(3)] step_addsD [OF adds(4) runs(4)]
  show "bu_keys st' = bu_keys st @ [?i]" using s keys0 by simp
  have "endpoint_pairs s e = ?A1 \<union> ?A2 \<union> ?A3 \<union> ?A4" by (auto simp: endpoint_pairs_def)
  then show "owned st' = owned st \<union> endpoint_pairs s e" using s owned0 by (simp add: Un_assoc)
qed

lemma addEndpoints_adds:
  "each (addEndpoint s) es st = Some (st', c) \<Longrightarrow> distinct (bu_keys st @ map ep_endpoint_id es) \<Longrightarrow>
   bu_keys st' = bu_keys st @ map ep_endpoint_id es \<and> owned st' = owned st \<union> (\<Union>e \<in> set es. endpoint_pairs s e)"
proof (induction es arbitrary: st c)
  case (Cons e es)
  then obtain st1 c1 c2 where f: "addEndpoint s e st = Some (st1, c1)" and r: "each (addEndpoint s) es st1 = Some (st', c2)"
    by (auto split: option.splits prod.splits)
  have "ep_endpoint_id e \<notin> set (bu_keys st)" using Cons.prems(2) by simp
  note s = addEndpoint_adds [OF f this]
  have "distinct (bu_keys st1 @ map ep_endpoint_id es)" using Cons.prems(2) s(1) by simp
  from Cons.IH [OF r this] s show ?case by auto
qed simp

lemma addClaim_adds: "step_adds (addClaim s c) st (claim_pairs s c)"
proof (cases "cj_endpoint_id (cl_subject c)")
  case None
  then show ?thesis by (simp add: step_adds_def addClaim_def claim_pairs_def)
next
  case (Some i)
  have "step_adds (then_step (each (\<lambda>e. addEvidence i e RouteClaim) (cl_evidence_ids c))
      (each (\<lambda>e. addEvidence i e RouteEligibility) (eligibleEvidence s c))) st
      ({i} \<times> Inl ` set (cl_evidence_ids c) \<union> {i} \<times> Inl ` set (eligibleEvidence s c))"
    by (rule then_step_adds [OF addEvidences_adds]) (rule addEvidences_adds)
  moreover have "claim_pairs s c = {i} \<times> Inl ` set (cl_evidence_ids c) \<union> {i} \<times> Inl ` set (eligibleEvidence s c)"
    using Some by (auto simp: claim_pairs_def)
  ultimately show ?thesis using Some by (simp add: step_adds_def addClaim_def)
qed

lemma addScopedEvidence_adds: "step_adds (addScopedEvidence e) st (scope_pairs e)"
  using addEvidence_adds [of _ "ev_evidence_id e" RouteEvidenceScope st]
  by (cases "es_endpoint_id (ev_scope e)") (simp_all add: step_adds_def addScopedEvidence_def scope_pairs_def)

lemma initial_ownership_adds:
  assumes "initial_ownership s = Some st" "distinct (map ep_endpoint_id (cs_endpoints s))"
  shows "bu_keys st = map ep_endpoint_id (cs_endpoints s)" "owned st = initial_pairs s"
proof -
  let ?st0 = "\<lparr>bu_endpoints = [], bu_routes = []\<rparr> :: builder"
  from assms(1) obtain st1 c1 st2 c2 c3 where
    runs: "each (addEndpoint s) (cs_endpoints s) ?st0 = Some (st1, c1)"
      "each (addClaim s) (cs_claims s) st1 = Some (st2, c2)" "each addScopedEvidence (cs_evidence s) st2 = Some (st, c3)"
    by (auto simp: initial_ownership_def split: option.splits prod.splits)
  have st0: "bu_keys ?st0 = []" "owned ?st0 = {}" by (auto simp: bu_keys_def owned_def)
  have s1: "bu_keys st1 = map ep_endpoint_id (cs_endpoints s)" "owned st1 = (\<Union>e \<in> set (cs_endpoints s). endpoint_pairs s e)"
    using addEndpoints_adds [OF runs(1)] assms(2) st0 by simp_all
  have s2: "step_adds (each (addClaim s) (cs_claims s)) st1 (\<Union>c \<in> set (cs_claims s). claim_pairs s c)"
    by (rule each_adds) (rule addClaim_adds)
  have s3: "step_adds (each addScopedEvidence (cs_evidence s)) st2 (\<Union>e \<in> set (cs_evidence s). scope_pairs e)"
    by (rule each_adds) (rule addScopedEvidence_adds)
  show "bu_keys st = map ep_endpoint_id (cs_endpoints s)" "owned st = initial_pairs s"
    using s1 step_addsD [OF s2 runs(2)] step_addsD [OF s3 runs(3)] by (simp_all add: initial_pairs_def)
qed

section \<open>No dereference fails on a closed snapshot\<close>

lemma defined_then_step:
  assumes "defined_for K f" "defined_for K g" "\<And>st. step_adds f st (A st)"
  shows "defined_for K (then_step f g)"
proof -
  have "then_step f g st \<noteq> None" if "K \<subseteq> set (bu_keys st)" for st
  proof (cases "f st")
    case (Some p)
    then obtain st' c where p: "f st = Some (st', c)" by (cases p) auto
    then have "bu_keys st' = bu_keys st" using step_addsD(1) [OF assms(3)] by blast
    with that assms(2) p show ?thesis by (auto simp: then_step_eq defined_for_def split: option.split)
  qed (use assms(1) that in \<open>auto simp: defined_for_def\<close>)
  then show ?thesis by (simp add: defined_for_def)
qed

lemma defined_evidences: "i \<in> K \<Longrightarrow> defined_for K (each (\<lambda>e. addEvidence i e r) es)"
  by (rule defined_each [OF defined_addEvidence addEvidence_adds])

lemma defined_addSchemas: "i \<in> K \<Longrightarrow> defined_for K (addSchemas schemas i ids r)"
  unfolding addSchemas_def
proof (rule defined_each [where A = "\<lambda>c st. insert (i, Inr c) ({i} \<times>
    (case map_get schemas c of None \<Rightarrow> {} | Some k \<Rightarrow> Inl ` set (sm_evidence_ids k)))"])
  fix c st
  assume i: "i \<in> K" and "c \<in> set (componentClosure ids schemas)"
  then obtain k where k: "map_get schemas c = Some k" using componentClosure_known by blast
  show "defined_for K (then_step (addSchemaId i c) (\<lambda>st. case map_get schemas c of None \<Rightarrow> None
      | Some component \<Rightarrow> each (\<lambda>e. addEvidence i e r) (sm_evidence_ids component) st))"
    using defined_then_step [OF defined_addSchemaId [OF i] defined_evidences [OF i] addSchemaId_adds] k by simp
  show "step_adds (then_step (addSchemaId i c) (\<lambda>st. case map_get schemas c of None \<Rightarrow> None
      | Some component \<Rightarrow> each (\<lambda>e. addEvidence i e r) (sm_evidence_ids component) st)) st
      (insert (i, Inr c) ({i} \<times> (case map_get schemas c of None \<Rightarrow> {} | Some k \<Rightarrow> Inl ` set (sm_evidence_ids k))))"
  proof -
    have "step_adds (then_step (addSchemaId i c) (each (\<lambda>e. addEvidence i e r) (sm_evidence_ids k))) st
        ({(i, Inr c)} \<union> {i} \<times> Inl ` set (sm_evidence_ids k))"
      by (rule then_step_adds [OF addSchemaId_adds addEvidences_adds])
    with k show ?thesis by simp
  qed
qed

lemma defined_copyEndpoint: "i \<in> K \<Longrightarrow> j \<in> K \<Longrightarrow> defined_for K (copyEndpoint i j)"
proof -
  assume i: "i \<in> K" and j: "j \<in> K"
  have "copyEndpoint i j st \<noteq> None" if K: "K \<subseteq> set (bu_keys st)" for st
  proof -
    obtain target where t: "map_get (bu_endpoints st) j = Some target"
      using j K by (cases "map_get (bu_endpoints st) j") (auto simp: bu_keys_def map_of_eq_None_iff)
    have "defined_for K (then_step
        (each (\<lambda>e. addEvidence i e RouteDependencyEndpoint) (ow_evidenceIds target))
        (each (addSchemaId i) (ow_schemaIds target)))"
      by (rule defined_then_step [OF defined_evidences [OF i] defined_each [OF defined_addSchemaId [OF i] addSchemaId_adds]
          addEvidences_adds])
    then show ?thesis using K t by (simp add: copyEndpoint_def defined_for_def)
  qed
  then show ?thesis by (simp add: defined_for_def)
qed

lemma defined_applyDependency:
  assumes "dp_from_endpoint_id d \<in> K" "dp_to_kind d = DepEndpoint \<Longrightarrow> dp_to_id d \<in> K"
  shows "defined_for K (applyDependency schemas d)"
  unfolding applyDependency_def
  by (rule defined_then_step [OF defined_evidences [OF assms(1)] _ addEvidences_adds])
    (use assms in \<open>auto simp: defined_addEvidence defined_addSchemas defined_copyEndpoint split: dependency_kind.split\<close>)

lemma defined_evidences_of: "i \<in> K \<Longrightarrow> defined_for K (each (\<lambda>x. each (\<lambda>e. addEvidence i e r) (f x)) xs)"
  by (rule defined_each [OF defined_evidences addEvidences_adds])

lemma evidences_of_adds:
  "step_adds (each (\<lambda>x. each (\<lambda>e. addEvidence i e r) (f x)) xs) st (\<Union>x \<in> set xs. {i} \<times> Inl ` set (f x))"
  by (rule each_adds) (rule addEvidences_adds)

lemma addEndpoint_defined: "addEndpoint s e st \<noteq> None"
proof -
  let ?i = "ep_endpoint_id e"
  let ?st = "st\<lparr>bu_endpoints := map_set ?i \<lparr>ow_evidenceIds = [], ow_schemaIds = []\<rparr> (bu_endpoints st)\<rparr>"
  let ?fs = "[each (\<lambda>ev. addEvidence ?i ev RouteEndpoint) (ep_evidence_ids e),
      each (\<lambda>p. each (\<lambda>ev. addEvidence ?i ev RouteParameterPresence) (pr_evidence_ids (pm_presence p))) (ep_parameters e),
      each (\<lambda>b. each (\<lambda>ev. addEvidence ?i ev RouteRequestBodyPresence) (pr_evidence_ids (rb_presence b))) (ep_request_bodies e),
      addSchemas (snapshot_schemas s) ?i (endpointSchemaReferences e) RouteSchema]"
  have d: "defined_for {?i} h" if "h \<in> set ?fs" for h
    using that defined_evidences [of ?i "{?i}"] defined_evidences_of [of ?i "{?i}"] defined_addSchemas [of ?i "{?i}"]
    by (simp; elim disjE; simp)
  have a: "\<exists>A. step_adds h st A" if "h \<in> set ?fs" for h st
    using that by (simp; elim disjE; simp) (rule exI, rule addEvidences_adds addSchemas_adds evidences_of_adds)+

  have "defined_for {?i} (each (\<lambda>h. h) ?fs)"
    by (rule defined_each [where A = "\<lambda>h st. SOME A. step_adds h st A"]) (use d in blast, rule someI_ex, rule a)
  moreover have "?i \<in> set (bu_keys ?st)" by (simp add: bu_keys_def)
  ultimately show ?thesis unfolding addEndpoint_def Let_def defined_for_def by blast
qed

lemma each_defined: "(\<And>x st. x \<in> set xs \<Longrightarrow> f x st \<noteq> None) \<Longrightarrow> each f xs st \<noteq> None"
proof (induction xs arbitrary: st)
  case (Cons x xs)
  have "each f xs st' \<noteq> None" for st' by (rule Cons.IH) (simp add: Cons.prems)
  moreover obtain st' c where "f x st = Some (st', c)" using Cons.prems [of x st] by fastforce
  ultimately show ?case by (auto split: option.split)
qed simp

lemma each_addEndpoint_defined: "each (addEndpoint s) es st \<noteq> None"
  by (rule each_defined) (rule addEndpoint_defined)

lemma initial_ownership_defined:
  assumes "closed_snapshot s"
  shows "initial_ownership s \<noteq> None"
proof -
  let ?st0 = "\<lparr>bu_endpoints = [], bu_routes = []\<rparr> :: builder"
  let ?K = "set (map ep_endpoint_id (cs_endpoints s))"
  obtain st1 c1 where r1: "each (addEndpoint s) (cs_endpoints s) ?st0 = Some (st1, c1)"
    using each_addEndpoint_defined [of s "cs_endpoints s" ?st0] by (cases "each (addEndpoint s) (cs_endpoints s) ?st0") auto
  then have k1: "set (bu_keys st1) = ?K"
    using addEndpoints_adds [OF r1] assms by (simp add: closed_snapshot_def bu_keys_def)
  have "defined_for ?K (addClaim s c)" if "c \<in> set (cs_claims s)" for c
  proof (cases "cj_endpoint_id (cl_subject c)")
    case (Some i)
    then have "i \<in> ?K" using assms that by (auto simp: closed_snapshot_def endpointIds_def)
    then have "defined_for ?K (then_step (each (\<lambda>e. addEvidence i e RouteClaim) (cl_evidence_ids c))
        (each (\<lambda>e. addEvidence i e RouteEligibility) (eligibleEvidence s c)))"
      by (intro defined_then_step [OF defined_evidences defined_evidences addEvidences_adds])
    with Some show ?thesis by (simp add: addClaim_def defined_for_def)
  qed (simp add: addClaim_def defined_for_def)
  then have "defined_for ?K (each (addClaim s) (cs_claims s))" by (rule defined_each [OF _ addClaim_adds])
  then obtain st2 c2 where r2: "each (addClaim s) (cs_claims s) st1 = Some (st2, c2)"
    using k1 by (fastforce simp: defined_for_def)
  have "step_adds (each (addClaim s) (cs_claims s)) st1 (\<Union>c \<in> set (cs_claims s). claim_pairs s c)"
    by (rule each_adds) (rule addClaim_adds)
  from step_addsD(1) [OF this r2] k1 have k2: "set (bu_keys st2) = ?K" by simp
  have "defined_for ?K (addScopedEvidence e)" if "e \<in> set (cs_evidence s)" for e
  proof (cases "es_endpoint_id (ev_scope e)")
    case (Some i)
    then have "i \<in> ?K" using assms that by (auto simp: closed_snapshot_def endpointIds_def)
    with Some defined_addEvidence show ?thesis by (simp add: addScopedEvidence_def defined_for_def)
  qed (simp add: addScopedEvidence_def defined_for_def)
  then have "defined_for ?K (each addScopedEvidence (cs_evidence s))" by (rule defined_each [OF _ addScopedEvidence_adds])
  then obtain st3 c3 where "each addScopedEvidence (cs_evidence s) st2 = Some (st3, c3)"
    using k2 by (fastforce simp: defined_for_def)
  with r1 r2 show ?thesis by (simp add: initial_ownership_def)
qed

lemma ownership_loop_defined:
  "closed_snapshot s \<Longrightarrow> set (bu_keys st) = set (map ep_endpoint_id (cs_endpoints s)) \<Longrightarrow> ownership_loop s st \<noteq> None"
proof (induction s st rule: ownership_loop.induct)
  case (1 s st)
  let ?K = "set (map ep_endpoint_id (cs_endpoints s))"
  have "defined_for ?K (applyDependency (snapshot_schemas s) d)" if "d \<in> set (cs_dependencies s)" for d
    using "1.prems"(1) that
    by (intro defined_applyDependency) (auto simp: closed_snapshot_def dependencyTargetExists_def endpointIds_def)
  then have "defined_for ?K (dependency_pass s)"
    unfolding dependency_pass_def by (rule defined_each [OF _ applyDependency_adds])
  then obtain st' c where pass: "dependency_pass s st = Some (st', c)"
    using "1.prems"(2) by (fastforce simp: defined_for_def)
  have "ownership_loop s st' \<noteq> None" if c
    using that pass_facts(1) [OF pass] "1.prems" by (intro "1.IH" [OF pass refl]) auto
  with pass show ?case by (subst ownership_loop.simps) simp
qed

lemma add_owner_get:
  "i \<in> set (map_get_or [] (add_owner p m) x) \<longleftrightarrow> i \<in> set (map_get_or [] m x) \<or> p = (x, i)"
  by (cases p) (auto simp: add_owner_def)

lemma fold_add_owner_get:
  "i \<in> set (map_get_or [] (foldl (\<lambda>owners p. add_owner p owners) m ps) x) \<longleftrightarrow>
   i \<in> set (map_get_or [] m x) \<or> (x, i) \<in> set ps"
  by (induction ps arbitrary: m) (auto simp: add_owner_get)

lemma owner_map_get:
  "i \<in> set (map_get_or [] (owner_map ids endpoints) x) \<longleftrightarrow> (\<exists>ow. (i, ow) \<in> set endpoints \<and> x \<in> set (ids ow))"
  by (auto simp: owner_map_def fold_add_owner_get) (auto simp: map_get_or_def)

lemma ownership_index_facts:
  assumes "closed_snapshot s"
  shows "\<exists>ix. buildEndpointOwnershipIndex s = Some ix \<and>
      oi_endpointIds ix = sort (map ep_endpoint_id (cs_endpoints s)) \<and>
      (\<forall>i e. i \<in> set (map_get_or [] (oi_evidenceOwners ix) e) \<longleftrightarrow> (i, Inl e) \<in> owns s) \<and>
      (\<forall>i c. i \<in> set (map_get_or [] (oi_schemaOwners ix) c) \<longleftrightarrow> (i, Inr c) \<in> owns s) \<and>
      map_keys (oi_endpointOwnership ix) = map ep_endpoint_id (cs_endpoints s) \<and>
      (\<forall>i ow e. map_get (oi_endpointOwnership ix) i = Some ow \<longrightarrow> e \<in> set (ow_evidenceIds ow) \<longleftrightarrow> (i, Inl e) \<in> owns s) \<and>
      owns s \<subseteq> set (map ep_endpoint_id (cs_endpoints s)) \<times> UNIV"
proof -
  have ids: "distinct (map ep_endpoint_id (cs_endpoints s))" using assms by (simp add: closed_snapshot_def)
  obtain start where start: "initial_ownership s = Some start" using initial_ownership_defined [OF assms] by blast
  note start_facts = initial_ownership_adds [OF start ids]
  obtain st where st: "ownership_loop s start = Some st"
    using ownership_loop_defined [OF assms, of start] start_facts by auto
  note loop = ownership_loop_keys [OF st]
  have keys: "bu_keys st = map ep_endpoint_id (cs_endpoints s)" using loop start_facts by simp
  have "initial_pairs s \<subseteq> owns s" using owns.declared by blast
  then have st_owns: "owned st = owns s"
    using loop start_facts owns_least [of s "owned st"] by (intro equalityI) auto
  have "(i, ow) \<in> set (bu_endpoints st) \<longleftrightarrow> map_get (bu_endpoints st) i = Some ow" for i ow
    using keys ids by (simp add: bu_keys_def)
  moreover have "(\<exists>ow. map_get (bu_endpoints st) i = Some ow \<and> e \<in> set (ow_evidenceIds ow)) \<longleftrightarrow> (i, Inl e) \<in> owned st"
    "(\<exists>ow. map_get (bu_endpoints st) i = Some ow \<and> e \<in> set (ow_schemaIds ow)) \<longleftrightarrow> (i, Inr e) \<in> owned st" for i e
    by (auto simp: owned_def ow_content_def)
  ultimately have own: "(\<exists>ow. (i, ow) \<in> set (bu_endpoints st) \<and> e \<in> set (ow_evidenceIds ow)) \<longleftrightarrow> (i, Inl e) \<in> owns s"
    "(\<exists>ow. (i, ow) \<in> set (bu_endpoints st) \<and> e \<in> set (ow_schemaIds ow)) \<longleftrightarrow> (i, Inr e) \<in> owns s" for i e
    unfolding st_owns by simp_all
  have "js_sort compareUtf8 (map_keys (bu_endpoints st)) = sort (map ep_endpoint_id (cs_endpoints s))"
    using keys by (simp add: js_sort_compareUtf8 bu_keys_def)
  moreover have "owns s \<subseteq> set (map ep_endpoint_id (cs_endpoints s)) \<times> UNIV"
    using owned_keys [of st] by (simp only: keys st_owns)
  moreover have "e \<in> set (ow_evidenceIds ow) \<longleftrightarrow> (i, Inl e) \<in> owns s" if "map_get (bu_endpoints st) i = Some ow" for i ow e
    using that by (auto simp: st_owns [symmetric] owned_def ow_content_def)
  ultimately show ?thesis
    using start st own keys by (simp add: buildEndpointOwnershipIndex_def owner_map_get bu_keys_def)
qed

text \<open>
  C9: On a snapshot the validator accepts, the ownership index always exists: the dependency
  loop terminates and dereferences no unknown endpoint. It lists the endpoints in order, and an
  evidence or component is owned by an endpoint exactly when it follows from what the endpoint
  declares and from the dependencies, transitively.
\<close>

theorem ownership_index_correct:
  assumes "closed_snapshot s"
  shows "\<exists>ix. buildEndpointOwnershipIndex s = Some ix \<and>
      oi_endpointIds ix = sort (map ep_endpoint_id (cs_endpoints s)) \<and>
      (\<forall>i e. i \<in> set (map_get_or [] (oi_evidenceOwners ix) e) \<longleftrightarrow> (i, Inl e) \<in> owns s) \<and>
      (\<forall>i c. i \<in> set (map_get_or [] (oi_schemaOwners ix) c) \<longleftrightarrow> (i, Inr c) \<in> owns s)"
  using ownership_index_facts [OF assms] by blast

lemma sample_snapshot_closed: "closed_snapshot sample_snapshot"
  by (rule validated_closed [OF sample_snapshot_valid])

theorem ownership_index_correct_witness:
  "\<exists>ix. buildEndpointOwnershipIndex sample_snapshot = Some ix \<and>
      oi_endpointIds ix = sort (map ep_endpoint_id (cs_endpoints sample_snapshot)) \<and>
      (\<forall>i e. i \<in> set (map_get_or [] (oi_evidenceOwners ix) e) \<longleftrightarrow> (i, Inl e) \<in> owns sample_snapshot) \<and>
      (\<forall>i c. i \<in> set (map_get_or [] (oi_schemaOwners ix) c) \<longleftrightarrow> (i, Inr c) \<in> owns sample_snapshot)"
  by (rule ownership_index_correct [OF sample_snapshot_closed])

section \<open>The contract of an ownership builder\<close>

text \<open>
  What \<open>createUpdatePlanner\<close> relies on when it is given a builder: on a closed snapshot the
  builder returns an index of exactly the snapshot's endpoints, and the index is the ownership
  relation.
\<close>

locale ownership_builder =
  fixes build :: "contract_snapshot \<Rightarrow> ownership_index option"
  assumes build_defined: "closed_snapshot s \<Longrightarrow> \<exists>ix. build s = Some ix"
    and index_endpoints: "closed_snapshot s \<Longrightarrow> build s = Some ix \<Longrightarrow>
      oi_endpointIds ix = sort (map ep_endpoint_id (cs_endpoints s))"
    and index_entries: "closed_snapshot s \<Longrightarrow> build s = Some ix \<Longrightarrow>
      set (map_keys (oi_endpointOwnership ix)) = set (map ep_endpoint_id (cs_endpoints s))"
    and entry_evidence: "closed_snapshot s \<Longrightarrow> build s = Some ix \<Longrightarrow> map_get (oi_endpointOwnership ix) i = Some ow \<Longrightarrow>
      e \<in> set (ow_evidenceIds ow) \<longleftrightarrow> (i, Inl e) \<in> owns s"
    and evidence_owner: "closed_snapshot s \<Longrightarrow> build s = Some ix \<Longrightarrow>
      i \<in> set (map_get_or [] (oi_evidenceOwners ix) e) \<longleftrightarrow> (i, Inl e) \<in> owns s"
    and schema_owner: "closed_snapshot s \<Longrightarrow> build s = Some ix \<Longrightarrow>
      i \<in> set (map_get_or [] (oi_schemaOwners ix) c) \<longleftrightarrow> (i, Inr c) \<in> owns s"

lemma owner_is_endpoint: "closed_snapshot s \<Longrightarrow> (i, x) \<in> owns s \<Longrightarrow> i \<in> set (map ep_endpoint_id (cs_endpoints s))"
  using ownership_index_facts by blast

lemma ownership_index_laws:
  assumes "closed_snapshot s" "buildEndpointOwnershipIndex s = Some ix"
  shows "oi_endpointIds ix = sort (map ep_endpoint_id (cs_endpoints s))"
    "set (map_keys (oi_endpointOwnership ix)) = set (map ep_endpoint_id (cs_endpoints s))"
    "map_get (oi_endpointOwnership ix) i = Some ow \<Longrightarrow> e \<in> set (ow_evidenceIds ow) \<longleftrightarrow> (i, Inl e) \<in> owns s"
    "i \<in> set (map_get_or [] (oi_evidenceOwners ix) e) \<longleftrightarrow> (i, Inl e) \<in> owns s"
    "i \<in> set (map_get_or [] (oi_schemaOwners ix) c) \<longleftrightarrow> (i, Inr c) \<in> owns s"
proof -
  from ownership_index_facts [OF assms(1)] obtain ix' where ix': "buildEndpointOwnershipIndex s = Some ix'"
    and laws: "oi_endpointIds ix' = sort (map ep_endpoint_id (cs_endpoints s))"
      "\<forall>i e. i \<in> set (map_get_or [] (oi_evidenceOwners ix') e) \<longleftrightarrow> (i, Inl e) \<in> owns s"
      "\<forall>i c. i \<in> set (map_get_or [] (oi_schemaOwners ix') c) \<longleftrightarrow> (i, Inr c) \<in> owns s"
      "map_keys (oi_endpointOwnership ix') = map ep_endpoint_id (cs_endpoints s)"
      "\<forall>i ow e. map_get (oi_endpointOwnership ix') i = Some ow \<longrightarrow> e \<in> set (ow_evidenceIds ow) \<longleftrightarrow> (i, Inl e) \<in> owns s"
    by (elim exE conjE)
  from ix' assms(2) have ix: "ix' = ix" by simp
  show "oi_endpointIds ix = sort (map ep_endpoint_id (cs_endpoints s))"
    "set (map_keys (oi_endpointOwnership ix)) = set (map ep_endpoint_id (cs_endpoints s))"
    "i \<in> set (map_get_or [] (oi_evidenceOwners ix) e) \<longleftrightarrow> (i, Inl e) \<in> owns s"
    "i \<in> set (map_get_or [] (oi_schemaOwners ix) c) \<longleftrightarrow> (i, Inr c) \<in> owns s"
    using laws(1-4) unfolding ix by (simp_all only:)
  show "map_get (oi_endpointOwnership ix) i = Some ow \<Longrightarrow> e \<in> set (ow_evidenceIds ow) \<longleftrightarrow> (i, Inl e) \<in> owns s"
    using laws(5) unfolding ix by blast
qed

interpretation index: ownership_builder buildEndpointOwnershipIndex
proof
  show "closed_snapshot s \<Longrightarrow> \<exists>ix. buildEndpointOwnershipIndex s = Some ix" for s
    using ownership_index_facts by blast
qed (rule ownership_index_laws; assumption)+

end
