(* ===== verification/JsonParse.thy ===== *)
theory JsonParse
  imports Json
begin

text \<open>
  \<open>JSON.parse\<close> on the texts the code hands it, and the round trip with \<open>json_text\<close>. Numbers are
  the integers of \<open>Json\<close>: a number with a fraction or an exponent, and an escape of a code point
  above 255, are outside the model and read as \<open>None\<close>. A repeated key keeps its last value.
  The fuel bounds the nesting of calls; \<open>parse_fuel\<close> shows that what \<open>JSON_parse\<close> gives is
  enough for every text.
\<close>

section \<open>The parser\<close>

definition is_space :: "char \<Rightarrow> bool" where
  "is_space c = (c = CHR '' '' \<or> c = CHR 0x09 \<or> c = CHR 0x0A \<or> c = CHR 0x0D)"

definition skip_space :: "string \<Rightarrow> string" where
  "skip_space s = dropWhile is_space s"

definition hex_value :: "char \<Rightarrow> nat option" where
  "hex_value c =
     (let n = of_char c :: nat in
      if 48 \<le> n \<and> n \<le> 57 then Some (n - 48)
      else if 97 \<le> n \<and> n \<le> 102 then Some (n - 87)
      else if 65 \<le> n \<and> n \<le> 70 then Some (n - 55) else None)"

definition unescape :: "char \<Rightarrow> char option" where
  "unescape c =
     (if c = CHR 0x22 \<or> c = CHR 0x5C \<or> c = CHR ''/'' then Some c
      else if c = CHR ''b'' then Some (CHR 0x08)
      else if c = CHR ''f'' then Some (CHR 0x0C)
      else if c = CHR ''n'' then Some (CHR 0x0A)
      else if c = CHR ''r'' then Some (CHR 0x0D)
      else if c = CHR ''t'' then Some (CHR 0x09) else None)"

definition unescape_hex :: "string \<Rightarrow> char option" where
  "unescape_hex ds =
     (case map hex_value ds of
        [Some a, Some b, Some c, Some d] \<Rightarrow> (if a = 0 \<and> b = 0 then Some (char_of (16 * c + d)) else None)
      | _ \<Rightarrow> None)"

text \<open>The rest of a string literal after its opening quote, and what follows it.\<close>

function (sequential) parse_string :: "string \<Rightarrow> (string \<times> string) option" where
  "parse_string [] = None"
| "parse_string (c # cs) =
     (if c = CHR 0x22 then Some ([], cs)
      else if c = CHR 0x5C then
        (case cs of
           [] \<Rightarrow> None
         | e # es \<Rightarrow>
             (if e = CHR ''u'' then
                (case unescape_hex (take 4 es) of None \<Rightarrow> None
                 | Some u \<Rightarrow> map_option (\<lambda>(t, rest). (u # t, rest)) (parse_string (drop 4 es)))
              else (case unescape e of None \<Rightarrow> None
                 | Some u \<Rightarrow> map_option (\<lambda>(t, rest). (u # t, rest)) (parse_string es))))
      else if of_char c < (32 :: nat) then None
      else map_option (\<lambda>(t, rest). (c # t, rest)) (parse_string cs))"
  by pat_completeness auto
termination by (relation "measure length") auto

declare parse_string.simps [simp del]

definition digit :: "char \<Rightarrow> bool" where
  "digit c = (48 \<le> (of_char c :: nat) \<and> of_char c \<le> (57 :: nat))"

definition digits_value :: "string \<Rightarrow> nat" where
  "digits_value ds = foldl (\<lambda>n c. 10 * n + (of_char c - 48)) 0 ds"

text \<open>An integer literal: no leading zero, no fraction, no exponent.\<close>

definition parse_nat :: "string \<Rightarrow> (nat \<times> string) option" where
  "parse_nat s =
     (let ds = takeWhile digit s; rest = dropWhile digit s in
      if ds = [] \<or> hd ds = CHR ''0'' \<and> length ds > 1 then None
      else (case rest of
              c # _ \<Rightarrow> (if c \<in> set ''.eE'' then None else Some (digits_value ds, rest))
            | [] \<Rightarrow> Some (digits_value ds, rest)))"

definition parse_number :: "string \<Rightarrow> (json \<times> string) option" where
  "parse_number s =
     (case s of
        [] \<Rightarrow> None
      | c # cs \<Rightarrow>
          (if c = CHR ''-'' then map_option (\<lambda>(n, rest). (JNum (- int n), rest)) (parse_nat cs)
           else map_option (\<lambda>(n, rest). (JNum (int n), rest)) (parse_nat s)))"

definition parse_word :: "string \<Rightarrow> json \<Rightarrow> string \<Rightarrow> (json \<times> string) option" where
  "parse_word w v s = (if starts_with s w then Some (v, drop (length w) s) else None)"

definition expect :: "char \<Rightarrow> string \<Rightarrow> string option" where
  "expect c s = (case skip_space s of [] \<Rightarrow> None | d # ds \<Rightarrow> (if d = c then Some ds else None))"

fun parse_value :: "nat \<Rightarrow> string \<Rightarrow> (json \<times> string) option"
  and parse_elements :: "nat \<Rightarrow> string \<Rightarrow> (json list \<times> string) option"
  and parse_members :: "nat \<Rightarrow> string \<Rightarrow> ((string \<times> json) list \<times> string) option" where
  "parse_value 0 s = None"
| "parse_value (Suc n) s =
     (case skip_space s of
        [] \<Rightarrow> None
      | c # cs \<Rightarrow>
          (if c = CHR 0x22 then map_option (\<lambda>(t, rest). (JStr t, rest)) (parse_string cs)
           else if c = CHR ''['' then
             (case expect (CHR '']'') cs of
                Some rest \<Rightarrow> Some (JArr [], rest)
              | None \<Rightarrow> map_option (\<lambda>(vs, rest). (JArr vs, rest)) (parse_elements n cs))
           else if c = CHR ''{'' then
             (case expect (CHR ''}'') cs of
                Some rest \<Rightarrow> Some (JObj [], rest)
              | None \<Rightarrow> map_option (\<lambda>(kvs, rest). (JObj (js_map kvs), rest)) (parse_members n cs))
           else if c = CHR ''n'' then parse_word ''null'' JNull (c # cs)
           else if c = CHR ''t'' then parse_word ''true'' (JBool True) (c # cs)
           else if c = CHR ''f'' then parse_word ''false'' (JBool False) (c # cs)
           else parse_number (c # cs)))"
| "parse_elements 0 s = None"
| "parse_elements (Suc n) s =
     (case parse_value n s of
        None \<Rightarrow> None
      | Some (v, rest) \<Rightarrow>
          (case expect (CHR '','') rest of
             Some rest' \<Rightarrow> map_option (\<lambda>(vs, r). (v # vs, r)) (parse_elements n rest')
           | None \<Rightarrow> map_option (\<lambda>r. ([v], r)) (expect (CHR '']'') rest)))"
| "parse_members 0 s = None"
| "parse_members (Suc n) s =
     (case expect (CHR 0x22) s of
        None \<Rightarrow> None
      | Some cs \<Rightarrow>
          (case parse_string cs of
             None \<Rightarrow> None
           | Some (k, r1) \<Rightarrow>
               (case expect (CHR '':'') r1 of
                  None \<Rightarrow> None
                | Some r2 \<Rightarrow>
                    (case parse_value n r2 of
                       None \<Rightarrow> None
                     | Some (v, rest) \<Rightarrow>
                         (case expect (CHR '','') rest of
                            Some rest' \<Rightarrow> map_option (\<lambda>(kvs, r). ((k, v) # kvs, r)) (parse_members n rest')
                          | None \<Rightarrow> map_option (\<lambda>r. ([(k, v)], r)) (expect (CHR ''}'') rest))))))"

definition JSON_parse :: "string \<Rightarrow> json option" where
  "JSON_parse s =
     (case parse_value (Suc (2 * length s)) s of
        None \<Rightarrow> None
      | Some (v, rest) \<Rightarrow> (if skip_space rest = [] then Some v else None))"

section \<open>The round trip\<close>

lemma hex_value_digit: "n < 16 \<Longrightarrow> hex_value (hex_digit n) = Some n"
  by (auto simp: hex_value_def hex_digit_def of_char_char_of Let_def)

lemma unescape_hex_digits:
  assumes "a < 16" "b < 16"
  shows "unescape_hex [CHR ''0'', CHR ''0'', hex_digit a, hex_digit b] = Some (char_of (16 * a + b))"
proof -
  have "hex_value (CHR ''0'') = Some 0" by code_simp
  then show ?thesis using assms by (simp add: unescape_hex_def hex_value_digit)
qed


lemma parse_escape: "parse_string (json_escape c @ t) = map_option (\<lambda>(s, rest). (c # s, rest)) (parse_string t)"
proof (cases "of_char c < (32 :: nat) \<and> c \<notin> set [CHR 0x08, CHR 0x0C, CHR 0x0A, CHR 0x0D, CHR 0x09]")
  case True
  then have "of_char c div 16 < (16 :: nat)" "of_char c mod 16 < (16 :: nat)" by auto
  from unescape_hex_digits [OF this]
  have "unescape_hex [CHR ''0'', CHR ''0'', hex_digit (of_char c div 16), hex_digit (of_char c mod 16)] = Some c"
    by (simp add: mult_div_mod_eq)
  moreover have "c \<noteq> CHR 0x22" "c \<noteq> CHR 0x5C" using True by auto
  ultimately show ?thesis
    using True by (simp add: json_escape_def parse_string.simps)
next
  case False
  then show ?thesis
    by (auto simp: json_escape_def parse_string.simps unescape_def)
qed

lemma parse_quoted: "parse_string (concat_map json_escape s @ CHR 0x22 # rest) = Some (s, rest)"
  by (induction s) (simp_all add: parse_escape parse_string.simps)

definition stops :: "string \<Rightarrow> bool" where
  "stops rest = (case rest of [] \<Rightarrow> True | c # _ \<Rightarrow> \<not> digit c \<and> c \<notin> set ''.eE'')"

lemma digit_text: "n < 10 \<Longrightarrow> digit (char_of (48 + n)) \<and> of_char (char_of (48 + n) :: char) - 48 = (n :: nat)"
  by (simp add: digit_def of_char_char_of)

lemma nat_text_digits:
  "list_all digit (nat_text n) \<and> nat_text n \<noteq> [] \<and> digits_value (nat_text n) = n \<and>
   (hd (nat_text n) = CHR ''0'' \<longrightarrow> n = 0) \<and> nat_text 0 = ''0''"
proof (induction n rule: nat_text.induct)
  case (1 n)
  show ?case
  proof (cases "n < 10")
    case True
    have "char_of (48 + n) = CHR ''0'' \<longrightarrow> n = 0"
    proof
      assume "char_of (48 + n) = CHR ''0''"
      then have "of_char (char_of (48 + n) :: char) = (48 :: nat)" by simp
      then show "n = 0" using True by (simp add: of_char_char_of)
    qed
    moreover have "char_of (48 :: nat) = CHR ''0''" by code_simp
    ultimately show ?thesis using True digit_text [OF True] by (simp add: nat_text.simps digits_value_def)
  next
    case False
    have "nat_text n = nat_text (n div 10) @ [char_of (48 + n mod 10)]" using False by (simp add: nat_text.simps)
    moreover have "n div 10 \<noteq> 0" using False by simp
    ultimately show ?thesis
      using "1.IH" [OF False] digit_text [of "n mod 10"] by (auto simp: digits_value_def)
  qed
qed

lemma parse_nat_text: "stops rest \<Longrightarrow> parse_nat (nat_text n @ rest) = Some (n, rest)"
proof -
  assume stop: "stops rest"
  note d = nat_text_digits [of n]
  have "takeWhile digit (nat_text n @ rest) = nat_text n" "dropWhile digit (nat_text n @ rest) = rest"
    using d stop by (auto simp: list_all_iff takeWhile_append dropWhile_append stops_def
        takeWhile_eq_Nil_iff split: list.splits)
  moreover have "\<not> (hd (nat_text n) = CHR ''0'' \<and> length (nat_text n) > 1)"
    using d nat_text_digits [of 0] by (auto)
  ultimately show ?thesis
    using d stop by (auto simp: parse_nat_def stops_def split: list.splits)
qed

lemma stops_simps [simp]: "stops []" "stops (CHR '','' # s)" "stops (CHR '']'' # s)" "stops (CHR ''}'' # s)"
  by (simp_all add: stops_def digit_def)

lemma expect_simps [simp]: "\<not> is_space c \<Longrightarrow> expect d (c # s) = (if c = d then Some s else None)"
  by (simp add: expect_def skip_space_def)

lemma not_space [simp]:
  "\<not> is_space (CHR '','')" "\<not> is_space (CHR '']'')" "\<not> is_space (CHR ''}'')" "\<not> is_space (CHR '':'')"
  "\<not> is_space (CHR 0x22)"
  by (simp_all add: is_space_def)

definition literal_start :: "char \<Rightarrow> bool" where
  "literal_start c = (\<not> is_space c \<and> c \<noteq> CHR '']'' \<and> c \<noteq> CHR ''}'')"

definition number_start :: "char \<Rightarrow> bool" where
  "number_start c = (c = CHR ''-'' \<or> digit c)"

lemma number_start_literal: "number_start c \<Longrightarrow> literal_start c \<and> c \<notin> set [CHR 0x22, CHR ''['', CHR ''{'', CHR ''n'', CHR ''t'', CHR ''f'']"
  by (auto simp: number_start_def literal_start_def digit_def is_space_def)

lemma nat_text_start: "\<exists>c cs. nat_text n = c # cs \<and> digit c"
  using nat_text_digits [of n] by (cases "nat_text n") auto

lemma int_text_start: "\<exists>c cs. int_text i = c # cs \<and> number_start c"
  using nat_text_start [of "nat i"] by (auto simp: int_text_def number_start_def)

lemma text_start: "\<exists>c cs. json_text j = c # cs \<and> literal_start c"
proof (cases j)
  case (JNum i)
  then show ?thesis using int_text_start [of i] number_start_literal by auto
qed (auto simp: literal_start_def is_space_def json_quote_def)

lemma parse_int_text: "stops rest \<Longrightarrow> parse_number (int_text i @ rest) = Some (JNum i, rest)"
proof (cases "i < 0")
  case False
  moreover assume "stops rest"
  moreover obtain c cs where "nat_text (nat i) = c # cs" "digit c" using nat_text_start by blast
  moreover from this have "c \<noteq> CHR ''-''" by (auto simp: digit_def)
  ultimately show ?thesis using parse_nat_text [of rest "nat i"] by (simp add: parse_number_def int_text_def)
qed (simp add: parse_number_def int_text_def parse_nat_text)

lemma parse_elements_text:
  assumes "vs \<noteq> []" "\<And>v n rest. v \<in> set vs \<Longrightarrow> stops rest \<Longrightarrow> length (json_text v) \<le> n \<Longrightarrow>
      parse_value n (json_text v @ rest) = Some (v, rest)"
    and "length (join_with '','' (map json_text vs)) < n"
  shows "parse_elements n (join_with '','' (map json_text vs) @ CHR '']'' # rest) = Some (vs, rest)"
  using assms
proof (induction vs arbitrary: n)
  case (Cons v vs)
  then obtain m where n: "n = Suc m" by (cases n) auto
  show ?case
  proof (cases vs)
    case Nil
    then show ?thesis using Cons.prems n by simp
  next
    case (Cons w ws)
    then have "parse_elements m (join_with '','' (map json_text vs) @ CHR '']'' # rest) = Some (vs, rest)"
      using Cons.prems n by (intro Cons.IH) auto
    then show ?thesis using Cons Cons.prems n by simp
  qed
qed simp

lemma js_map_distinct: "distinct (map fst kvs) \<Longrightarrow> js_map kvs = kvs"
proof -
  have "foldl (\<lambda>m p. map_set (fst p) (snd p) m) acc kvs = acc @ kvs"
    if "distinct (map fst (acc @ kvs))" for acc
    using that
  proof (induction kvs arbitrary: acc)
    case (Cons p kvs)
    then have "map_set (fst p) (snd p) acc = acc @ [p]" by (induction acc) auto
    with Cons show ?case by simp
  qed simp
  from this [of "[]"] show "distinct (map fst kvs) \<Longrightarrow> js_map kvs = kvs"
    by (simp add: js_map_def case_prod_unfold)
qed

definition member_text :: "string \<times> json \<Rightarrow> string" where
  "member_text p = json_quote (fst p) @ '':'' @ json_text (snd p)"

lemma json_text_object: "json_text (JObj kvs) = ''{'' @ join_with '','' (map member_text kvs) @ ''}''"
  by (simp add: member_text_def [abs_def] case_prod_unfold)

lemma skip_text: "skip_space (json_text j @ rest) = json_text j @ rest"
  using text_start [of j] by (auto simp: skip_space_def literal_start_def)

lemma parse_members_text:
  assumes "kvs \<noteq> []" "\<And>p n rest. p \<in> set kvs \<Longrightarrow> stops rest \<Longrightarrow> length (json_text (snd p)) \<le> n \<Longrightarrow>
      parse_value n (json_text (snd p) @ rest) = Some (snd p, rest)"
    and "length (join_with '','' (map member_text kvs)) < n"
  shows "parse_members n (join_with '','' (map member_text kvs) @ CHR ''}'' # rest) = Some (kvs, rest)"
  using assms
proof (induction kvs arbitrary: n)
  case (Cons p kvs)
  then obtain m where n: "n = Suc m" by (cases n) auto
  show ?case
  proof (cases kvs)
    case Nil
    then show ?thesis using Cons.prems n
      by (simp add: member_text_def json_quote_def parse_quoted)
  next
    case (Cons w ws)
    then have j: "join_with '','' (map member_text (p # kvs)) =
        json_quote (fst p) @ '':'' @ json_text (snd p) @ '','' @ join_with '','' (map member_text kvs)"
      by (simp add: member_text_def [of p])
    have len: "length (join_with '','' (map member_text kvs)) < m" "length (json_text (snd p)) \<le> m"
      using Cons.prems(3) n unfolding j by simp_all
    have "parse_members m (join_with '','' (map member_text kvs) @ CHR ''}'' # rest) = Some (kvs, rest)"
      using Cons Cons.prems(2) len by (intro Cons.IH) auto
    moreover have "parse_value m (json_text (snd p) @ r) = Some (snd p, r)" if "stops r" for r
      using Cons.prems(2) [of p r m] that len by simp
    ultimately show ?thesis unfolding j
      by (simp add: n json_quote_def parse_quoted)
  qed
qed simp

lemma join_text_start:
  assumes "vs \<noteq> []" "\<And>v. v \<in> set vs \<Longrightarrow> \<exists>c cs. f v = c # cs \<and> literal_start c"
  shows "\<exists>c cs. join_with '','' (map f vs) = c # cs \<and> literal_start c"
proof (cases vs)
  case (Cons v ws)
  then show ?thesis using assms(2) [of v] by (cases ws) auto
qed (use assms in simp)

lemma expect_literal: "literal_start c \<Longrightarrow> d \<in> set '']}'' \<Longrightarrow> expect d (c # cs) = None"
  by (auto simp: literal_start_def)

lemma parse_value_text:
  "wf_json j \<Longrightarrow> stops rest \<Longrightarrow> length (json_text j) \<le> n \<Longrightarrow> parse_value n (json_text j @ rest) = Some (j, rest)"
proof (induction j arbitrary: rest n rule: json_text.induct)
  case 1
  then obtain m where "n = Suc m" by (cases n) auto
  then show ?case by (simp add: skip_space_def is_space_def parse_word_def)
next
  case (2 b)
  then obtain m where "n = Suc m" by (cases n) (auto split: if_splits)
  then show ?case by (simp add: skip_space_def is_space_def parse_word_def)
next
  case (3 i)
  obtain c cs where i: "int_text i = c # cs" "number_start c" using int_text_start by blast
  with 3 obtain m where "n = Suc m" by (cases n) auto
  moreover have "skip_space (int_text i @ rest) = int_text i @ rest" using skip_text [of "JNum i"] by simp
  moreover note parse_int_text [OF "3.prems"(2), of i] number_start_literal [OF i(2)]
  ultimately show ?case using i by auto
next
  case (4 s)
  then obtain m where "n = Suc m" by (cases n) (auto simp: json_quote_def)
  then show ?case by (simp add: json_quote_def skip_space_def parse_quoted)
next
  case (5 vs)
  then obtain m where n: "n = Suc m" by (cases n) auto
  show ?case
  proof (cases "vs = []")
    case False
    obtain c cs where c: "join_with '','' (map json_text vs) = c # cs" "literal_start c"
      using join_text_start [OF False, of json_text] text_start by blast
    have "parse_elements m (join_with '','' (map json_text vs) @ CHR '']'' # rest) = Some (vs, rest)"
      using 5 n by (intro parse_elements_text False) (auto simp: list_all_iff)
    then show ?thesis using n c expect_literal [OF c(2)] by (simp add: skip_space_def is_space_def)
  qed (simp add: n skip_space_def is_space_def)
next
  case (6 kvs)
  then obtain m where n: "n = Suc m" by (cases n) auto
  show ?case
  proof (cases "kvs = []")
    case False
    have "\<exists>c cs. member_text p = c # cs \<and> literal_start c" for p
      by (simp add: member_text_def json_quote_def literal_start_def)
    then obtain c cs where c: "join_with '','' (map member_text kvs) = c # cs" "literal_start c"
      using join_text_start [OF False] by blast
    have "length (join_with '','' (map member_text kvs)) < m"
      using "6.prems"(3) n by (simp only: json_text_object) simp
    moreover have "parse_value k (json_text (snd p) @ r) = Some (snd p, r)"
      if "p \<in> set kvs" "stops r" "length (json_text (snd p)) \<le> k" for p k r
      using "6.IH" [of p "fst p" "snd p"] "6.prems"(1) that by (auto simp: list_all_iff)
    ultimately have "parse_members m (join_with '','' (map member_text kvs) @ CHR ''}'' # rest) = Some (kvs, rest)"
      by (intro parse_members_text False)
    then show ?thesis using n c expect_literal [OF c(2)] "6.prems"(1)
      by (simp only: json_text_object) (simp add: skip_space_def is_space_def js_map_distinct)
  qed (simp add: n skip_space_def is_space_def js_map_def)
qed

lemma JSON_parse_text: "wf_json j \<Longrightarrow> JSON_parse (json_text j) = Some j"
  using parse_value_text [of j "[]" "Suc (2 * length (json_text j))"]
  by (simp add: JSON_parse_def skip_space_def)

lemma canonicalJson_eq_iff:
  assumes "wf_json a" "wf_json b"
  shows "canonicalJson a = canonicalJson b \<longleftrightarrow> json_normal a = json_normal b"
proof
  assume "canonicalJson a = canonicalJson b"
  then have "JSON_parse (json_text (json_normal a)) = JSON_parse (json_text (json_normal b))"
    by (simp add: canonicalJson_json_text)
  then show "json_normal a = json_normal b"
    using assms by (simp add: JSON_parse_text wf_json_normal)
qed (simp add: canonicalJson_json_text)

lemma JSON_parse_canonical: "wf_json j \<Longrightarrow> JSON_parse (canonicalJson j) = Some (json_normal j)"
  by (simp add: canonicalJson_json_text JSON_parse_text wf_json_normal)

section \<open>The fuel\<close>

lemma length_skip_space: "length (skip_space s) \<le> length s"
  by (simp add: skip_space_def length_dropWhile_le)

lemma parse_string_shorter: "parse_string s = Some (t, r) \<Longrightarrow> length r < length s"
proof (induction "length s" arbitrary: s t r rule: less_induct)
  case less
  obtain c cs where s: "s = c # cs" using less.prems by (cases s) (auto simp: parse_string.simps)
  have shorter: "length r < length q" if "map_option (\<lambda>(t, rest). (u # t, rest)) (parse_string q) = Some (t, r)" "length q < length s" for u q
    using less.hyps [OF that(2)] that(1) by (auto split: option.splits)
  consider "c = CHR 0x22" | e es where "c = CHR 0x5C" "cs = e # es" | "c \<noteq> CHR 0x22" "c \<noteq> CHR 0x5C"
    using less.prems s by (cases cs; cases "c = CHR 0x22"; cases "c = CHR 0x5C") (simp_all add: parse_string.simps)
  then show ?case
  proof cases
    case 2
    have len: "length (drop 4 es) \<le> length es" by simp
    have "\<exists>u q. map_option (\<lambda>(t, rest). (u # t, rest)) (parse_string q) = Some (t, r) \<and> length q \<le> length es"
    proof (cases "e = CHR ''u''")
      case True
      then show ?thesis using less.prems s 2 len
        by (cases "unescape_hex (take 4 es)") (simp_all only: parse_string.simps option.case list.case if_True if_False char.inject simp_thms refl, blast+)
    next
      case False
      then show ?thesis using less.prems s 2
        by (cases "unescape e") (auto simp: parse_string.simps(2))
    qed
    then obtain u q where "map_option (\<lambda>(t, rest). (u # t, rest)) (parse_string q) = Some (t, r)" "length q \<le> length es"
      by blast
    then show ?thesis using shorter [of u q] s 2 by simp
  next
    case 3
    then show ?thesis using shorter [of c cs] less.prems s by (simp add: parse_string.simps split: if_splits)
  qed (use less.prems s in \<open>simp add: parse_string.simps\<close>)
qed


lemma expect_shorter: "expect c s = Some r \<Longrightarrow> length r < length s"
  using length_skip_space [of s] by (auto simp: expect_def split: list.splits if_splits)

lemma parse_nat_shorter: "parse_nat s = Some (k, r) \<Longrightarrow> length r < length s"
proof -
  assume p: "parse_nat s = Some (k, r)"
  have "takeWhile digit s = [] \<Longrightarrow> parse_nat s = None" by (simp only: parse_nat_def Let_def if_True simp_thms)
  with p have "length (takeWhile digit s) > 0" by fastforce
  moreover from p have "r = dropWhile digit s"
    by (auto simp: parse_nat_def Let_def split: if_splits list.splits)
  moreover have "length (takeWhile digit s) + length (dropWhile digit s) = length s"
    by (metis takeWhile_dropWhile_id length_append)
  ultimately show ?thesis by (simp only:)
qed


lemma parse_number_shorter: "parse_number s = Some (v, r) \<Longrightarrow> length r < length s"
  by (auto simp: parse_number_def split: list.splits if_splits dest: parse_nat_shorter)

lemma parse_word_shorter: "parse_word w v (c # cs) = Some (v', r) \<Longrightarrow> w \<noteq> [] \<Longrightarrow> length r < Suc (length cs)"
  by (cases w) (auto simp: parse_word_def split: if_splits)

lemma parse_shorter:
  "(\<forall>s v r. parse_value n s = Some (v, r) \<longrightarrow> length r < length s) \<and>
   (\<forall>s vs r. parse_elements n s = Some (vs, r) \<longrightarrow> length r < length s) \<and>
   (\<forall>s kvs r. parse_members n s = Some (kvs, r) \<longrightarrow> length r < length s)"
proof (induction n)
  case (Suc n)
  have "length r < length s" if p: "parse_value (Suc n) s = Some (v, r)" for s v r
  proof -
    obtain c cs where s: "skip_space s = c # cs" using p by (auto split: list.splits)
    have "length r \<le> length cs"
      using p s Suc parse_string_shorter [of cs _ r] parse_number_shorter [of "c # cs" v r]
        parse_word_shorter [of _ _ c cs v r] expect_shorter [of _ cs r]
      by (fastforce split: if_splits option.splits)
    then show ?thesis using s length_skip_space [of s] by simp
  qed
  moreover have "length r < length s" if p: "parse_elements (Suc n) s = Some (vs, r)" for s vs r
  proof -
    obtain v q where q: "parse_value n s = Some (v, q)" using p by (auto split: option.splits)
    then have "length q < length s" using Suc by blast
    moreover have "length r < length q"
      using p q Suc expect_shorter [of _ q] by (fastforce split: option.splits)
    ultimately show ?thesis by simp
  qed
  moreover have "length r < length s" if p: "parse_members (Suc n) s = Some (kvs, r)" for s kvs r
  proof -
    obtain a k b c v q where q: "expect (CHR 0x22) s = Some a" "parse_string a = Some (k, b)"
        "expect (CHR '':'') b = Some c" "parse_value n c = Some (v, q)"
      using p by (auto split: option.splits)
    then have "length q < length s"
      using Suc expect_shorter [OF q(1)] parse_string_shorter [OF q(2)] expect_shorter [OF q(3)] by fastforce
    moreover have "length r < length q"
      using p q Suc expect_shorter [of _ q] by (fastforce split: option.splits)
    ultimately show ?thesis by simp
  qed
  ultimately show ?case by blast
qed simp

lemma parse_enough:
  "(\<forall>s m. 2 * length s + 1 \<le> n \<and> n \<le> m \<longrightarrow> parse_value m s = parse_value n s) \<and>
   (\<forall>s m. 2 * length s + 2 \<le> n \<and> n \<le> m \<longrightarrow> parse_elements m s = parse_elements n s) \<and>
   (\<forall>s m. 2 * length s + 2 \<le> n \<and> n \<le> m \<longrightarrow> parse_members m s = parse_members n s)"
proof (induction n)
  case (Suc n)
  have value_eq: "parse_value k s = parse_value n s" if "2 * length s + 1 \<le> n" "n \<le> k" for k s
    using Suc that by blast
  have elements_eq: "parse_elements k s = parse_elements n s" if "2 * length s + 2 \<le> n" "n \<le> k" for k s
    using Suc that by blast
  have members_eq: "parse_members k s = parse_members n s" if "2 * length s + 2 \<le> n" "n \<le> k" for k s
    using Suc that by blast
  have shorter: "length r < length s" if "parse_value n s = Some (v, r)" for s v r
    using parse_shorter that by blast
  have "parse_value m s = parse_value (Suc n) s" if m: "2 * length s + 1 \<le> Suc n" "Suc n \<le> m" for s m
  proof -
    obtain k where k: "m = Suc k" "n \<le> k" using m by (cases m) auto
    show ?thesis
    proof (cases "skip_space s")
      case (Cons c cs)
      then have "2 * length cs + 2 \<le> n" using m length_skip_space [of s] by simp
      from elements_eq [OF this k(2)] members_eq [OF this k(2)] Cons show ?thesis
        by (simp only: k parse_value.simps list.case)
    qed (simp add: k)
  qed
  moreover have "parse_elements m s = parse_elements (Suc n) s" if m: "2 * length s + 2 \<le> Suc n" "Suc n \<le> m" for s m
  proof -
    obtain k where k: "m = Suc k" "n \<le> k" using m by (cases m) auto
    have v: "parse_value k s = parse_value n s" using m k by (intro value_eq) auto
    have r: "parse_elements k r = parse_elements n r"
      if "parse_value n s = Some (v, q)" "expect (CHR '','') q = Some r" for v q r
      using m k shorter [OF that(1)] expect_shorter [OF that(2)] by (intro elements_eq) auto
    show ?thesis
      unfolding k(1) parse_elements.simps v
      by (auto split: option.split simp: r)
  qed
  moreover have "parse_members m s = parse_members (Suc n) s" if m: "2 * length s + 2 \<le> Suc n" "Suc n \<le> m" for s m
  proof -
    obtain k where k: "m = Suc k" "n \<le> k" using m by (cases m) auto
    have v: "length c < length s"
      if "expect (CHR 0x22) s = Some a" "parse_string a = Some (i, b)" "expect (CHR '':'') b = Some c" for a i b c
      using expect_shorter [OF that(1)] parse_string_shorter [OF that(2)] expect_shorter [OF that(3)] by simp
    have w: "parse_value k c = parse_value n c" if "length c < length s" for c
      using that m k by (intro value_eq) auto
    have r: "parse_members k r = parse_members n r"
      if "expect (CHR 0x22) s = Some a" "parse_string a = Some (i, b)" "expect (CHR '':'') b = Some c"
        "parse_value n c = Some (w, q)" "expect (CHR '','') q = Some r" for a i b c w q r
      using v [OF that(1-3)] m k shorter [OF that(4)] expect_shorter [OF that(5)] by (intro members_eq) auto
    show ?thesis
      unfolding k(1) parse_members.simps
      by (auto split: option.split simp: v w r)
  qed
  ultimately show ?case by blast
qed simp


lemma parse_fuel: "Suc (2 * length s) \<le> n \<Longrightarrow> parse_value n s = parse_value (Suc (2 * length s)) s"
  using parse_enough [of "Suc (2 * length s)"] by simp

section \<open>Comparing canonical texts\<close>

lemma json_normal_object_eq:
  assumes "distinct (map fst kvs)" "distinct (map fst kvs')"
  shows "json_normal (JObj kvs) = json_normal (JObj kvs') \<longleftrightarrow>
    (\<forall>k. map_option json_normal (map_of kvs k) = map_option json_normal (map_of kvs' k))"
proof
  let ?n = "\<lambda>kvs. map (\<lambda>(k, v). (k, json_normal v)) kvs"
  have get: "map_of (sort_key fst (?n xs)) k = map_option json_normal (map_of xs k)" if "distinct (map fst xs)" for xs k
    using that map_of_map [of json_normal xs] by (simp add: map_of_sort_key case_prod_unfold comp_def)
  {
    assume "json_normal (JObj kvs) = json_normal (JObj kvs')"
    then have "sort_key fst (?n kvs) = sort_key fst (?n kvs')" by simp
    then show "\<forall>k. map_option json_normal (map_of kvs k) = map_option json_normal (map_of kvs' k)"
      using get [OF assms(1)] get [OF assms(2)] by simp
  next
    assume eq: "\<forall>k. map_option json_normal (map_of kvs k) = map_option json_normal (map_of kvs' k)"
    have "map_of (sort_key fst (?n kvs)) = map_of (sort_key fst (?n kvs'))"
      using eq get [OF assms(1)] get [OF assms(2)] by (intro ext) simp
    moreover have d: "distinct (map fst (sort_key fst (?n xs)))" if "distinct (map fst xs)" for xs :: "(string \<times> json) list"
      using that by (simp add: distinct_keys_sort_key case_prod_unfold comp_def)
    ultimately have "set (sort_key fst (?n kvs)) = set (sort_key fst (?n kvs'))"
      using d [OF assms(1)] d [OF assms(2)] map_of_inject_set by blast
    moreover have "inj_on fst (set (sort_key fst (?n kvs)))"
      using d [OF assms(1)] by (simp only: distinct_map)
    ultimately have "sort_key fst (?n kvs) = sort_key fst (?n kvs')"
      using d [OF assms(1)] d [OF assms(2)]
      by (intro map_sorted_distinct_set_unique [where f = fst]) (simp_all only: sorted_sort_key Un_absorb)
    then show "json_normal (JObj kvs) = json_normal (JObj kvs')" by simp
  }
qed

lemma canonicalJson_get:
  assumes "canonicalJson a = canonicalJson b" "wf_json a" "wf_json b" "is_object a" "is_object b"
  shows "map_option json_normal (jget k a) = map_option json_normal (jget k b)"
proof -
  obtain kvs kvs' where o: "a = JObj kvs" "b = JObj kvs'"
    using assms(4,5) by (cases a; cases b) auto
  then have "json_normal (JObj kvs) = json_normal (JObj kvs')"
    using assms(1-3) canonicalJson_eq_iff by blast
  then show ?thesis using o assms(2,3) json_normal_object_eq [of kvs kvs'] by simp
qed

lemma canonicalJson_str_eq [simp]: "canonicalJson (JStr a) = canonicalJson (JStr b) \<longleftrightarrow> a = b"
  using canonicalJson_eq_iff [of "JStr a" "JStr b"] by simp

end
