(* ===== verification/UpdPlan.thy ===== *)
theory UpdPlan
  imports UpdOwnership JsonParse
begin

text \<open>
  The planning input and the update plan: the values of \<open>AnalysisKeySchema\<close>,
  \<open>UpdatePlanningInputSchema\<close> and \<open>UpdatePlanSchema\<close> in \<open>packages/updates/src/schema.ts\<close>, the
  semantic checks of both (\<open>input.ts\<close>, \<open>validatePlanSemantics\<close>) and the identifier of a plan.
\<close>

section \<open>Values\<close>

record analysis_key =
  ak_analyzer :: analyzer_identity
  ak_analyzer_exchange_version :: string
  ak_ir_version :: string
  ak_identity_version :: string
  ak_config_version :: string
  ak_config_fingerprint :: string

record planning_target =
  pt_repository_id :: string
  pt_service_id :: string
  pt_service_root :: string
  pt_immutable_revision :: string
  pt_source_digest :: string
  pt_analysis_key :: analysis_key

record planning_input =
  pi_base_snapshot :: contract_snapshot
  pi_base_analysis_key :: analysis_key
  pi_target :: planning_target
  pi_changed_paths :: "string list"
  pi_changed_paths_complete :: bool

record plan_service =
  ps_repository_id :: string
  ps_service_id :: string
  ps_service_root :: string
  ps_base_snapshot_id :: string
  ps_base_revision :: string
  ps_target_revision :: string
  ps_base_source_digest :: string
  ps_target_source_digest :: string

datatype dependency_coverage = DependencyComplete | DependencyIncomplete

datatype plan_action = ReuseBaseSnapshot | AnalyzeFullService

datatype extraction_mode = FallbackFullService

record plan_content =
  pc_update_plan_version :: string
  pc_service :: plan_service
  pc_analysis_base :: analysis_key
  pc_analysis_target :: analysis_key
  pc_changed_paths :: "string list"
  pc_dependency_coverage :: dependency_coverage
  pc_affected_endpoint_ids :: "string list"
  pc_action :: plan_action
  pc_extraction_mode :: "extraction_mode option"
  pc_fallback_reasons :: "update_fallback_reason list"

text \<open>\<open>{...content, plan_id}\<close>.\<close>

record update_plan = plan_content +
  up_plan_id :: string

definition UPDATE_FALLBACK_REASONS :: "update_fallback_reason list" where
  "UPDATE_FALLBACK_REASONS =
     [FbAdapterIncrementalTargetsUnsupported, FbPriorCoverageIncomplete, FbChangedPathsIncomplete,
      FbChangedPathsDigestMismatch, FbChangedPathUnindexed, FbDependencyIndexIncomplete,
      FbAnalyzerChanged, FbConfigChanged, FbIrChanged, FbIdentityChanged]"

section \<open>Shapes\<close>

definition hex_char :: "char \<Rightarrow> bool" where
  "hex_char c = (is_digit c \<or> CHR ''a'' \<le> c \<and> c \<le> CHR ''f'' \<or> CHR ''A'' \<le> c \<and> c \<le> CHR ''F'')"

text \<open>\<open>/^[a-fA-F0-9]{12,128}$/\<close>.\<close>

definition immutable_revision :: "string \<Rightarrow> bool" where
  "immutable_revision s = (12 \<le> length s \<and> length s \<le> 128 \<and> list_all hex_char s)"

text \<open>\<open>/^sha256:[a-f0-9]{64}$/\<close>.\<close>

definition canonicalSha256 :: "string \<Rightarrow> bool" where
  "canonicalSha256 s =
     (starts_with s ''sha256:'' \<and> length s = 71 \<and>
      list_all (\<lambda>c. is_digit c \<or> CHR ''a'' \<le> c \<and> c \<le> CHR ''f'') (drop 7 s))"

text \<open>
  \<open>NormalizedProjectPathSchema\<close>: the pattern of \<open>isNormalizedServicePath\<close>, the dot segments
  excluded by a lookahead.
\<close>

definition normalized_project_path :: "string \<Rightarrow> bool" where
  "normalized_project_path s = isNormalizedServicePath s"

definition analysis_key_ok :: "analysis_key \<Rightarrow> bool" where
  "analysis_key_ok k =
     (an_analyzer_id (ak_analyzer k) \<noteq> [] \<and> an_analyzer_version (ak_analyzer k) \<noteq> [] \<and>
      ak_analyzer_exchange_version k \<noteq> [] \<and> ak_ir_version k \<noteq> [] \<and> ak_identity_version k \<noteq> [] \<and>
      ak_config_version k \<noteq> [] \<and> ak_config_fingerprint k \<noteq> [])"

definition planning_target_ok :: "planning_target \<Rightarrow> bool" where
  "planning_target_ok t =
     (pt_repository_id t \<noteq> [] \<and> pt_service_id t \<noteq> [] \<and> normalized_project_path (pt_service_root t) \<and>
      immutable_revision (pt_immutable_revision t) \<and> canonicalSha256 (pt_source_digest t) \<and>
      analysis_key_ok (pt_analysis_key t))"

text \<open>Of the base snapshot's shape, what a plan repeats: its identifiers are not empty.\<close>

definition planning_input_ok :: "planning_input \<Rightarrow> bool" where
  "planning_input_ok i =
     (cs_snapshot_id (pi_base_snapshot i) \<noteq> [] \<and>
      list_all (\<lambda>e. ep_endpoint_id e \<noteq> []) (cs_endpoints (pi_base_snapshot i)) \<and>
      analysis_key_ok (pi_base_analysis_key i) \<and> planning_target_ok (pi_target i) \<and>
      list_all normalized_project_path (pi_changed_paths i))"

definition plan_service_ok :: "plan_service \<Rightarrow> bool" where
  "plan_service_ok s =
     (ps_repository_id s \<noteq> [] \<and> ps_service_id s \<noteq> [] \<and> normalized_project_path (ps_service_root s) \<and>
      ps_base_snapshot_id s \<noteq> [] \<and> immutable_revision (ps_base_revision s) \<and>
      immutable_revision (ps_target_revision s) \<and> canonicalSha256 (ps_base_source_digest s) \<and>
      canonicalSha256 (ps_target_source_digest s))"

definition update_plan_ok :: "update_plan \<Rightarrow> bool" where
  "update_plan_ok p =
     (pc_update_plan_version p = UPDATE_PLAN_VERSION \<and> up_plan_id p \<noteq> [] \<and> plan_service_ok (pc_service p) \<and>
      analysis_key_ok (pc_analysis_base p) \<and> analysis_key_ok (pc_analysis_target p) \<and>
      list_all normalized_project_path (pc_changed_paths p) \<and> distinct (pc_changed_paths p) \<and>
      list_all (\<lambda>i. i \<noteq> []) (pc_affected_endpoint_ids p) \<and> distinct (pc_affected_endpoint_ids p) \<and>
      distinct (pc_fallback_reasons p))"

section \<open>JSON of a plan\<close>

definition analyzer_json :: "analyzer_identity \<Rightarrow> json" where
  "analyzer_json a = JObj [(''analyzer_id'', JStr (an_analyzer_id a)), (''analyzer_version'', JStr (an_analyzer_version a))]"

definition analysis_key_json :: "analysis_key \<Rightarrow> json" where
  "analysis_key_json k = JObj
     [(''analyzer'', analyzer_json (ak_analyzer k)),
      (''analyzer_exchange_version'', JStr (ak_analyzer_exchange_version k)),
      (''ir_version'', JStr (ak_ir_version k)), (''identity_version'', JStr (ak_identity_version k)),
      (''config_version'', JStr (ak_config_version k)), (''config_fingerprint'', JStr (ak_config_fingerprint k))]"

definition plan_service_json :: "plan_service \<Rightarrow> json" where
  "plan_service_json s = JObj
     [(''repository_id'', JStr (ps_repository_id s)), (''service_id'', JStr (ps_service_id s)),
      (''service_root'', JStr (ps_service_root s)), (''base_snapshot_id'', JStr (ps_base_snapshot_id s)),
      (''base_revision'', JStr (ps_base_revision s)), (''target_revision'', JStr (ps_target_revision s)),
      (''base_source_digest'', JStr (ps_base_source_digest s)), (''target_source_digest'', JStr (ps_target_source_digest s))]"

fun dependency_coverage_text :: "dependency_coverage \<Rightarrow> string" where
  "dependency_coverage_text DependencyComplete = ''complete''"
| "dependency_coverage_text DependencyIncomplete = ''incomplete''"

fun plan_action_text :: "plan_action \<Rightarrow> string" where
  "plan_action_text ReuseBaseSnapshot = ''reuse_base_snapshot''"
| "plan_action_text AnalyzeFullService = ''analyze_full_service''"

fun extraction_mode_text :: "extraction_mode \<Rightarrow> string" where
  "extraction_mode_text FallbackFullService = ''fallback_full_service''"

definition plan_content_json :: "'a plan_content_scheme \<Rightarrow> json" where
  "plan_content_json p = JObj
     ([(''update_plan_version'', JStr (pc_update_plan_version p)),
       (''service'', plan_service_json (pc_service p)),
       (''analysis'', JObj [(''base'', analysis_key_json (pc_analysis_base p)), (''target'', analysis_key_json (pc_analysis_target p))]),
       (''changed_paths'', strings_json (pc_changed_paths p)),
       (''dependency_coverage'', JStr (dependency_coverage_text (pc_dependency_coverage p))),
       (''affected_endpoint_ids'', strings_json (pc_affected_endpoint_ids p)),
       (''action'', JStr (plan_action_text (pc_action p)))] @
      opt_member ''extraction_mode'' (map_option (JStr \<circ> extraction_mode_text) (pc_extraction_mode p)) @
      [(''fallback_reasons'', strings_json (map fallback_reason_text (pc_fallback_reasons p)))])"

definition canonicalSha256Hex :: "platform \<Rightarrow> json \<Rightarrow> string" where
  "canonicalSha256Hex pf value = pf_sha256_hex pf (canonicalJson value)"

definition plan_id_of :: "platform \<Rightarrow> 'a plan_content_scheme \<Rightarrow> string" where
  "plan_id_of pf content = ''update-plan-'' @ canonicalSha256Hex pf (plan_content_json content)"

section \<open>Semantic checks of a plan\<close>

definition orderIssue :: "string \<Rightarrow> validation_issue" where
  "orderIssue path = issue path ''semantic.noncanonical_order'' ''values are not in canonical order''"

text \<open>\<open>String(reasonRanks.get(reason))\<close>, the rank a decimal number compared as text.\<close>

definition index_of :: "'a list \<Rightarrow> 'a \<Rightarrow> nat" where
  "index_of xs x = length (takeWhile (\<lambda>y. y \<noteq> x) xs)"

definition reasonRank :: "update_fallback_reason \<Rightarrow> string" where
  "reasonRank reason = nat_text (index_of UPDATE_FALLBACK_REASONS reason)"

definition inside_root :: "string \<Rightarrow> string \<Rightarrow> bool" where
  "inside_root root path = (root = ''.'' \<or> path = root \<or> starts_with path (root @ ''/''))"

definition planOrderIssues :: "update_plan \<Rightarrow> validation_issue list" where
  "planOrderIssues plan =
     (if \<not> isCanonicalStringSet (pc_changed_paths plan) then [orderIssue ''/changed_paths''] else []) @
     (if \<not> isCanonicalStringSet (pc_affected_endpoint_ids plan) then [orderIssue ''/affected_endpoint_ids''] else []) @
     collect_indexed (\<lambda>index path. if \<not> inside_root (ps_service_root (pc_service plan)) path
       then [issue (at ''/changed_paths'' index) ''semantic.path_outside_service_root''
               ''changed path is outside the selected service root''] else []) (pc_changed_paths plan) @
     (if \<not> isCanonicalBy reasonRank (pc_fallback_reasons plan) then [orderIssue ''/fallback_reasons''] else [])"

definition reuseIssues :: "update_plan \<Rightarrow> validation_issue list" where
  "reuseIssues plan =
     (if pc_extraction_mode plan \<noteq> None
      then [issue ''/extraction_mode'' ''semantic.action_mode_mismatch'' ''reuse must omit extraction mode''] else []) @
     (if pc_fallback_reasons plan \<noteq> []
      then [issue ''/fallback_reasons'' ''semantic.action_mode_mismatch'' ''reuse cannot have fallback reasons''] else []) @
     (if pc_changed_paths plan \<noteq> [] \<or> pc_affected_endpoint_ids plan \<noteq> [] \<or>
         pc_dependency_coverage plan \<noteq> DependencyComplete \<or>
         ps_base_source_digest (pc_service plan) \<noteq> ps_target_source_digest (pc_service plan) \<or>
         canonicalJson (analysis_key_json (pc_analysis_base plan)) \<noteq> canonicalJson (analysis_key_json (pc_analysis_target plan))
      then [issue ''/action'' ''semantic.reuse_mismatch'' ''reuse requires identical source and analysis inputs''] else [])"

definition fullAnalysisIssues :: "update_plan \<Rightarrow> validation_issue list" where
  "fullAnalysisIssues plan =
     (if pc_extraction_mode plan \<noteq> Some FallbackFullService
      then [issue ''/extraction_mode'' ''semantic.action_mode_mismatch'' ''full analysis requires fallback mode''] else []) @
     (if FbAdapterIncrementalTargetsUnsupported \<notin> set (pc_fallback_reasons plan)
      then [issue ''/fallback_reasons'' ''semantic.action_mode_mismatch'' ''full analysis requires its adapter fallback reason''] else [])"

definition validatePlanSemantics :: "platform \<Rightarrow> update_plan \<Rightarrow> validation_issue list" where
  "validatePlanSemantics pf plan =
     planOrderIssues plan @
     (case pc_action plan of ReuseBaseSnapshot \<Rightarrow> reuseIssues plan | AnalyzeFullService \<Rightarrow> fullAnalysisIssues plan) @
     (if up_plan_id plan \<noteq> plan_id_of pf plan
      then [issue ''/plan_id'' ''semantic.identity_mismatch'' ''plan ID does not match canonical content''] else [])"

text \<open>
  \<open>parseUpdatePlan\<close> on a plan: the value is JSON, so \<open>safeParserFor\<close> goes on to the shape and
  then to the semantic checks; its issues are not used by the planner.
\<close>

definition parseUpdatePlan :: "platform \<Rightarrow> update_plan \<Rightarrow> update_plan option" where
  "parseUpdatePlan pf plan = (if update_plan_ok plan \<and> validatePlanSemantics pf plan = [] then Some plan else None)"

section \<open>Validating the planning input\<close>

definition prefixed :: "string \<Rightarrow> validation_issue list \<Rightarrow> validation_issue list" where
  "prefixed prefix issues =
     map (\<lambda>c. issue (sanitizeUpdateIssuePath (prefix @ (if vi_path c = ''/'' then '''' else vi_path c)))
                (vi_code c) ''nested contract is invalid'') issues"

text \<open>The two analysis objects that have to agree.\<close>

definition snapshot_analysis_json :: "contract_snapshot \<Rightarrow> json" where
  "snapshot_analysis_json s = JObj
     [(''analyzer'', analyzer_json (cs_analyzer s)), (''ir_version'', JStr (cs_ir_version s)),
      (''identity_version'', JStr (cs_identity_version s)), (''config_version'', JStr (cs_config_version s)),
      (''config_fingerprint'', JStr (cs_config_fingerprint s))]"

definition recorded_analysis_json :: "analysis_key \<Rightarrow> json" where
  "recorded_analysis_json k = JObj
     [(''analyzer'', analyzer_json (ak_analyzer k)), (''ir_version'', JStr (ak_ir_version k)),
      (''identity_version'', JStr (ak_identity_version k)), (''config_version'', JStr (ak_config_version k)),
      (''config_fingerprint'', JStr (ak_config_fingerprint k))]"

definition scopeIssues :: "planning_input \<Rightarrow> validation_issue list" where
  "scopeIssues i =
     (let snapshot = pi_base_snapshot i; target = pi_target i in
      (if \<not> canonicalSha256 (sr_source_digest (cs_source snapshot))
       then [issue ''/base_snapshot/source/source_digest'' ''shape.pattern'' ''base source digest must be canonical SHA-256''] else []) @
      (if pt_repository_id target \<noteq> sv_repository_id (cs_service snapshot)
       then [issue ''/target/repository_id'' ''semantic.scope_mismatch'' ''target repository differs from base service''] else []) @
      (if pt_service_id target \<noteq> sv_service_id (cs_service snapshot)
       then [issue ''/target/service_id'' ''semantic.scope_mismatch'' ''target service differs from base service''] else []) @
      (if pt_service_root target \<noteq> sv_root (cs_service snapshot)
       then [issue ''/target/service_root'' ''semantic.scope_mismatch'' ''target root differs from base service''] else []))"

text \<open>
  \<open>parseContractSnapshot\<close> inside repeats the shape that the input already has, so what is left
  of it are the semantic checks of \<open>Snapshot\<close>.
\<close>

definition semanticIssues :: "platform \<Rightarrow> planning_input \<Rightarrow> validation_issue list" where
  "semanticIssues pf i =
     (let order = (if \<not> isCanonicalStringSet (pi_changed_paths i)
                   then [issue ''/changed_paths'' ''semantic.noncanonical_order'' ''changed paths must be unique and UTF-8 byte sorted'']
                   else []);
          nested = validateContractSnapshotSemantics pf (pi_base_snapshot i) in
      if nested \<noteq> [] then order @ prefixed ''/base_snapshot'' nested
      else order @ scopeIssues i @
        (if canonicalJson (snapshot_analysis_json (pi_base_snapshot i)) \<noteq> canonicalJson (recorded_analysis_json (pi_base_analysis_key i))
         then [issue ''/base_analysis_key'' ''semantic.analysis_mismatch'' ''recorded base analysis differs from its snapshot''] else []) @
        collect_indexed (\<lambda>index path. if \<not> inside_root (pt_service_root (pi_target i)) path
          then [issue (at ''/changed_paths'' index) ''semantic.path_outside_service_root''
                  ''changed path is outside the selected service root''] else []) (pi_changed_paths i))"

text \<open>
  \<open>safeParserFor\<close>: a value that is not JSON never reaches the third-party validator. The
  validator \<open>ajv\<close> gives its issues or the typed value.
\<close>

definition safeParserFor ::
  "(jsval \<Rightarrow> (validation_issue list, 'a) result) \<Rightarrow> ('a \<Rightarrow> validation_issue list) \<Rightarrow> jsval \<Rightarrow> (validation_issue list, 'a) result" where
  "safeParserFor ajv semantic v =
     (case serializeCanonical () v of
        Inl _ \<Rightarrow> Inl [issue ''/'' ''shape.invalid_json_value'' ''input must contain only JSON values'']
      | Inr _ \<Rightarrow> parserFor ajv semantic v)"

lemma safeParserFor_Inr: "safeParserFor ajv semantic v = Inr x \<Longrightarrow> ajv v = Inr x \<and> semantic x = [] \<and> json_like v"
  using serializeCanonical_cases [of v "()"] by (auto simp: safeParserFor_def parserFor_Inr_iff split: sum.splits)

text \<open>\<open>unsafeParseUpdatePlanningInputShape\<close>, then the semantic checks.\<close>

definition parseUpdatePlanningInput ::
  "platform \<Rightarrow> (jsval \<Rightarrow> (validation_issue list, planning_input) result) \<Rightarrow> jsval \<Rightarrow> (validation_issue list, planning_input) result" where
  "parseUpdatePlanningInput pf ajv u =
     (case safeParserFor ajv (\<lambda>_. []) u of
        Inl issues \<Rightarrow> Inl (map (\<lambda>c. issue (sanitizeUpdateIssuePath (vi_path c)) (vi_code c) (vi_message c)) issues)
      | Inr input \<Rightarrow> (let issues = semanticIssues pf input in if issues = [] then Inr input else Inl issues))"

definition validateUpdatePlanningInput ::
  "platform \<Rightarrow> (jsval \<Rightarrow> (validation_issue list, planning_input) result) \<Rightarrow> jsval \<Rightarrow> (update_error, planning_input) result" where
  "validateUpdatePlanningInput pf ajv u =
     (case parseUpdatePlanningInput pf ajv u of
        Inr input \<Rightarrow> Inr input
      | Inl issues \<Rightarrow>
          (let issueCodes = map vi_code issues in
           Inl (updateValidationError
             (if ''semantic.scope_mismatch'' \<in> set issueCodes then UPDATE_SCOPE_MISMATCH
              else if ''semantic.analysis_mismatch'' \<in> set issueCodes then UPDATE_ANALYSIS_MISMATCH
              else INVALID_UPDATE_INPUT) issues)))"

section \<open>Comparing analyses\<close>

lemma analyzer_json_eq: "json_normal (analyzer_json a) = json_normal (analyzer_json b) \<longleftrightarrow> a = b"
proof
  assume "json_normal (analyzer_json a) = json_normal (analyzer_json b)"
  then have eq: "canonicalJson (analyzer_json a) = canonicalJson (analyzer_json b)" by (simp add: canonicalJson_json_text)
  have "wf_json (analyzer_json a)" "is_object (analyzer_json a)" for a by (simp_all add: analyzer_json_def)
  note get = canonicalJson_get [OF eq this(1,1,2,2)]
  from get [of "''analyzer_id''"] get [of "''analyzer_version''"] show "a = b"
    by (simp add: analyzer_json_def)
qed simp

lemma wf_analysis_key_json: "wf_json (analysis_key_json k)"
  by (simp add: analysis_key_json_def analyzer_json_def)

lemma analysis_key_json_eq [simp]: "canonicalJson (analysis_key_json a) = canonicalJson (analysis_key_json b) \<longleftrightarrow> a = b"
proof
  assume eq: "canonicalJson (analysis_key_json a) = canonicalJson (analysis_key_json b)"
  have "is_object (analysis_key_json k)" for k by (simp add: analysis_key_json_def)
  note get = canonicalJson_get [OF eq wf_analysis_key_json wf_analysis_key_json this this]
  from get [of "''analyzer''"] have "ak_analyzer a = ak_analyzer b" by (simp add: analysis_key_json_def analyzer_json_eq)
  moreover from get [of "''analyzer_exchange_version''"] get [of "''ir_version''"] get [of "''identity_version''"]
    get [of "''config_version''"] get [of "''config_fingerprint''"]
  have "ak_analyzer_exchange_version a = ak_analyzer_exchange_version b" "ak_ir_version a = ak_ir_version b"
    "ak_identity_version a = ak_identity_version b" "ak_config_version a = ak_config_version b"
    "ak_config_fingerprint a = ak_config_fingerprint b"
    by (simp_all add: analysis_key_json_def)
  ultimately show "a = b" by simp
qed simp

definition recorded_agrees :: "contract_snapshot \<Rightarrow> analysis_key \<Rightarrow> bool" where
  "recorded_agrees s k =
     (cs_analyzer s = ak_analyzer k \<and> cs_ir_version s = ak_ir_version k \<and> cs_identity_version s = ak_identity_version k \<and>
      cs_config_version s = ak_config_version k \<and> cs_config_fingerprint s = ak_config_fingerprint k)"

lemma recorded_analysis_eq:
  "canonicalJson (snapshot_analysis_json s) = canonicalJson (recorded_analysis_json k) \<longleftrightarrow> recorded_agrees s k"
proof
  assume eq: "canonicalJson (snapshot_analysis_json s) = canonicalJson (recorded_analysis_json k)"
  have "wf_json (snapshot_analysis_json s)" "wf_json (recorded_analysis_json k)"
    "is_object (snapshot_analysis_json s)" "is_object (recorded_analysis_json k)"
    by (simp_all add: snapshot_analysis_json_def recorded_analysis_json_def analyzer_json_def)
  note get = canonicalJson_get [OF eq this]
  from get [of "''analyzer''"] get [of "''ir_version''"] get [of "''identity_version''"]
    get [of "''config_version''"] get [of "''config_fingerprint''"]
  show "recorded_agrees s k"
    by (simp add: snapshot_analysis_json_def recorded_analysis_json_def recorded_agrees_def analyzer_json_eq)
qed (simp add: recorded_agrees_def snapshot_analysis_json_def recorded_analysis_json_def)

section \<open>Accepted inputs and plans\<close>

lemma collect_indexed_Nil: "collect_from n f xs = [] \<longleftrightarrow> (\<forall>j < length xs. f (n + j) (xs ! j) = [])"
  by (induction n f xs rule: collect_from.induct) (auto simp: less_Suc_eq_0_disj)

definition planning_input_valid :: "platform \<Rightarrow> planning_input \<Rightarrow> bool" where
  "planning_input_valid pf i =
     (isCanonicalStringSet (pi_changed_paths i) \<and>
      validateContractSnapshotSemantics pf (pi_base_snapshot i) = [] \<and>
      canonicalSha256 (sr_source_digest (cs_source (pi_base_snapshot i))) \<and>
      pt_repository_id (pi_target i) = sv_repository_id (cs_service (pi_base_snapshot i)) \<and>
      pt_service_id (pi_target i) = sv_service_id (cs_service (pi_base_snapshot i)) \<and>
      pt_service_root (pi_target i) = sv_root (cs_service (pi_base_snapshot i)) \<and>
      recorded_agrees (pi_base_snapshot i) (pi_base_analysis_key i) \<and>
      list_all (inside_root (pt_service_root (pi_target i))) (pi_changed_paths i))"

lemma semanticIssues_Nil: "semanticIssues pf i = [] \<longleftrightarrow> planning_input_valid pf i"
  by (auto simp: semanticIssues_def scopeIssues_def planning_input_valid_def recorded_analysis_eq prefixed_def
      collect_indexed_Nil list_all_length Let_def)

lemma parseUpdatePlanningInput_Inr:
  "parseUpdatePlanningInput pf ajv u = Inr i \<longleftrightarrow> safeParserFor ajv (\<lambda>_. []) u = Inr i \<and> planning_input_valid pf i"
  by (auto simp: parseUpdatePlanningInput_def semanticIssues_Nil [symmetric] Let_def split: sum.splits if_splits)

lemma validateUpdatePlanningInput_Inr:
  "validateUpdatePlanningInput pf ajv u = Inr i \<longleftrightarrow> parseUpdatePlanningInput pf ajv u = Inr i"
  by (auto simp: validateUpdatePlanningInput_def Let_def split: sum.splits)

end
