(* ===== verification/UpdPlanner.thy ===== *)
theory UpdPlanner
  imports UpdPlan
begin

text \<open>
  The update planner, the second half of \<open>packages/updates/src/planner.ts\<close>: whether the base
  snapshot can be reused, and otherwise which endpoints the changed paths affect and why a full
  analysis is needed. The ownership builder is the parameter \<open>createUpdatePlanner\<close> takes; a
  \<open>TypeError\<close> inside it or on a missing endpoint is \<open>ThrownOther\<close>.
\<close>

section \<open>Changed records\<close>

definition serviceRelativePath :: "string \<Rightarrow> string \<Rightarrow> string" where
  "serviceRelativePath projectPath serviceRoot =
     (if serviceRoot = ''.'' then projectPath
      else if projectPath = serviceRoot then ''.''
      else drop (length serviceRoot + 1) projectPath)"

definition evidence_path :: "evidence \<Rightarrow> string option" where
  "evidence_path e = lo_path (ev_location e)"

text \<open>\<open>path !== undefined && isNormalizedServicePath(path)\<close>.\<close>

definition on_source_path :: "evidence \<Rightarrow> bool" where
  "on_source_path e = (case evidence_path e of None \<Rightarrow> False | Some p \<Rightarrow> isNormalizedServicePath p)"

definition owners_of :: "(string, string list) jmap \<Rightarrow> string \<Rightarrow> string list" where
  "owners_of owners i = map_get_or [] owners i"

record changed_records =
  cr_affectedEndpointIds :: "string list"
  cr_indexed :: bool
  cr_incomplete :: bool

definition hasOrphanEvidence :: "contract_snapshot \<Rightarrow> ownership_index \<Rightarrow> bool" where
  "hasOrphanEvidence s ix =
     list_ex (\<lambda>e. on_source_path e \<and> owners_of (oi_evidenceOwners ix) (ev_evidence_id e) = []) (cs_evidence s)"

definition hasOrphanSchema :: "contract_snapshot \<Rightarrow> ownership_index \<Rightarrow> bool" where
  "hasOrphanSchema s ix =
     list_ex (\<lambda>c.
       list_ex (\<lambda>i. case list_find (\<lambda>e. ev_evidence_id e = i) (cs_evidence s) of
                      None \<Rightarrow> False | Some e \<Rightarrow> on_source_path e) (sm_evidence_ids c) \<and>
       owners_of (oi_schemaOwners ix) (sm_schema_id c) = []) (map snd (cs_schemas s))"

text \<open>One evidence record on the path: its owners, and whether another endpoint claims what is scoped.\<close>

definition scanEvidence :: "ownership_index \<Rightarrow> string list \<times> bool \<Rightarrow> evidence \<Rightarrow> string list \<times> bool" where
  "scanEvidence ix acc e =
     (let owners = owners_of (oi_evidenceOwners ix) (ev_evidence_id e) in
      (set_add_all owners (fst acc),
       snd acc \<or> owners = [] \<or>
       (case es_endpoint_id (ev_scope e) of
          None \<Rightarrow> False
        | Some scoped \<Rightarrow>
            list_ex (\<lambda>(endpointId, routes). endpointId \<noteq> scoped \<and> list_ex (\<lambda>route. route \<noteq> RouteDependencyEndpoint) routes)
              (map_get_or [] (oi_evidenceOwnerRoutes ix) (ev_evidence_id e)))))"

definition scanSchema :: "ownership_index \<Rightarrow> string list \<times> bool \<Rightarrow> schema_component \<Rightarrow> string list \<times> bool" where
  "scanSchema ix acc c =
     (let owners = owners_of (oi_schemaOwners ix) (sm_schema_id c) in
      (set_add_all owners (fst acc), snd acc \<or> owners = []))"

definition evidenceOnPath :: "contract_snapshot \<Rightarrow> string \<Rightarrow> evidence list" where
  "evidenceOnPath s servicePath =
     filter (\<lambda>e. evidence_path e = Some servicePath \<and> isNormalizedServicePath servicePath) (cs_evidence s)"

definition schemasOnPath :: "contract_snapshot \<Rightarrow> string \<Rightarrow> schema_component list" where
  "schemasOnPath s servicePath =
     filter (\<lambda>c. list_ex (\<lambda>i. i \<in> set (map ev_evidence_id (evidenceOnPath s servicePath))) (sm_evidence_ids c))
       (map snd (cs_schemas s))"

definition changedRecords :: "contract_snapshot \<Rightarrow> ownership_index \<Rightarrow> string \<Rightarrow> changed_records" where
  "changedRecords s ix servicePath =
     (if servicePath = ''.'' then
        \<lparr>cr_affectedEndpointIds = js_set (oi_endpointIds ix), cr_indexed = True,
         cr_incomplete = (hasOrphanEvidence s ix \<or> hasOrphanSchema s ix)\<rparr>
      else
        (let evidence = evidenceOnPath s servicePath;
             schemas = schemasOnPath s servicePath;
             acc = foldl (scanSchema ix) (foldl (scanEvidence ix) ([], False) evidence) schemas
         in \<lparr>cr_affectedEndpointIds = fst acc, cr_indexed = (evidence \<noteq> [] \<or> schemas \<noteq> []), cr_incomplete = snd acc\<rparr>))"

text \<open>\<open>some\<close> with a callback that may throw.\<close>

fun some_opt :: "('a \<Rightarrow> bool option) \<Rightarrow> 'a list \<Rightarrow> bool option" where
  "some_opt p [] = Some False"
| "some_opt p (x # xs) =
     (case p x of None \<Rightarrow> None | Some b \<Rightarrow> (if b then Some True else some_opt p xs))"

definition endpointWithoutSourceClosure :: "contract_snapshot \<Rightarrow> ownership_index \<Rightarrow> bool option" where
  "endpointWithoutSourceClosure s ix =
     (let evidenceById = keyed ev_evidence_id (cs_evidence s) in
      some_opt (\<lambda>endpointId.
        map_option (\<lambda>endpoint.
          \<not> list_ex (\<lambda>i. case map_get evidenceById i of None \<Rightarrow> False | Some e \<Rightarrow> on_source_path e) (ow_evidenceIds endpoint))
        (map_get (oi_endpointOwnership ix) endpointId)) (oi_endpointIds ix))"

definition ownedSourcePathIsInvalid :: "contract_snapshot \<Rightarrow> ownership_index \<Rightarrow> bool" where
  "ownedSourcePathIsInvalid s ix =
     list_ex (\<lambda>e. (case evidence_path e of None \<Rightarrow> False | Some p \<Rightarrow> \<not> isNormalizedServicePath p) \<and>
       owners_of (oi_evidenceOwners ix) (ev_evidence_id e) \<noteq> []) (cs_evidence s)"

section \<open>The plan\<close>

fun fallbackReasonRank :: "update_fallback_reason \<Rightarrow> nat" where
  "fallbackReasonRank FbAdapterIncrementalTargetsUnsupported = 0"
| "fallbackReasonRank FbPriorCoverageIncomplete = 1"
| "fallbackReasonRank FbChangedPathsIncomplete = 2"
| "fallbackReasonRank FbChangedPathsDigestMismatch = 3"
| "fallbackReasonRank FbChangedPathUnindexed = 4"
| "fallbackReasonRank FbDependencyIndexIncomplete = 5"
| "fallbackReasonRank FbAnalyzerChanged = 6"
| "fallbackReasonRank FbConfigChanged = 7"
| "fallbackReasonRank FbIrChanged = 8"
| "fallbackReasonRank FbIdentityChanged = 9"

definition analyzer_exchange_json :: "analysis_key \<Rightarrow> json" where
  "analyzer_exchange_json k = JObj
     [(''analyzer'', analyzer_json (ak_analyzer k)), (''analyzer_exchange_version'', JStr (ak_analyzer_exchange_version k))]"

definition analyzerChanged :: "planning_input \<Rightarrow> bool" where
  "analyzerChanged i =
     (canonicalJson (analyzer_exchange_json (pi_base_analysis_key i)) \<noteq>
      canonicalJson (analyzer_exchange_json (pt_analysis_key (pi_target i))))"

definition configChanged :: "planning_input \<Rightarrow> bool" where
  "configChanged i =
     (ak_config_version (pi_base_analysis_key i) \<noteq> ak_config_version (pt_analysis_key (pi_target i)) \<or>
      ak_config_fingerprint (pi_base_analysis_key i) \<noteq> ak_config_fingerprint (pt_analysis_key (pi_target i)))"

definition irChanged :: "planning_input \<Rightarrow> bool" where
  "irChanged i = (ak_ir_version (pi_base_analysis_key i) \<noteq> ak_ir_version (pt_analysis_key (pi_target i)))"

definition identityChanged :: "planning_input \<Rightarrow> bool" where
  "identityChanged i = (ak_identity_version (pi_base_analysis_key i) \<noteq> ak_identity_version (pt_analysis_key (pi_target i)))"

definition analysisBoundaryChanged :: "planning_input \<Rightarrow> bool" where
  "analysisBoundaryChanged i = (analyzerChanged i \<or> configChanged i \<or> irChanged i \<or> identityChanged i)"

definition sourceDigestMatches :: "planning_input \<Rightarrow> bool" where
  "sourceDigestMatches i = (sr_source_digest (cs_source (pi_base_snapshot i)) = pt_source_digest (pi_target i))"

definition priorCoverageIncomplete :: "planning_input \<Rightarrow> bool" where
  "priorCoverageIncomplete i = coverage_incomplete (cs_coverage (pi_base_snapshot i))"

definition mayReuse :: "planning_input \<Rightarrow> bool" where
  "mayReuse i =
     (sourceDigestMatches i \<and> \<not> analysisBoundaryChanged i \<and> \<not> priorCoverageIncomplete i \<and>
      pi_changed_paths_complete i \<and> pi_changed_paths i = [])"

definition planService :: "planning_input \<Rightarrow> plan_service" where
  "planService i =
     \<lparr>ps_repository_id = pt_repository_id (pi_target i), ps_service_id = pt_service_id (pi_target i),
      ps_service_root = pt_service_root (pi_target i), ps_base_snapshot_id = cs_snapshot_id (pi_base_snapshot i),
      ps_base_revision = sr_immutable_revision (cs_source (pi_base_snapshot i)),
      ps_target_revision = pt_immutable_revision (pi_target i),
      ps_base_source_digest = sr_source_digest (cs_source (pi_base_snapshot i)),
      ps_target_source_digest = pt_source_digest (pi_target i)\<rparr>"

definition with_plan_id :: "platform \<Rightarrow> plan_content \<Rightarrow> update_plan" where
  "with_plan_id pf content = plan_content.extend content \<lparr>up_plan_id = plan_id_of pf content\<rparr>"

definition reuseContent :: "planning_input \<Rightarrow> plan_content" where
  "reuseContent i =
     \<lparr>pc_update_plan_version = UPDATE_PLAN_VERSION, pc_service = planService i,
      pc_analysis_base = pi_base_analysis_key i, pc_analysis_target = pt_analysis_key (pi_target i),
      pc_changed_paths = pi_changed_paths i, pc_dependency_coverage = DependencyComplete,
      pc_affected_endpoint_ids = [], pc_action = ReuseBaseSnapshot, pc_extraction_mode = None,
      pc_fallback_reasons = []\<rparr>"

text \<open>The loop over the changed paths: affected endpoints, \<open>changedPathUnindexed\<close>, \<open>dependencyIndexIncomplete\<close>.\<close>

record path_scan =
  sc_affected :: "string list"
  sc_unindexed :: bool
  sc_incomplete :: bool

definition scanPath :: "planning_input \<Rightarrow> ownership_index \<Rightarrow> path_scan \<Rightarrow> string \<Rightarrow> path_scan" where
  "scanPath i ix scan projectPath =
     (let records = changedRecords (pi_base_snapshot i) ix (serviceRelativePath projectPath (pt_service_root (pi_target i))) in
      \<lparr>sc_affected = set_add_all (cr_affectedEndpointIds records) (sc_affected scan),
       sc_unindexed = (sc_unindexed scan \<or> \<not> cr_indexed records),
       sc_incomplete = (sc_incomplete scan \<or> cr_incomplete records)\<rparr>)"

definition scanPaths :: "planning_input \<Rightarrow> ownership_index \<Rightarrow> bool \<Rightarrow> path_scan" where
  "scanPaths i ix incomplete =
     (let scan = foldl (scanPath i ix) \<lparr>sc_affected = [], sc_unindexed = False, sc_incomplete = incomplete\<rparr> (pi_changed_paths i) in
      if analysisBoundaryChanged i then scan\<lparr>sc_affected := set_add_all (oi_endpointIds ix) (sc_affected scan)\<rparr> else scan)"

definition digestMismatch :: "planning_input \<Rightarrow> bool" where
  "digestMismatch i = (\<not> sourceDigestMatches i \<and> pi_changed_paths i = [])"

definition add_when :: "bool \<Rightarrow> 'a \<Rightarrow> 'a list \<Rightarrow> 'a list" where
  "add_when b x s = (if b then set_add x s else s)"

definition fallbackReasons :: "planning_input \<Rightarrow> path_scan \<Rightarrow> update_fallback_reason list" where
  "fallbackReasons i scan =
     (let reasons = [FbAdapterIncrementalTargetsUnsupported];
          reasons = add_when (priorCoverageIncomplete i) FbPriorCoverageIncomplete reasons;
          reasons = (if \<not> pi_changed_paths_complete i then set_add FbChangedPathsIncomplete reasons
                     else add_when (digestMismatch i) FbChangedPathsDigestMismatch reasons);
          reasons = add_when (sc_unindexed scan) FbChangedPathUnindexed reasons;
          reasons = add_when (sc_incomplete scan) FbDependencyIndexIncomplete reasons;
          reasons = add_when (analyzerChanged i) FbAnalyzerChanged reasons;
          reasons = add_when (configChanged i) FbConfigChanged reasons;
          reasons = add_when (irChanged i) FbIrChanged reasons;
          reasons = add_when (identityChanged i) FbIdentityChanged reasons
      in js_sort (\<lambda>left right. int (fallbackReasonRank left) - int (fallbackReasonRank right)) reasons)"

definition dependencyCoverageIncomplete :: "planning_input \<Rightarrow> path_scan \<Rightarrow> bool" where
  "dependencyCoverageIncomplete i scan =
     (priorCoverageIncomplete i \<or> \<not> pi_changed_paths_complete i \<or> digestMismatch i \<or> sc_unindexed scan \<or>
      sc_incomplete scan \<or> analysisBoundaryChanged i)"

definition fullAnalysisContent :: "planning_input \<Rightarrow> path_scan \<Rightarrow> plan_content" where
  "fullAnalysisContent i scan =
     \<lparr>pc_update_plan_version = UPDATE_PLAN_VERSION, pc_service = planService i,
      pc_analysis_base = pi_base_analysis_key i, pc_analysis_target = pt_analysis_key (pi_target i),
      pc_changed_paths = pi_changed_paths i,
      pc_dependency_coverage = (if dependencyCoverageIncomplete i scan then DependencyIncomplete else DependencyComplete),
      pc_affected_endpoint_ids = js_sort compareUtf8 (sc_affected scan),
      pc_action = AnalyzeFullService, pc_extraction_mode = Some FallbackFullService,
      pc_fallback_reasons = fallbackReasons i scan\<rparr>"

definition checked_plan :: "platform \<Rightarrow> plan_content \<Rightarrow> (thrown, update_plan) result" where
  "checked_plan pf content =
     (case parseUpdatePlan pf (with_plan_id pf content) of
        None \<Rightarrow> Inl (ThrownUpdate (updateError INVALID_UPDATE_INPUT None None))
      | Some plan \<Rightarrow> Inr plan)"

definition createUpdatePlanner ::
  "(contract_snapshot \<Rightarrow> ownership_index option) \<Rightarrow> platform \<Rightarrow>
   (jsval \<Rightarrow> (validation_issue list, planning_input) result) \<Rightarrow> jsval \<Rightarrow> (thrown, update_plan) result" where
  "createUpdatePlanner ownershipBuilder pf ajv value =
     (case validateUpdatePlanningInput pf ajv value of
        Inl e \<Rightarrow> Inl (ThrownUpdate e)
      | Inr i \<Rightarrow>
          (if mayReuse i then checked_plan pf (reuseContent i)
           else (case ownershipBuilder (pi_base_snapshot i) of
             None \<Rightarrow> Inl ThrownOther
           | Some ix \<Rightarrow>
               (case endpointWithoutSourceClosure (pi_base_snapshot i) ix of
                  None \<Rightarrow> Inl ThrownOther
                | Some unclosed \<Rightarrow>
                    checked_plan pf (fullAnalysisContent i
                      (scanPaths i ix (unclosed \<or> ownedSourcePathIsInvalid (pi_base_snapshot i) ix)))))))"

definition planUpdate ::
  "platform \<Rightarrow> (jsval \<Rightarrow> (validation_issue list, planning_input) result) \<Rightarrow> jsval \<Rightarrow> (thrown, update_plan) result" where
  "planUpdate = createUpdatePlanner buildEndpointOwnershipIndex"

section \<open>Facts of the parts\<close>

lemma reasonRank_eq: "reasonRank r = [char_of (48 + fallbackReasonRank r)] \<and> fallbackReasonRank r < 10"
  by (cases r) (simp_all add: reasonRank_def index_of_def UPDATE_FALLBACK_REASONS_def nat_text.simps)

lemma reasonRank_less: "reasonRank a < reasonRank b \<longleftrightarrow> fallbackReasonRank a < fallbackReasonRank b"
proof -
  have "char_of (48 + n) < (char_of (48 + m) :: char) \<longleftrightarrow> n < m" if "n < 10" "m < 10" for n m :: nat
    using that by (simp add: less_char_def of_char_char_of)
  then show ?thesis using reasonRank_eq [of a] reasonRank_eq [of b] by simp
qed

lemma fallbackReasonRank_inj: "fallbackReasonRank a = fallbackReasonRank b \<longleftrightarrow> a = b"
  by (cases a; cases b) simp_all

lemma set_add_when [simp]: "set (add_when b x s) = (if b then insert x (set s) else set s)"
  by (simp add: add_when_def)

lemma distinct_add_when [simp]: "distinct (add_when b x s) = distinct s"
  by (simp add: add_when_def)

definition reason_holds :: "planning_input \<Rightarrow> path_scan \<Rightarrow> update_fallback_reason \<Rightarrow> bool" where
  "reason_holds i scan r =
     (case r of
        FbAdapterIncrementalTargetsUnsupported \<Rightarrow> True
      | FbPriorCoverageIncomplete \<Rightarrow> priorCoverageIncomplete i
      | FbChangedPathsIncomplete \<Rightarrow> \<not> pi_changed_paths_complete i
      | FbChangedPathsDigestMismatch \<Rightarrow> pi_changed_paths_complete i \<and> digestMismatch i
      | FbChangedPathUnindexed \<Rightarrow> sc_unindexed scan
      | FbDependencyIndexIncomplete \<Rightarrow> sc_incomplete scan
      | FbAnalyzerChanged \<Rightarrow> analyzerChanged i
      | FbConfigChanged \<Rightarrow> configChanged i
      | FbIrChanged \<Rightarrow> irChanged i
      | FbIdentityChanged \<Rightarrow> identityChanged i)"

lemma sort_by_rank: "js_sort (\<lambda>left right. int (fallbackReasonRank left) - int (fallbackReasonRank right)) = sort_key fallbackReasonRank"
  by (intro ext js_sort_key) auto

lemma fallbackReasons_facts:
  "set (fallbackReasons i scan) = {r. reason_holds i scan r}" "distinct (fallbackReasons i scan)"
  "sorted_wrt (\<lambda>a b. fallbackReasonRank a < fallbackReasonRank b) (fallbackReasons i scan)"
proof -
  show "set (fallbackReasons i scan) = {r. reason_holds i scan r}"
  proof (rule set_eqI)
    fix r show "r \<in> set (fallbackReasons i scan) \<longleftrightarrow> r \<in> {r. reason_holds i scan r}"
      by (cases r) (simp_all add: fallbackReasons_def reason_holds_def sort_by_rank Let_def)
  qed
  show d: "distinct (fallbackReasons i scan)"
    by (simp add: fallbackReasons_def sort_by_rank Let_def)
  have "sorted (map fallbackReasonRank (fallbackReasons i scan))"
    by (simp add: fallbackReasons_def sort_by_rank Let_def)
  moreover have "distinct (map fallbackReasonRank (fallbackReasons i scan))"
    using d by (simp add: distinct_map inj_on_def fallbackReasonRank_inj)
  ultimately show "sorted_wrt (\<lambda>a b. fallbackReasonRank a < fallbackReasonRank b) (fallbackReasons i scan)"
    by (simp add: strict_sorted_iff sorted_wrt_map [symmetric])
qed

lemma fallbackReasons_canonical: "isCanonicalBy reasonRank (fallbackReasons i scan)"
  using fallbackReasons_facts(3) [of i scan]
  by (simp add: isCanonicalBy_iff sorted_wrt_map reasonRank_less)

lemma analyzer_exchange_eq:
  "canonicalJson (analyzer_exchange_json a) = canonicalJson (analyzer_exchange_json b) \<longleftrightarrow>
   ak_analyzer a = ak_analyzer b \<and> ak_analyzer_exchange_version a = ak_analyzer_exchange_version b"
proof
  assume eq: "canonicalJson (analyzer_exchange_json a) = canonicalJson (analyzer_exchange_json b)"
  have "wf_json (analyzer_exchange_json a)" "is_object (analyzer_exchange_json a)" for a
    by (simp_all add: analyzer_exchange_json_def analyzer_json_def)
  note get = canonicalJson_get [OF eq this(1,1,2,2)]
  from get [of "''analyzer''"] get [of "''analyzer_exchange_version''"]
  show "ak_analyzer a = ak_analyzer b \<and> ak_analyzer_exchange_version a = ak_analyzer_exchange_version b"
    by (simp add: analyzer_exchange_json_def analyzer_json_eq)
qed (simp add: analyzer_exchange_json_def)

lemma analysisBoundaryChanged_iff:
  "analysisBoundaryChanged i \<longleftrightarrow> pi_base_analysis_key i \<noteq> pt_analysis_key (pi_target i)"
  by (auto simp: analysisBoundaryChanged_def analyzerChanged_def analyzer_exchange_eq configChanged_def irChanged_def
      identityChanged_def)

lemma with_plan_id_simps [simp]:
  "pc_update_plan_version (with_plan_id pf c) = pc_update_plan_version c" "pc_service (with_plan_id pf c) = pc_service c"
  "pc_analysis_base (with_plan_id pf c) = pc_analysis_base c" "pc_analysis_target (with_plan_id pf c) = pc_analysis_target c"
  "pc_changed_paths (with_plan_id pf c) = pc_changed_paths c" "pc_dependency_coverage (with_plan_id pf c) = pc_dependency_coverage c"
  "pc_affected_endpoint_ids (with_plan_id pf c) = pc_affected_endpoint_ids c" "pc_action (with_plan_id pf c) = pc_action c"
  "pc_extraction_mode (with_plan_id pf c) = pc_extraction_mode c" "pc_fallback_reasons (with_plan_id pf c) = pc_fallback_reasons c"
  "up_plan_id (with_plan_id pf c) = plan_id_of pf c"
  by (simp_all add: with_plan_id_def plan_content.defs)

lemma plan_id_with_plan_id [simp]: "plan_id_of pf (with_plan_id pf c) = plan_id_of pf c"
  by (simp add: plan_id_of_def plan_content_json_def)

section \<open>Plans that are always accepted\<close>

definition base_revision_ok :: "planning_input \<Rightarrow> bool" where
  "base_revision_ok i = immutable_revision (sr_immutable_revision (cs_source (pi_base_snapshot i)))"

lemma planService_ok:
  assumes "planning_input_ok i" "planning_input_valid pf i"
  shows "plan_service_ok (planService i) \<longleftrightarrow> base_revision_ok i"
  using assms by (auto simp: plan_service_ok_def planService_def planning_input_ok_def planning_target_ok_def
      planning_input_valid_def base_revision_ok_def)

lemma plan_id_nonempty: "plan_id_of pf c \<noteq> []"
  by (simp add: plan_id_of_def)

lemma isCanonicalStringSet_Nil [simp]: "isCanonicalStringSet []"
  by (simp add: isCanonicalStringSet_iff)



lemma reuse_accepted:
  assumes "planning_input_ok i" "planning_input_valid pf i" "mayReuse i"
  shows "parseUpdatePlan pf (with_plan_id pf (reuseContent i)) =
    (if base_revision_ok i then Some (with_plan_id pf (reuseContent i)) else None)"
proof -
  have "validatePlanSemantics pf (with_plan_id pf (reuseContent i)) = []"
    using assms(3) by (simp add: validatePlanSemantics_def planOrderIssues_def reuseIssues_def reuseContent_def mayReuse_def
        isCanonicalBy_iff analysisBoundaryChanged_iff planService_def sourceDigestMatches_def)
  moreover have "update_plan_ok (with_plan_id pf (reuseContent i)) \<longleftrightarrow> base_revision_ok i"
    using assms planService_ok [OF assms(1,2)]
    by (simp add: update_plan_ok_def reuseContent_def plan_id_nonempty planning_input_ok_def planning_target_ok_def mayReuse_def)
  ultimately show ?thesis by (simp add: parseUpdatePlan_def)
qed

lemma full_accepted:
  assumes "planning_input_ok i" "planning_input_valid pf i"
    and affected: "distinct (sc_affected scan)" "set (sc_affected scan) \<subseteq> set (map ep_endpoint_id (cs_endpoints (pi_base_snapshot i)))"
  shows "parseUpdatePlan pf (with_plan_id pf (fullAnalysisContent i scan)) =
    (if base_revision_ok i then Some (with_plan_id pf (fullAnalysisContent i scan)) else None)"
proof -
  have sorted: "isCanonicalStringSet (sort (sc_affected scan))"
    using affected(1) by (simp add: isCanonicalStringSet_iff sorted_wrt_less_sort)
  have reason: "FbAdapterIncrementalTargetsUnsupported \<in> set (fallbackReasons i scan)"
    by (simp add: fallbackReasons_facts reason_holds_def)
  have "validatePlanSemantics pf (with_plan_id pf (fullAnalysisContent i scan)) = []"
    using assms(2) sorted reason
    by (auto simp: validatePlanSemantics_def planOrderIssues_def fullAnalysisIssues_def fullAnalysisContent_def
        js_sort_compareUtf8 planning_input_valid_def fallbackReasons_canonical planService_def
        collect_indexed_Nil list_all_length)
  moreover have "list_all (\<lambda>e. e \<noteq> []) (sort (sc_affected scan))"
    using affected(2) assms(1) by (fastforce simp: planning_input_ok_def list_all_iff)
  moreover have "distinct (pi_changed_paths i)"
    using assms(2) by (simp add: planning_input_valid_def isCanonicalStringSet_iff strict_sorted_iff)
  ultimately show ?thesis
    using assms planService_ok [OF assms(1,2)] affected(1) fallbackReasons_facts(2) [of i scan]
    by (simp add: parseUpdatePlan_def update_plan_ok_def fullAnalysisContent_def plan_id_nonempty planning_input_ok_def
        planning_target_ok_def js_sort_compareUtf8)
qed

section \<open>The affected endpoints\<close>

text \<open>The endpoints a changed path affects, stated over the ownership relation of the base snapshot.\<close>

definition affects :: "contract_snapshot \<Rightarrow> string \<Rightarrow> string \<Rightarrow> bool" where
  "affects s servicePath i \<longleftrightarrow>
     (if servicePath = ''.'' then i \<in> set (map ep_endpoint_id (cs_endpoints s))
      else isNormalizedServicePath servicePath \<and>
        (\<exists>e \<in> set (cs_evidence s). evidence_path e = Some servicePath \<and>
           ((i, Inl (ev_evidence_id e)) \<in> owns s \<or>
            (\<exists>c \<in> set (map snd (cs_schemas s)). ev_evidence_id e \<in> set (sm_evidence_ids c) \<and> (i, Inr (sm_schema_id c)) \<in> owns s))))"

lemma scanEvidence_affected:
  "set (fst (foldl (scanEvidence ix) acc es)) = set (fst acc) \<union> (\<Union>e \<in> set es. set (owners_of (oi_evidenceOwners ix) (ev_evidence_id e)))"
  "distinct (fst acc) \<Longrightarrow> distinct (fst (foldl (scanEvidence ix) acc es))"
  by (induction es arbitrary: acc) (auto simp: scanEvidence_def Let_def)

lemma scanSchema_affected:
  "set (fst (foldl (scanSchema ix) acc cs)) = set (fst acc) \<union> (\<Union>c \<in> set cs. set (owners_of (oi_schemaOwners ix) (sm_schema_id c)))"
  "distinct (fst acc) \<Longrightarrow> distinct (fst (foldl (scanSchema ix) acc cs))"
  by (induction cs arbitrary: acc) (auto simp: scanSchema_def Let_def)

lemma scanPath_affected:
  "set (sc_affected (foldl (scanPath i ix) acc paths)) = set (sc_affected acc) \<union>
     (\<Union>p \<in> set paths. set (cr_affectedEndpointIds (changedRecords (pi_base_snapshot i) ix
        (serviceRelativePath p (pt_service_root (pi_target i))))))"
  "distinct (sc_affected acc) \<Longrightarrow> distinct (sc_affected (foldl (scanPath i ix) acc paths))"
  by (induction paths arbitrary: acc) (auto simp: scanPath_def Let_def)

lemma scanPaths_distinct: "distinct (sc_affected (scanPaths i ix b))"
  by (simp add: scanPaths_def scanPath_affected(2) Let_def)

lemma some_opt_defined: "(\<And>x. x \<in> set xs \<Longrightarrow> p x \<noteq> None) \<Longrightarrow> some_opt p xs \<noteq> None"
  by (induction xs) (auto split: option.split)

context ownership_builder
begin

lemma changed_affected:
  assumes "closed_snapshot s" "build s = Some ix"
  shows "i \<in> set (cr_affectedEndpointIds (changedRecords s ix p)) \<longleftrightarrow> affects s p i"
proof (cases "p = ''.''")
  case True
  then show ?thesis using index_endpoints [OF assms] by (simp add: changedRecords_def affects_def)
next
  case False
  have owners: "i \<in> set (owners_of (oi_evidenceOwners ix) e) \<longleftrightarrow> (i, Inl e) \<in> owns s"
    "i \<in> set (owners_of (oi_schemaOwners ix) c) \<longleftrightarrow> (i, Inr c) \<in> owns s" for e c
    using evidence_owner [OF assms] schema_owner [OF assms] by (simp_all add: owners_of_def)
  have "i \<in> set (cr_affectedEndpointIds (changedRecords s ix p)) \<longleftrightarrow>
      (\<exists>e \<in> set (evidenceOnPath s p). (i, Inl (ev_evidence_id e)) \<in> owns s) \<or>
      (\<exists>c \<in> set (schemasOnPath s p). (i, Inr (sm_schema_id c)) \<in> owns s)"
    using False by (auto simp: changedRecords_def Let_def scanEvidence_affected scanSchema_affected owners)
  also have "\<dots> \<longleftrightarrow> affects s p i"
    using False by (auto simp: affects_def evidenceOnPath_def schemasOnPath_def list_ex_iff)
  finally show ?thesis .
qed

lemma scan_affected:
  assumes "closed_snapshot (pi_base_snapshot i)" "build (pi_base_snapshot i) = Some ix"
  shows "e \<in> set (sc_affected (scanPaths i ix b)) \<longleftrightarrow>
    analysisBoundaryChanged i \<and> e \<in> set (map ep_endpoint_id (cs_endpoints (pi_base_snapshot i))) \<or>
    (\<exists>p \<in> set (pi_changed_paths i). affects (pi_base_snapshot i) (serviceRelativePath p (pt_service_root (pi_target i))) e)"
  using index_endpoints [OF assms]
  by (simp add: scanPaths_def Let_def scanPath_affected changed_affected [OF assms])

lemma scan_endpoints:
  assumes "closed_snapshot (pi_base_snapshot i)" "build (pi_base_snapshot i) = Some ix"
  shows "set (sc_affected (scanPaths i ix b)) \<subseteq> set (map ep_endpoint_id (cs_endpoints (pi_base_snapshot i)))"
  using scan_affected [OF assms] owner_is_endpoint [OF assms(1)] by (force simp: affects_def split: if_splits)

lemma source_closure_defined:
  assumes "closed_snapshot s" "build s = Some ix"
  shows "endpointWithoutSourceClosure s ix \<noteq> None"
  unfolding endpointWithoutSourceClosure_def Let_def
proof (rule some_opt_defined)
  fix i assume "i \<in> set (oi_endpointIds ix)"
  then have "map_get (oi_endpointOwnership ix) i \<noteq> None"
    using index_endpoints [OF assms] index_entries [OF assms] by (simp add: map_of_eq_None_iff)
  then show "map_option (\<lambda>endpoint. \<not> list_ex (\<lambda>i. case map_get (keyed ev_evidence_id (cs_evidence s)) i of None \<Rightarrow> False
      | Some e \<Rightarrow> on_source_path e) (ow_evidenceIds endpoint)) (map_get (oi_endpointOwnership ix) i) \<noteq> None"
    by (simp add: option.map_disc_iff)
qed

text \<open>Any builder that keeps the contract gives a planner that always decides.\<close>

lemma planner_decides:
  assumes "validateUpdatePlanningInput pf ajv v = Inr i" "planning_input_ok i" "base_revision_ok i"
  shows "if mayReuse i then createUpdatePlanner build pf ajv v = Inr (with_plan_id pf (reuseContent i))
    else (\<exists>ix b. build (pi_base_snapshot i) = Some ix \<and>
      createUpdatePlanner build pf ajv v = Inr (with_plan_id pf (fullAnalysisContent i (scanPaths i ix b))))"
proof -
  have valid: "planning_input_valid pf i"
    using assms(1) by (simp add: validateUpdatePlanningInput_Inr parseUpdatePlanningInput_Inr)
  then have closed: "closed_snapshot (pi_base_snapshot i)"
    by (auto simp: planning_input_valid_def intro: validated_closed)
  obtain ix where ix: "build (pi_base_snapshot i) = Some ix" using build_defined [OF closed] by blast
  obtain c where c: "endpointWithoutSourceClosure (pi_base_snapshot i) ix = Some c"
    using source_closure_defined [OF closed ix] by blast
  let ?scan = "scanPaths i ix (c \<or> ownedSourcePathIsInvalid (pi_base_snapshot i) ix)"
  note full = full_accepted [OF assms(2) valid scanPaths_distinct scan_endpoints [OF closed ix]]
  show ?thesis
  proof (cases "mayReuse i")
    case True
    then show ?thesis using assms reuse_accepted [OF assms(2) valid True]
      by (simp add: createUpdatePlanner_def checked_plan_def)
  next
    case False
    then have "createUpdatePlanner build pf ajv v = Inr (with_plan_id pf (fullAnalysisContent i ?scan))"
      using assms(1,3) ix c full by (simp add: createUpdatePlanner_def checked_plan_def)
    with False ix show ?thesis by auto
  qed
qed

end

section \<open>Properties of the planner\<close>


lemma planUpdate_cases:
  assumes "planUpdate pf ajv v = Inr plan" "validateUpdatePlanningInput pf ajv v = Inr i"
  obtains (reuse) "mayReuse i" "plan = with_plan_id pf (reuseContent i)"
    | (full) ix b where "\<not> mayReuse i" "buildEndpointOwnershipIndex (pi_base_snapshot i) = Some ix"
      "plan = with_plan_id pf (fullAnalysisContent i (scanPaths i ix b))" "closed_snapshot (pi_base_snapshot i)"
proof -
  have closed: "closed_snapshot (pi_base_snapshot i)"
    using assms(2) by (auto simp: validateUpdatePlanningInput_Inr parseUpdatePlanningInput_Inr planning_input_valid_def
        intro: validated_closed)
  have checked: "plan = with_plan_id pf c" if "checked_plan pf c = Inr plan" for c
    using that by (auto simp: checked_plan_def parseUpdatePlan_def split: if_splits)
  show ?thesis
    using assms closed that
    by (auto simp: planUpdate_def createUpdatePlanner_def split: if_splits option.splits dest!: checked)
qed

text \<open>
  C15: The base snapshot is reused exactly when nothing can have changed: equal source digests,
  the same analyzer, exchange, IR, identity and configuration, complete coverage before and a
  complete, empty list of changed paths.
\<close>

theorem reuse_only_when_unchanged:
  assumes "planUpdate pf ajv v = Inr plan" "validateUpdatePlanningInput pf ajv v = Inr i"
  shows "pc_action plan = ReuseBaseSnapshot \<longleftrightarrow>
    sr_source_digest (cs_source (pi_base_snapshot i)) = pt_source_digest (pi_target i) \<and>
    pi_base_analysis_key i = pt_analysis_key (pi_target i) \<and>
    \<not> coverage_incomplete (cs_coverage (pi_base_snapshot i)) \<and>
    pi_changed_paths_complete i \<and> pi_changed_paths i = []"
  using assms
  by (rule planUpdate_cases)
    (auto simp: reuseContent_def fullAnalysisContent_def mayReuse_def sourceDigestMatches_def priorCoverageIncomplete_def
      analysisBoundaryChanged_iff)

text \<open>
  C16: A full analysis lists, in canonical order, exactly the endpoints a change may affect: all
  of them when the analysis itself changed, else those that own, directly or through
  dependencies, an evidence record or a component evidenced at a changed path.
\<close>

theorem plan_lists_affected:
  assumes "planUpdate pf ajv v = Inr plan" "validateUpdatePlanningInput pf ajv v = Inr i" "pc_action plan = AnalyzeFullService"
  shows "pc_affected_endpoint_ids plan = sorted_list_of_set
    {e. pi_base_analysis_key i \<noteq> pt_analysis_key (pi_target i) \<and> e \<in> set (map ep_endpoint_id (cs_endpoints (pi_base_snapshot i))) \<or>
        (\<exists>p \<in> set (pi_changed_paths i). affects (pi_base_snapshot i) (serviceRelativePath p (pt_service_root (pi_target i))) e)}"
  using assms(1,2)
proof (cases rule: planUpdate_cases)
  case reuse
  then show ?thesis using assms(3) by (simp add: reuseContent_def)
next
  case (full ix b)
  have "sort (sc_affected (scanPaths i ix b)) = sorted_list_of_set (set (sc_affected (scanPaths i ix b)))"
    using scanPaths_distinct [of i ix b] by (simp add: sorted_list_of_set_sort_remdups distinct_remdups_id)
  also have "set (sc_affected (scanPaths i ix b)) =
      {e. pi_base_analysis_key i \<noteq> pt_analysis_key (pi_target i) \<and> e \<in> set (map ep_endpoint_id (cs_endpoints (pi_base_snapshot i))) \<or>
        (\<exists>p \<in> set (pi_changed_paths i). affects (pi_base_snapshot i) (serviceRelativePath p (pt_service_root (pi_target i))) e)}"
    using index.scan_affected [OF full(4,2), of _ b] by (auto simp: analysisBoundaryChanged_iff)
  finally show ?thesis using full(3) by (simp add: fullAnalysisContent_def js_sort_compareUtf8)
qed


text \<open>
  C25: A base snapshot whose revision is not hexadecimal is accepted as planning input, but no
  plan can be built for it: the plan schema rejects the revision and the planner throws the
  input error without naming an issue.
\<close>

theorem unplannable_base_revision:
  assumes "validateUpdatePlanningInput pf ajv v = Inr i" "planning_input_ok i" "\<not> base_revision_ok i"
  shows "planUpdate pf ajv v = Inl (ThrownUpdate (updateError INVALID_UPDATE_INPUT None None))"
proof -
  have valid: "planning_input_valid pf i"
    using assms(1) by (simp add: validateUpdatePlanningInput_Inr parseUpdatePlanningInput_Inr)
  then have closed: "closed_snapshot (pi_base_snapshot i)"
    by (auto simp: planning_input_valid_def intro: validated_closed)
  obtain ix where ix: "buildEndpointOwnershipIndex (pi_base_snapshot i) = Some ix"
    using index.build_defined [OF closed] by blast
  obtain c where "endpointWithoutSourceClosure (pi_base_snapshot i) ix = Some c"
    using index.source_closure_defined [OF closed ix] by blast
  then show ?thesis
    using assms ix reuse_accepted [OF assms(2) valid] full_accepted [OF assms(2) valid scanPaths_distinct index.scan_endpoints [OF closed ix]]
    by (simp add: planUpdate_def createUpdatePlanner_def checked_plan_def)
qed

section \<open>A concrete planning input\<close>

definition sample_digest :: "char \<Rightarrow> string" where
  "sample_digest c = ''sha256:'' @ replicate 64 c"

definition sample_base :: contract_snapshot where
  "sample_base = sample_snapshot\<lparr>cs_source := \<lparr>sr_repository_id = ''repo'', sr_immutable_revision = ''abcdefabcdef'',
     sr_source_digest = sample_digest (CHR ''a'')\<rparr>\<rparr>"

definition sample_key :: analysis_key where
  "sample_key = \<lparr>ak_analyzer = \<lparr>an_analyzer_id = ''a'', an_analyzer_version = ''1''\<rparr>, ak_analyzer_exchange_version = ''1.0.0'',
     ak_ir_version = ''1.1.0'', ak_identity_version = ''1.0.0'', ak_config_version = ''1.0.0'', ak_config_fingerprint = ''f''\<rparr>"

definition sample_target :: "char \<Rightarrow> planning_target" where
  "sample_target c = \<lparr>pt_repository_id = ''repo'', pt_service_id = ''svc'', pt_service_root = ''.'',
     pt_immutable_revision = ''0123456789ab'', pt_source_digest = sample_digest c, pt_analysis_key = sample_key\<rparr>"

definition sample_planning :: planning_input where
  "sample_planning = \<lparr>pi_base_snapshot = sample_base, pi_base_analysis_key = sample_key, pi_target = sample_target (CHR ''b''),
     pi_changed_paths = [''src/schema.ts''], pi_changed_paths_complete = True\<rparr>"

definition sample_unchanged :: planning_input where
  "sample_unchanged = sample_planning\<lparr>pi_target := sample_target (CHR ''a''), pi_changed_paths := []\<rparr>"

definition sample_tagged :: planning_input where
  "sample_tagged = sample_planning\<lparr>pi_base_snapshot := sample_base\<lparr>cs_source := \<lparr>sr_repository_id = ''repo'',
     sr_immutable_revision = ''v1'', sr_source_digest = sample_digest (CHR ''a'')\<rparr>\<rparr>\<rparr>"

definition sample_request :: jsval where
  "sample_request = VObject True False []"

lemma sample_base_valid: "validateContractSnapshotSemantics sample_platform sample_base = []"
  by code_simp

lemma sample_planning_accepted:
  "validateUpdatePlanningInput sample_platform (\<lambda>_. Inr sample_planning) sample_request = Inr sample_planning"
  "planning_input_ok sample_planning" "base_revision_ok sample_planning"
  by code_simp+

lemma sample_unchanged_accepted:
  "validateUpdatePlanningInput sample_platform (\<lambda>_. Inr sample_unchanged) sample_request = Inr sample_unchanged"
  by code_simp

lemma sample_tagged_accepted:
  "validateUpdatePlanningInput sample_platform (\<lambda>_. Inr sample_tagged) sample_request = Inr sample_tagged"
  "planning_input_ok sample_tagged" "\<not> base_revision_ok sample_tagged"
  by code_simp+

definition sample_plan :: update_plan where
  "sample_plan = projr (planUpdate sample_platform (\<lambda>_. Inr sample_planning) sample_request)"

definition sample_reuse_plan :: update_plan where
  "sample_reuse_plan = with_plan_id sample_platform (reuseContent sample_unchanged)"

lemma sample_plan_result: "planUpdate sample_platform (\<lambda>_. Inr sample_planning) sample_request = Inr sample_plan"
  and sample_plan_full: "pc_action sample_plan = AnalyzeFullService"
proof -
  have "\<not> mayReuse sample_planning" by code_simp
  with index.planner_decides [OF sample_planning_accepted]
  obtain ix b where "planUpdate sample_platform (\<lambda>_. Inr sample_planning) sample_request =
      Inr (with_plan_id sample_platform (fullAnalysisContent sample_planning (scanPaths sample_planning ix b)))"
    by (auto simp: planUpdate_def)
  then show "planUpdate sample_platform (\<lambda>_. Inr sample_planning) sample_request = Inr sample_plan"
    "pc_action sample_plan = AnalyzeFullService"
    by (simp_all add: sample_plan_def fullAnalysisContent_def)
qed

lemma sample_reuse_result: "planUpdate sample_platform (\<lambda>_. Inr sample_unchanged) sample_request = Inr sample_reuse_plan"
proof -
  have "mayReuse sample_unchanged" "planning_input_ok sample_unchanged" "base_revision_ok sample_unchanged" by code_simp+
  with index.planner_decides [OF sample_unchanged_accepted] show ?thesis
    by (simp add: planUpdate_def sample_reuse_plan_def)
qed


theorem reuse_only_when_unchanged_witness:
  "pc_action sample_reuse_plan = ReuseBaseSnapshot \<longleftrightarrow>
    sr_source_digest (cs_source (pi_base_snapshot sample_unchanged)) = pt_source_digest (pi_target sample_unchanged) \<and>
    pi_base_analysis_key sample_unchanged = pt_analysis_key (pi_target sample_unchanged) \<and>
    \<not> coverage_incomplete (cs_coverage (pi_base_snapshot sample_unchanged)) \<and>
    pi_changed_paths_complete sample_unchanged \<and> pi_changed_paths sample_unchanged = []"
  by (rule reuse_only_when_unchanged [OF sample_reuse_result sample_unchanged_accepted])

theorem plan_lists_affected_witness:
  "pc_affected_endpoint_ids sample_plan = sorted_list_of_set
    {e. pi_base_analysis_key sample_planning \<noteq> pt_analysis_key (pi_target sample_planning) \<and>
          e \<in> set (map ep_endpoint_id (cs_endpoints (pi_base_snapshot sample_planning))) \<or>
        (\<exists>p \<in> set (pi_changed_paths sample_planning).
           affects (pi_base_snapshot sample_planning) (serviceRelativePath p (pt_service_root (pi_target sample_planning))) e)}"
  by (rule plan_lists_affected [OF sample_plan_result sample_planning_accepted(1) sample_plan_full])


theorem unplannable_base_revision_witness:
  "planUpdate sample_platform (\<lambda>_. Inr sample_tagged) sample_request =
    Inl (ThrownUpdate (updateError INVALID_UPDATE_INPUT None None))"
  by (rule unplannable_base_revision [OF sample_tagged_accepted])

end
