(* ===== verification/UpdDifference.thy ===== *)
theory UpdDifference
  imports UpdPlan
begin

text \<open>
  Differences and their validator: \<open>ContractDifferenceSchema\<close>, \<open>ContractDifferenceSetSchema\<close> and
  the semantic checks behind \<open>parseContractDifferenceSet\<close> in \<open>packages/updates/src/schema.ts\<close>.
  The shapes of the projected facts belong to the third-party validator: a parameter tells for
  every projection schema which values pass. A check that throws is \<open>None\<close>.
\<close>

section \<open>Values\<close>

record difference_subject =
  ds_service_id :: string
  ds_endpoint_id :: "string option"
  ds_component_id :: "string option"
  ds_affected_endpoint_ids :: "string list option"
  ds_fact_kind :: "fact_kind option"
  ds_fact_key :: "string option"

text \<open>A draft and a difference carry projections as JSON; the three condition kinds carry assignment lists.\<close>

record difference_draft =
  dd_kind :: difference_kind
  dd_compatibility :: compatibility_label
  dd_subject :: difference_subject
  dd_before :: "json option"
  dd_after :: "json option"

record contract_difference = difference_draft +
  df_difference_id :: string

record snapshot_reference =
  sn_snapshot_id :: string
  sn_immutable_revision :: string

datatype comparison_status = ComparisonComplete | ComparisonIncomplete

record difference_set_content =
  dc_contract_difference_version :: string
  dc_service_id :: string
  dc_base :: snapshot_reference
  dc_target :: snapshot_reference
  dc_comparison_status :: comparison_status
  dc_incomplete_reason_codes :: "difference_incomplete_reason list"
  dc_differences :: "contract_difference list"

record difference_set = difference_set_content +
  dc_difference_set_id :: string

definition DIFFERENCE_INCOMPLETE_REASONS :: "difference_incomplete_reason list" where
  "DIFFERENCE_INCOMPLETE_REASONS = [BaseCoverageIncomplete, TargetCoverageIncomplete, IdentityVersionChanged]"

section \<open>JSON of a difference\<close>

definition subject_json :: "difference_subject \<Rightarrow> json" where
  "subject_json s = JObj
     ([(''service_id'', JStr (ds_service_id s))] @
      opt_member ''endpoint_id'' (map_option JStr (ds_endpoint_id s)) @
      opt_member ''component_id'' (map_option JStr (ds_component_id s)) @
      opt_member ''affected_endpoint_ids'' (map_option strings_json (ds_affected_endpoint_ids s)) @
      opt_member ''fact_kind'' (map_option (JStr \<circ> fact_kind_text) (ds_fact_kind s)) @
      opt_member ''fact_key'' (map_option JStr (ds_fact_key s)))"

definition draft_members :: "'a difference_draft_scheme \<Rightarrow> (string \<times> json) list" where
  "draft_members d =
     [(''kind'', JStr (difference_kind_text (dd_kind d))),
      (''compatibility'', JStr (compatibility_text (dd_compatibility d))),
      (''subject'', subject_json (dd_subject d))] @
     opt_member ''before'' (dd_before d) @ opt_member ''after'' (dd_after d)"

definition difference_json :: "contract_difference \<Rightarrow> json" where
  "difference_json d = JObj ((''difference_id'', JStr (df_difference_id d)) # draft_members d)"

definition snapshot_reference_json :: "snapshot_reference \<Rightarrow> json" where
  "snapshot_reference_json r = JObj
     [(''snapshot_id'', JStr (sn_snapshot_id r)), (''immutable_revision'', JStr (sn_immutable_revision r))]"

fun comparison_status_text :: "comparison_status \<Rightarrow> string" where
  "comparison_status_text ComparisonComplete = ''complete''"
| "comparison_status_text ComparisonIncomplete = ''incomplete''"

definition difference_set_json :: "'a difference_set_content_scheme \<Rightarrow> json" where
  "difference_set_json c = JObj
     [(''contract_difference_version'', JStr (dc_contract_difference_version c)),
      (''service_id'', JStr (dc_service_id c)),
      (''base'', snapshot_reference_json (dc_base c)), (''target'', snapshot_reference_json (dc_target c)),
      (''comparison_status'', JStr (comparison_status_text (dc_comparison_status c))),
      (''incomplete_reason_codes'', strings_json (map incomplete_reason_text (dc_incomplete_reason_codes c))),
      (''differences'', JArr (map difference_json (dc_differences c)))]"

text \<open>The content a difference identifier is the digest of.\<close>

definition identityContent :: "string \<Rightarrow> string \<Rightarrow> string \<Rightarrow> 'a difference_draft_scheme \<Rightarrow> json" where
  "identityContent service_id base_snapshot_id target_snapshot_id d = JObj
     ([(''version'', JStr CONTRACT_DIFFERENCE_VERSION), (''service_id'', JStr service_id),
       (''base_snapshot_id'', JStr base_snapshot_id), (''target_snapshot_id'', JStr target_snapshot_id),
       (''kind'', JStr (difference_kind_text (dd_kind d))), (''subject'', subject_json (dd_subject d))] @
      opt_member ''before'' (dd_before d) @ opt_member ''after'' (dd_after d))"

definition difference_id_of :: "platform \<Rightarrow> string \<Rightarrow> string \<Rightarrow> string \<Rightarrow> 'a difference_draft_scheme \<Rightarrow> string" where
  "difference_id_of pf service_id base_snapshot_id target_snapshot_id d =
     ''difference-'' @ canonicalSha256Hex pf (identityContent service_id base_snapshot_id target_snapshot_id d)"

definition difference_set_id_of :: "platform \<Rightarrow> 'a difference_set_content_scheme \<Rightarrow> string" where
  "difference_set_id_of pf c = ''difference-set-'' @ canonicalSha256Hex pf (difference_set_json c)"

section \<open>The order of differences\<close>

text \<open>\<open>padStart(3, "0")\<close>.\<close>

definition padStart3 :: "string \<Rightarrow> string" where
  "padStart3 s = replicate (3 - length s) (CHR ''0'') @ s"

definition differenceSortKey :: "contract_difference \<Rightarrow> string list" where
  "differenceSortKey d =
     (let s = dd_subject d in
      [case ds_endpoint_id s of None \<Rightarrow> '''' | Some i \<Rightarrow> i,
       case ds_component_id s of None \<Rightarrow> '''' | Some i \<Rightarrow> i,
       canonicalJson (strings_json (or_empty (ds_affected_endpoint_ids s))),
       case ds_fact_kind s of None \<Rightarrow> '''' | Some k \<Rightarrow> fact_kind_text k,
       case ds_fact_key s of None \<Rightarrow> '''' | Some k \<Rightarrow> k,
       padStart3 (nat_text (index_of DIFFERENCE_KINDS (dd_kind d))),
       df_difference_id d])"

fun compare_keys :: "string list \<Rightarrow> string list \<Rightarrow> int" where
  "compare_keys (x # xs) (y # ys) = (let compared = compareUtf8 x y in if compared \<noteq> 0 then compared else compare_keys xs ys)"
| "compare_keys _ _ = 0"

definition compareDifference :: "contract_difference \<Rightarrow> contract_difference \<Rightarrow> int" where
  "compareDifference left right = compare_keys (differenceSortKey left) (differenceSortKey right)"

section \<open>Canonical sets inside a projection\<close>

text \<open>
  The elements of a list as strings; in a shape-valid schema or condition the lists read here
  hold strings only.
\<close>

definition items_text :: "json list \<Rightarrow> string list" where
  "items_text vs = map (\<lambda>v. case v of JStr s \<Rightarrow> s | _ \<Rightarrow> '''') vs"

definition array_is :: "string \<Rightarrow> (json list \<Rightarrow> bool) \<Rightarrow> json \<Rightarrow> bool" where
  "array_is key p value = (case jget key value of Some (JArr vs) \<Rightarrow> p vs | _ \<Rightarrow> True)"

text \<open>The schemas directly below a schema, where \<open>apiSchemaSetsAreCanonical\<close> calls itself.\<close>

definition canonical_children :: "json \<Rightarrow> json list" where
  "canonical_children value =
     member_items ''oneOf'' value @ member_items ''anyOf'' value @ member_items ''allOf'' value @
     member_values ''properties'' value @ member_value ''items'' value @ member_items ''prefixItems'' value @
     filter (\<lambda>v. case v of JBool _ \<Rightarrow> False | _ \<Rightarrow> True) (member_value ''additionalProperties'' value) @
     member_value ''not'' value"

lemma member_size [termination_simp]:
  "child \<in> set (member_items key value) \<Longrightarrow> size child < size value"
  "child \<in> set (member_value key value) \<Longrightarrow> size child < size value"
  "child \<in> set (member_values key value) \<Longrightarrow> size child < size value"
  by (auto simp: member_items_def member_value_def member_values_def
      intro: jget_size [OF sym] jget_arr_size [OF sym] jget_obj_size [OF sym] split: option.splits json.splits)

lemma canonical_children_size [termination_simp]: "child \<in> set (canonical_children value) \<Longrightarrow> size child < size value"
  unfolding canonical_children_def set_append set_filter using member_size by blast

fun apiSchemaSetsAreCanonical :: "json \<Rightarrow> bool" where
  "apiSchemaSetsAreCanonical schema =
     (is_object schema \<and>
      array_is ''type'' (\<lambda>vs. isCanonicalStringSet (items_text vs)) schema \<and>
      array_is ''required'' (\<lambda>vs. isCanonicalStringSet (items_text vs)) schema \<and>
      array_is ''enum'' (isCanonicalBy canonicalJson) schema \<and>
      list_all (\<lambda>keyword. array_is keyword (isCanonicalBy canonicalJson) schema) [''oneOf'', ''anyOf'', ''allOf''] \<and>
      (case jget ''properties'' schema of None \<Rightarrow> True | Some v \<Rightarrow> is_object v) \<and>
      list_all apiSchemaSetsAreCanonical (canonical_children schema))"

declare apiSchemaSetsAreCanonical.simps [simp del]

fun conditionSetsAreCanonical :: "json \<Rightarrow> bool" where
  "conditionSetsAreCanonical condition =
     ((case jget ''affected_schema_paths'' condition of
         Some (JArr vs) \<Rightarrow> isCanonicalStringSet (items_text vs)
       | _ \<Rightarrow> False) \<and>
      list_all conditionSetsAreCanonical (member_items ''operands'' condition) \<and>
      (jget ''operator'' condition = Some (JStr ''and'') \<or> jget ''operator'' condition = Some (JStr ''or'') \<longrightarrow>
         array_is ''operands'' (isCanonicalBy canonicalJson) condition))"

declare conditionSetsAreCanonical.simps [simp del]

text \<open>\<open>condition\<close> of a presence; a value that is no object is not canonical.\<close>

definition presenceSetsAreCanonical :: "json \<Rightarrow> bool" where
  "presenceSetsAreCanonical presence =
     (is_object presence \<and> list_all conditionSetsAreCanonical (member_value ''condition'' presence))"

definition parameterSetsAreCanonical :: "json \<Rightarrow> bool" where
  "parameterSetsAreCanonical candidate =
     (list_all presenceSetsAreCanonical (member_value ''presence'' candidate) \<and>
      list_all apiSchemaSetsAreCanonical (member_value ''schema'' candidate))"

definition requestBodySetsAreCanonical :: "json \<Rightarrow> bool" where
  "requestBodySetsAreCanonical candidate = parameterSetsAreCanonical candidate"

definition asciiLower :: "string \<Rightarrow> string" where
  "asciiLower value = map (\<lambda>c. if is_upper c then lower_char c else c) value"

text \<open>\<open>item.name\<close> where the shape makes it a string.\<close>

definition all_items :: "string \<Rightarrow> (json \<Rightarrow> bool) \<Rightarrow> json \<Rightarrow> bool" where
  "all_items key p value = list_all p (member_items key value)"

definition schema_member_canonical :: "json \<Rightarrow> bool" where
  "schema_member_canonical item = (case jget ''schema'' item of None \<Rightarrow> False | Some s \<Rightarrow> apiSchemaSetsAreCanonical s)"

definition responseSetsAreCanonical :: "json \<Rightarrow> bool" where
  "responseSetsAreCanonical candidate =
     (isCanonicalBy (str_member ''media_type'') (member_items ''content'' candidate) \<and>
      all_items ''content'' schema_member_canonical candidate \<and>
      all_items ''headers'' (\<lambda>item. str_member ''name'' item = asciiLower (str_member ''name'' item) \<and>
        schema_member_canonical item) candidate \<and>
      isCanonicalBy (\<lambda>item. asciiLower (str_member ''name'' item)) (member_items ''headers'' candidate))"

definition securitySetsAreCanonical :: "json \<Rightarrow> bool" where
  "securitySetsAreCanonical candidate =
     (case jget ''alternatives'' candidate of
        Some (JArr alternatives) \<Rightarrow>
          list_all (\<lambda>alternative.
            isCanonicalBy (str_member ''scheme'') (member_items ''requirements'' alternative) \<and>
            all_items ''requirements'' (\<lambda>r. isCanonicalStringSet (items_text (member_items ''scopes'' r))) alternative)
            alternatives \<and>
          isCanonicalBy canonicalJson alternatives
      | _ \<Rightarrow> False)"

definition projectionSelectorKey :: "bool \<Rightarrow> json \<Rightarrow> string" where
  "projectionSelectorKey normalizeName selector = canonicalJson (JArr
     [JStr (if normalizeName then asciiLower (str_member ''name'' selector) else str_member ''name'' selector),
      JStr (str_member ''operator'' selector), JStr (selectorValue selector)])"

definition selectors_of :: "json \<Rightarrow> json" where
  "selectors_of candidate = (case jget ''selectors'' candidate of None \<Rightarrow> JObj [] | Some s \<Rightarrow> s)"

definition identitySetsAreCanonical :: "json \<Rightarrow> bool" where
  "identitySetsAreCanonical candidate =
     (let selectors = selectors_of candidate in
      all_items ''headers'' (\<lambda>s. str_member ''name'' s = asciiLower (str_member ''name'' s)) selectors \<and>
      isCanonicalBy (projectionSelectorKey True) (member_items ''headers'' selectors) \<and>
      list_all (\<lambda>field.
        list_all (\<lambda>v. v = asciiLower v) (items_text (member_items field selectors)) \<and>
        isCanonicalBy asciiLower (items_text (member_items field selectors))) [''consumes'', ''produces''] \<and>
      isCanonicalBy (projectionSelectorKey False) (member_items ''query'' selectors))"

text \<open>
  Parameters, bodies and responses inside an endpoint projection may lack the members their keys
  are built from; the code then throws. \<open>canonical_by_opt\<close> is \<open>isCanonicalBy\<close> with such a key:
  the keys of a list of at most one element are never computed.
\<close>

fun canonical_by_opt :: "('a \<Rightarrow> string option) \<Rightarrow> 'a list \<Rightarrow> bool option" where
  "canonical_by_opt f (x # y # ys) =
     (case (f x, f y) of
        (Some a, Some b) \<Rightarrow> (if compareUtf8 a b \<ge> 0 then Some False else canonical_by_opt f (y # ys))
      | _ \<Rightarrow> None)"
| "canonical_by_opt f _ = Some True"

text \<open>\<open>a && b\<close> with operands that may throw.\<close>

definition and_opt :: "bool option \<Rightarrow> bool option \<Rightarrow> bool option" where
  "and_opt a b = (case a of None \<Rightarrow> None | Some False \<Rightarrow> Some False | Some True \<Rightarrow> b)"

definition responseStatusKey :: "json \<Rightarrow> string option" where
  "responseStatusKey status =
     (let key = (\<lambda>kind member. map_option (\<lambda>v. canonicalJson (JArr [JStr kind, v])) (jget member status)) in
      if jget ''kind'' status = Some (JStr ''exact'') then key ''exact'' ''code''
      else if jget ''kind'' status = Some (JStr ''range'') then key ''range'' ''range''
      else if jget ''kind'' status = Some (JStr ''default'') then Some (canonicalJson (JArr [JStr ''default'']))
      else key ''unknown'' ''reason'')"

definition parameter_item_key :: "json \<Rightarrow> string option" where
  "parameter_item_key parameter =
     (case (jget ''in'' parameter, jget ''name'' parameter) of
        (Some i, Some n) \<Rightarrow> Some (canonicalJson (JArr [i, n]))
      | _ \<Rightarrow> None)"

definition body_item_key :: "json \<Rightarrow> string option" where
  "body_item_key body = (case jget ''media_type'' body of Some (JStr s) \<Rightarrow> Some s | _ \<Rightarrow> None)"

text \<open>All response keys are computed before any is compared.\<close>

definition response_keys :: "json list \<Rightarrow> string list option" where
  "response_keys responses =
     (let keys = map (\<lambda>r. case jget ''status'' r of None \<Rightarrow> None | Some status \<Rightarrow> responseStatusKey status) responses in
      if None \<in> set keys then None else Some (map the keys))"

definition endpointSetsAreCanonical :: "json \<Rightarrow> bool option" where
  "endpointSetsAreCanonical candidate =
     and_opt (Some (list_all identitySetsAreCanonical (member_value ''identity'' candidate)))
    (and_opt (canonical_by_opt parameter_item_key (member_items ''parameters'' candidate))
    (and_opt (Some (all_items ''parameters'' parameterSetsAreCanonical candidate))
    (and_opt (canonical_by_opt body_item_key (member_items ''request_bodies'' candidate))
    (and_opt (Some (all_items ''request_bodies'' requestBodySetsAreCanonical candidate))
    (and_opt (Some (all_items ''responses'' responseSetsAreCanonical candidate))
    (and_opt (map_option isCanonicalStringSet (response_keys (member_items ''responses'' candidate)))
      (Some (list_all securitySetsAreCanonical (member_value ''security'' candidate)))))))))"

section \<open>Fact keys\<close>

definition kind_starts :: "difference_kind \<Rightarrow> string \<Rightarrow> bool" where
  "kind_starts k prefix = starts_with (difference_kind_text k) prefix"

definition expectedFactKind :: "'a difference_draft_scheme \<Rightarrow> fact_kind option" where
  "expectedFactKind d =
     (let kind = dd_kind d in
      if kind_starts kind ''endpoint.'' then Some FkEndpoint
      else if kind_starts kind ''parameter.'' then Some FkParameter
      else if kind_starts kind ''request_body.'' then Some FkRequestBody
      else if kind_starts kind ''response.'' then Some FkResponse
      else if kind = DkSecurityChanged then Some FkSecurity
      else if kind_starts kind ''schema.'' then Some FkSchema
      else if kind_starts kind ''claim.'' then Some FkClaim
      else if kind_starts kind ''condition.'' then Some FkConditionGroup
      else if kind_starts kind ''analysis.diagnostic_'' then Some FkDiagnostic
      else if kind = DkAnalysisCoverageChanged then Some FkCoverage
      else if kind = DkAnalysisIdentityChanged then Some FkIdentity
      else if kind = DkFactAbsenceUnconfirmed then
        (let factKind = ds_fact_kind (dd_subject d) in
         if factKind \<in> set (map Some [FkParameter, FkRequestBody, FkResponse, FkSchema, FkClaim]) then factKind else None)
      else None)"

text \<open>\<open>/^[1-5]XX$/\<close>.\<close>

definition status_range :: "string \<Rightarrow> bool" where
  "status_range s = (length s = 3 \<and> CHR ''1'' \<le> s ! 0 \<and> s ! 0 \<le> CHR ''5'' \<and> tl s = ''XX'')"

fun status_tuple_ok :: "json list \<Rightarrow> bool" where
  "status_tuple_ok [JStr tag] = (tag = ''default'')"
| "status_tuple_ok [JStr tag, v] =
     (case v of
        JNum code \<Rightarrow> tag = ''exact'' \<and> 100 \<le> code \<and> code \<le> 599
      | JStr s \<Rightarrow> tag = ''range'' \<and> status_range s \<or> tag = ''unknown'' \<and> s \<noteq> []
      | _ \<Rightarrow> False)"
| "status_tuple_ok _ = False"

definition canonicalStatusKey :: "json \<Rightarrow> bool" where
  "canonicalStatusKey value =
     (case value of
        JStr s \<Rightarrow> (case JSON_parse s of
            None \<Rightarrow> False
          | Some parsed \<Rightarrow> (if canonicalJson parsed \<noteq> s then False
              else case parsed of JArr vs \<Rightarrow> status_tuple_ok vs | _ \<Rightarrow> False))
      | _ \<Rightarrow> False)"

datatype subject_field = EndpointField | ComponentField | AffectedField

definition noUnexpectedSubjectFields :: "difference_subject \<Rightarrow> subject_field list \<Rightarrow> bool" where
  "noUnexpectedSubjectFields s allowed =
     ((ds_endpoint_id s = None \<or> EndpointField \<in> set allowed) \<and>
      (ds_component_id s = None \<or> ComponentField \<in> set allowed) \<and>
      (ds_affected_endpoint_ids s = None \<or> AffectedField \<in> set allowed))"

definition nonempty_string :: "json \<Rightarrow> bool" where
  "nonempty_string v = (case v of JStr s \<Rightarrow> s \<noteq> [] | _ \<Rightarrow> False)"

definition null_or :: "(json \<Rightarrow> bool) \<Rightarrow> json \<Rightarrow> bool" where
  "null_or p v = (v = JNull \<or> p v)"

definition json_or_null :: "string option \<Rightarrow> json" where
  "json_or_null v = (case v of None \<Rightarrow> JNull | Some s \<Rightarrow> JStr s)"

text \<open>
  \<open>isCanonicalStringSet\<close> on a list from a parsed key: comparing an element that is no string
  throws. (\<open>Buffer.from\<close> also takes an array of bytes; such an element counts as a throw here.)
\<close>

definition parsed_string_set :: "json list \<Rightarrow> bool option" where
  "parsed_string_set vs = canonical_by_opt (\<lambda>v. case v of JStr s \<Rightarrow> Some s | _ \<Rightarrow> None) vs"

text \<open>The \<open>switch\<close> over the expected fact kind.\<close>

definition fact_tuple_valid :: "difference_subject \<Rightarrow> fact_kind \<Rightarrow> json list \<Rightarrow> bool option" where
  "fact_tuple_valid s expected tuple =
     (let endpointId = ds_endpoint_id s; componentId = ds_component_id s;
          affectedIds = or_empty (ds_affected_endpoint_ids s);
          endpoint_fact = (\<lambda>tag. endpointId \<noteq> None \<and> noUnexpectedSubjectFields s [EndpointField] \<and>
            tuple ! 0 = JStr tag \<and> tuple ! 1 = json_or_null endpointId) in
      case expected of
        FkEndpoint \<Rightarrow> Some (length tuple = 2 \<and> endpoint_fact ''endpoint'')
      | FkParameter \<Rightarrow> Some (length tuple = 4 \<and> endpoint_fact ''parameter'' \<and>
          tuple ! 2 \<in> set (map JStr [''path'', ''query'', ''header'', ''cookie'']) \<and> nonempty_string (tuple ! 3))
      | FkRequestBody \<Rightarrow> Some (length tuple = 3 \<and> endpoint_fact ''request_body'' \<and> nonempty_string (tuple ! 2))
      | FkResponse \<Rightarrow> Some (length tuple = 3 \<and> endpoint_fact ''response'' \<and> canonicalStatusKey (tuple ! 2))
      | FkSecurity \<Rightarrow> Some (length tuple = 2 \<and> endpoint_fact ''security'')
      | FkSchema \<Rightarrow> Some (length tuple = 2 \<and> componentId \<noteq> None \<and>
          noUnexpectedSubjectFields s [ComponentField, AffectedField] \<and>
          tuple ! 0 = JStr ''schema'' \<and> tuple ! 1 = json_or_null componentId)
      | FkClaim \<Rightarrow> Some (noUnexpectedSubjectFields s [EndpointField] \<and> length tuple = 4 \<and>
          tuple ! 0 = JStr ''claim'' \<and> tuple ! 1 = json_or_null endpointId \<and>
          null_or nonempty_string (tuple ! 2) \<and> nonempty_string (tuple ! 3))
      | FkConditionGroup \<Rightarrow> Some (noUnexpectedSubjectFields s [EndpointField] \<and> length tuple = 5 \<and>
          tuple ! 0 = JStr ''condition_group'' \<and> tuple ! 1 = JStr ''claim'' \<and> tuple ! 2 = json_or_null endpointId \<and>
          null_or nonempty_string (tuple ! 3) \<and> nonempty_string (tuple ! 4))
      | FkDiagnostic \<Rightarrow>
          (if noUnexpectedSubjectFields s [AffectedField] \<and> length tuple = 3 \<and>
              tuple ! 0 = JStr ''diagnostic'' \<and> nonempty_string (tuple ! 1) then
             (case tuple ! 2 of
                JArr vs \<Rightarrow> and_opt (parsed_string_set vs) (Some (canonicalJson (JArr vs) = canonicalJson (strings_json affectedIds)))
              | _ \<Rightarrow> Some False)
           else Some False)
      | FkCoverage \<Rightarrow> Some (noUnexpectedSubjectFields s [] \<and> length tuple = 1 \<and> tuple ! 0 = JStr ''coverage'')
      | FkIdentity \<Rightarrow> Some (noUnexpectedSubjectFields s [] \<and> length tuple = 1 \<and> tuple ! 0 = JStr ''identity''))"

text \<open>The issues, and the parsed key when there are none.\<close>

definition parseAndValidateFactKey ::
  "'a difference_draft_scheme \<Rightarrow> string \<Rightarrow> (validation_issue list \<times> (fact_kind \<times> json list) option) option" where
  "parseAndValidateFactKey d path =
     (let s = dd_subject d;
          rejected = (\<lambda>field message. Some ([issue (path @ ''/subject/'' @ field) ''semantic.fact_key_mismatch'' message], None)) in
      case expectedFactKind d of
        None \<Rightarrow> rejected ''fact_kind'' ''difference kind and fact kind disagree''
      | Some expected \<Rightarrow>
          (if ds_fact_kind s \<noteq> Some expected then rejected ''fact_kind'' ''difference kind and fact kind disagree''
           else (case JSON_parse (case ds_fact_key s of None \<Rightarrow> '''' | Some key \<Rightarrow> key) of
             None \<Rightarrow> rejected ''fact_key'' ''fact key is not its exact canonical tuple''
           | Some parsed \<Rightarrow>
               (if Some (canonicalJson parsed) \<noteq> ds_fact_key s
                then rejected ''fact_key'' ''fact key is not its exact canonical tuple''
                else (case parsed of
                  JArr tuple \<Rightarrow>
                    (case fact_tuple_valid s expected tuple of
                       None \<Rightarrow> None
                     | Some valid \<Rightarrow> (if \<not> valid then rejected ''fact_key'' ''fact key does not match its difference subject''
                         else Some ([], Some (expected, tuple))))
                | _ \<Rightarrow> rejected ''fact_key'' ''fact key must be a tuple'')))))"

section \<open>Fact projections\<close>

text \<open>The projection schemas; the third-party verdict on each is the parameter \<open>ajv\<close> below.\<close>

datatype projection_schema =
    EndpointProjection
  | ParameterProjection
  | RequestBodyProjection
  | ResponseProjection
  | SecurityProjection
  | SchemaProjection
  | ClaimProjection
  | PathParameterNamesProjection
  | DiagnosticProjection
  | CoverageProjection
  | IdentityProjection
  | ClaimConditionAssignmentSchema

fun fact_projection :: "fact_kind \<Rightarrow> projection_schema" where
  "fact_projection FkEndpoint = EndpointProjection"
| "fact_projection FkParameter = ParameterProjection"
| "fact_projection FkRequestBody = RequestBodyProjection"
| "fact_projection FkResponse = ResponseProjection"
| "fact_projection FkSecurity = SecurityProjection"
| "fact_projection FkSchema = SchemaProjection"
| "fact_projection FkClaim = ClaimProjection"
| "fact_projection FkDiagnostic = DiagnosticProjection"
| "fact_projection FkCoverage = CoverageProjection"
| "fact_projection FkIdentity = IdentityProjection"
| "fact_projection FkConditionGroup = ClaimConditionAssignmentSchema"

definition projectionParser :: "difference_kind \<Rightarrow> fact_kind \<Rightarrow> projection_schema" where
  "projectionParser kind fk =
     (if kind = DkEndpointPathParameterNamesChanged then PathParameterNamesProjection else fact_projection fk)"

text \<open>\<open>record.key === undefined || record.key === expected\<close>, the expected value a string or undefined.\<close>

definition member_agrees :: "string \<Rightarrow> json \<Rightarrow> json option \<Rightarrow> bool" where
  "member_agrees key value expected = (jget key value = None \<or> jget key value = expected)"

definition projectionAgreesWithFact :: "json \<Rightarrow> difference_subject \<Rightarrow> fact_kind \<Rightarrow> json list \<Rightarrow> bool" where
  "projectionAgreesWithFact value s fk tuple =
     (if \<not> is_object value then True
      else (case fk of
        FkEndpoint \<Rightarrow> member_agrees ''endpoint_id'' value (map_option JStr (ds_endpoint_id s))
      | FkParameter \<Rightarrow> member_agrees ''in'' value (Some (tuple ! 2)) \<and> member_agrees ''name'' value (Some (tuple ! 3))
      | FkRequestBody \<Rightarrow> member_agrees ''media_type'' value (Some (tuple ! 2))
      | FkSchema \<Rightarrow> member_agrees ''schema_id'' value (map_option JStr (ds_component_id s))
      | FkDiagnostic \<Rightarrow> jget ''code'' value = Some (tuple ! 1) \<and>
          map_option canonicalJson (jget ''affected_endpoint_ids'' value) =
            Some (canonicalJson (strings_json (or_empty (ds_affected_endpoint_ids s))))
      | _ \<Rightarrow> True))"

definition projectionSetsAreCanonical :: "json \<Rightarrow> difference_kind \<Rightarrow> fact_kind \<Rightarrow> bool option" where
  "projectionSetsAreCanonical value kind fk =
     (if fk = FkIdentity \<and> (case value of JStr _ \<Rightarrow> True | _ \<Rightarrow> False) then Some True
      else if \<not> is_object value \<and> \<not> is_array value then Some False
      else if kind = DkEndpointPathParameterNamesChanged then
        Some (case value of JArr vs \<Rightarrow> isCanonicalStringSet (items_text vs) | _ \<Rightarrow> False)
      else (case fk of
        FkEndpoint \<Rightarrow> (if is_array value then Some False else endpointSetsAreCanonical value)
      | FkParameter \<Rightarrow> Some (\<not> is_array value \<and> parameterSetsAreCanonical value)
      | FkRequestBody \<Rightarrow> Some (\<not> is_array value \<and> requestBodySetsAreCanonical value)
      | FkResponse \<Rightarrow> Some (\<not> is_array value \<and> responseSetsAreCanonical value)
      | FkSecurity \<Rightarrow> Some (\<not> is_array value \<and> securitySetsAreCanonical value)
      | FkSchema \<Rightarrow> Some (\<not> is_array value \<and>
          apiSchemaSetsAreCanonical (case jget ''schema'' value of None \<Rightarrow> value | Some s \<Rightarrow> (if s = JNull then value else s)))
      | FkClaim \<Rightarrow> Some (case value of
            JArr vs \<Rightarrow> isCanonicalBy canonicalJson vs \<and>
              list_all (\<lambda>m. list_all conditionSetsAreCanonical (member_value ''condition'' m)) vs
          | _ \<Rightarrow> False)
      | FkDiagnostic \<Rightarrow> Some (\<not> is_array value \<and> isCanonicalStringSet (items_text (member_items ''affected_endpoint_ids'' value)))
      | FkCoverage \<Rightarrow> Some (\<not> is_array value)
      | FkIdentity \<Rightarrow> Some (\<not> is_array value \<and> identitySetsAreCanonical value)
      | FkConditionGroup \<Rightarrow> Some True))"

definition validateFactProjection ::
  "(projection_schema \<Rightarrow> json \<Rightarrow> bool) \<Rightarrow> 'a difference_draft_scheme \<Rightarrow> fact_kind \<Rightarrow> json list \<Rightarrow> string \<Rightarrow> json option \<Rightarrow>
   validation_issue list option" where
  "validateFactProjection ajv d fk tuple path side =
     (case side of
        None \<Rightarrow> Some []
      | Some value \<Rightarrow>
          (if \<not> ajv (projectionParser (dd_kind d) fk) value \<or> \<not> projectionAgreesWithFact value (dd_subject d) fk tuple
           then Some [issue path ''semantic.unsafe_fact_projection'' ''fact projection contains unsupported or private metadata'']
           else map_option (\<lambda>canonical. if canonical then [] else [orderIssue path])
             (projectionSetsAreCanonical value (dd_kind d) fk)))"

text \<open>Lists of issues computed one after the other; a check that throws ends them.\<close>

definition append_opt :: "'a list option \<Rightarrow> 'a list option \<Rightarrow> 'a list option" where
  "append_opt a b = (case a of None \<Rightarrow> None | Some xs \<Rightarrow> map_option ((@) xs) b)"

definition validateFactProjections ::
  "(projection_schema \<Rightarrow> json \<Rightarrow> bool) \<Rightarrow> 'a difference_draft_scheme \<Rightarrow> fact_kind \<Rightarrow> json list \<Rightarrow> string \<Rightarrow>
   validation_issue list option" where
  "validateFactProjections ajv d fk tuple path =
     (if fk = FkConditionGroup then Some []
      else append_opt
        (validateFactProjection ajv d fk tuple (path @ ''/before'') (dd_before d))
        (validateFactProjection ajv d fk tuple (path @ ''/after'') (dd_after d)))"

section \<open>Semantic checks of differences\<close>

text \<open>The assignment list of a condition difference.\<close>

definition side_items :: "json option \<Rightarrow> json list" where
  "side_items side = (case side of Some (JArr vs) \<Rightarrow> vs | _ \<Rightarrow> [])"

definition validateAssignmentOrder :: "json list \<Rightarrow> string \<Rightarrow> validation_issue list" where
  "validateAssignmentOrder assignments path =
     (if \<not> isCanonicalBy canonicalJson assignments then [orderIssue path] else []) @
     (if \<not> list_all (\<lambda>a. case jget ''condition'' a of None \<Rightarrow> False | Some c \<Rightarrow> conditionSetsAreCanonical c) assignments
      then [orderIssue path] else [])"

definition affectedIssues :: "difference_subject \<Rightarrow> string \<Rightarrow> validation_issue list" where
  "affectedIssues s path =
     (case ds_affected_endpoint_ids s of
        None \<Rightarrow> []
      | Some ids \<Rightarrow>
          (if \<not> isCanonicalStringSet ids then [orderIssue (path @ ''/subject/affected_endpoint_ids'')] else []) @
          (if ds_fact_kind s \<noteq> Some FkSchema \<and> ds_fact_kind s \<noteq> Some FkDiagnostic
           then [issue (path @ ''/subject/affected_endpoint_ids'') ''semantic.invalid_subject''
                  ''affected endpoints are reserved for schema differences''] else []))"

definition conditionIssues :: "'a difference_draft_scheme \<Rightarrow> string \<Rightarrow> validation_issue list" where
  "conditionIssues d path =
     (if \<not> kind_starts (dd_kind d) ''condition.'' then []
      else
        (let before = side_items (dd_before d); after = side_items (dd_after d) in
         validateAssignmentOrder before (path @ ''/before'') @
         validateAssignmentOrder after (path @ ''/after'') @
         (if dd_kind d = DkConditionChanged \<and> canonicalJson (JArr before) = canonicalJson (JArr after)
          then [issue path ''semantic.unchanged_condition_group'' ''changed condition groups must differ''] else [])))"

definition validateDifferenceSemantics ::
  "(projection_schema \<Rightarrow> json \<Rightarrow> bool) \<Rightarrow> 'a difference_draft_scheme \<Rightarrow> string \<Rightarrow> validation_issue list option" where
  "validateDifferenceSemantics ajv d path =
     (case parseAndValidateFactKey d path of
        None \<Rightarrow> None
      | Some (keyIssues, parsed) \<Rightarrow>
          append_opt (Some (affectedIssues (dd_subject d) path @ keyIssues))
            (append_opt (case parsed of None \<Rightarrow> Some [] | Some (fk, tuple) \<Rightarrow> validateFactProjections ajv d fk tuple path)
              (Some (conditionIssues d path))))"

definition confirmedRemovalKinds :: "difference_kind list" where
  "confirmedRemovalKinds =
     [DkEndpointRemoved, DkParameterRemoved, DkRequestBodyRemoved, DkResponseRemoved, DkSchemaRemoved, DkClaimRemoved]"

definition absenceKinds :: "difference_kind list" where
  "absenceKinds = [DkEndpointAbsenceUnconfirmed, DkFactAbsenceUnconfirmed]"

definition subject_key :: "'a difference_draft_scheme \<Rightarrow> string" where
  "subject_key d = canonicalJson (JArr [JStr (difference_kind_text (dd_kind d)), subject_json (dd_subject d)])"

text \<open>The body of the loop over the differences, given the identifiers and subjects seen before.\<close>

definition differenceIssues ::
  "platform \<Rightarrow> (projection_schema \<Rightarrow> json \<Rightarrow> bool) \<Rightarrow> difference_set \<Rightarrow> string list \<Rightarrow> string list \<Rightarrow> nat \<Rightarrow>
   contract_difference \<Rightarrow> validation_issue list option" where
  "differenceIssues pf ajv dset seenIds seenSubjects index d =
     (let path = at ''/differences'' index;
          targetCoverageIncomplete = TargetCoverageIncomplete \<in> set (dc_incomplete_reason_codes dset) in
      case validateDifferenceSemantics ajv d path of
        None \<Rightarrow> None
      | Some nested \<Rightarrow> Some
         ((if df_difference_id d \<in> set seenIds
           then [issue (path @ ''/difference_id'') ''semantic.duplicate_id'' ''duplicate difference ID''] else []) @
          (if subject_key d \<in> set seenSubjects
           then [issue (path @ ''/subject'') ''semantic.duplicate_comparison_key'' ''duplicate difference subject''] else []) @
          (if ds_service_id (dd_subject d) \<noteq> dc_service_id dset
           then [issue (path @ ''/subject/service_id'') ''semantic.scope_mismatch'' ''difference service does not match its set''] else []) @
          (if dd_kind d \<in> set absenceKinds \<and> \<not> targetCoverageIncomplete
           then [issue (path @ ''/kind'') ''semantic.incomplete_absence'' ''unconfirmed absence requires incomplete target coverage''] else []) @
          (if dd_kind d \<in> set confirmedRemovalKinds \<and> targetCoverageIncomplete
           then [issue (path @ ''/kind'') ''semantic.incomplete_absence'' ''confirmed removal requires complete target coverage''] else []) @
          nested @
          (if nested = [] \<and> df_difference_id d \<noteq> difference_id_of pf (dc_service_id dset)
              (sn_snapshot_id (dc_base dset)) (sn_snapshot_id (dc_target dset)) d
           then [issue (path @ ''/difference_id'') ''semantic.identity_mismatch'' ''difference ID does not match canonical content''] else [])))"

fun differencesIssues ::
  "platform \<Rightarrow> (projection_schema \<Rightarrow> json \<Rightarrow> bool) \<Rightarrow> difference_set \<Rightarrow> string list \<Rightarrow> string list \<Rightarrow> nat \<Rightarrow>
   contract_difference list \<Rightarrow> validation_issue list option" where
  "differencesIssues pf ajv dset seenIds seenSubjects index [] = Some []"
| "differencesIssues pf ajv dset seenIds seenSubjects index (d # ds) =
     append_opt (differenceIssues pf ajv dset seenIds seenSubjects index d)
       (differencesIssues pf ajv dset (set_add (df_difference_id d) seenIds) (set_add (subject_key d) seenSubjects) (Suc index) ds)"

fun strictly_ordered :: "contract_difference list \<Rightarrow> bool" where
  "strictly_ordered (x # y # ys) = (compareDifference x y < 0 \<and> strictly_ordered (y # ys))"
| "strictly_ordered _ = True"

definition incompleteReasonRank :: "difference_incomplete_reason \<Rightarrow> string" where
  "incompleteReasonRank reason = nat_text (index_of DIFFERENCE_INCOMPLETE_REASONS reason)"

definition setHeaderIssues :: "difference_set \<Rightarrow> validation_issue list" where
  "setHeaderIssues dset =
     (if \<not> isCanonicalBy incompleteReasonRank (dc_incomplete_reason_codes dset) then [orderIssue ''/incomplete_reason_codes''] else []) @
     (if (dc_comparison_status dset = ComparisonComplete) \<noteq> (dc_incomplete_reason_codes dset = [])
      then [issue ''/comparison_status'' ''semantic.incomplete_reason_mismatch'' ''comparison status and reasons disagree''] else [])"

definition validateDifferenceSetSemantics ::
  "platform \<Rightarrow> (projection_schema \<Rightarrow> json \<Rightarrow> bool) \<Rightarrow> difference_set \<Rightarrow> validation_issue list option" where
  "validateDifferenceSetSemantics pf ajv dset =
     (case append_opt (Some (setHeaderIssues dset)) (differencesIssues pf ajv dset [] [] 0 (dc_differences dset)) of
        None \<Rightarrow> None
      | Some issues \<Rightarrow>
          (let issues = issues @ (if strictly_ordered (dc_differences dset) then [] else [orderIssue ''/differences'']) in
           Some (issues @
             (if issues = [] \<and> dc_difference_set_id dset \<noteq> difference_set_id_of pf dset
              then [issue ''/difference_set_id'' ''semantic.identity_mismatch'' ''difference-set ID does not match canonical content'']
              else []))))"

section \<open>Parsing a difference set\<close>

text \<open>
  The third-party verdicts a difference set depends on: which values pass a projection schema,
  and the shape issues of the set itself (none when \<open>ContractDifferenceSetSchema\<close> holds).
\<close>

record difference_validators =
  dv_projection :: "projection_schema \<Rightarrow> json \<Rightarrow> bool"
  dv_set_shape :: "difference_set \<Rightarrow> validation_issue list"

text \<open>\<open>safeParserFor\<close> turns a throwing check into one fixed issue.\<close>

definition parseContractDifferenceSet ::
  "platform \<Rightarrow> difference_validators \<Rightarrow> difference_set \<Rightarrow> (validation_issue list, difference_set) result" where
  "parseContractDifferenceSet pf dv dset =
     (if dv_set_shape dv dset \<noteq> [] then Inl (dv_set_shape dv dset)
      else (case validateDifferenceSetSemantics pf (dv_projection dv) dset of
        None \<Rightarrow> Inl [issue ''/'' ''shape.invalid_json_value'' ''input must contain only JSON values'']
      | Some issues \<Rightarrow> (if issues \<noteq> [] then Inl issues else Inr dset)))"

lemma parseContractDifferenceSet_Inr:
  "parseContractDifferenceSet pf dv dset = Inr r \<longleftrightarrow>
   r = dset \<and> dv_set_shape dv dset = [] \<and> validateDifferenceSetSemantics pf (dv_projection dv) dset = Some []"
  by (auto simp: parseContractDifferenceSet_def split: option.splits)

end
