(* ===== verification/UpdProject.thy ===== *)
theory UpdProject
  imports UpdDifference
begin

text \<open>
  Canonical projections of contract facts, the first half of \<open>packages/updates/src/differences.ts\<close>.
  A computation that does not return a value ends in an \<open>abort\<close>: an exception (\<open>ThrownOther\<close> is
  a \<open>TypeError\<close>), or a loop that never ends. \<open>structuredClone\<close> of data and
  \<open>JSON.parse(canonicalJson(x))\<close> are the value itself and, by \<open>JSON_parse_canonical\<close>, its
  normal form.
\<close>

datatype abort = Throws thrown | NeverReturns

definition input_error :: abort where
  "input_error = Throws (ThrownUpdate (updateError INVALID_UPDATE_INPUT None None))"

type_synonym 'a run = "(abort, 'a) result"

section \<open>Canonical sets\<close>

definition uniqueSorted :: "('a \<Rightarrow> string) \<Rightarrow> 'a list \<Rightarrow> 'a list" where
  "uniqueSorted key values = map snd (js_sort (\<lambda>a b. compareUtf8 (fst a) (fst b)) (keyed key values))"

definition canonicalStrings :: "string list \<Rightarrow> string list" where
  "canonicalStrings values = uniqueSorted (\<lambda>v. v) values"

fun is_string :: "json \<Rightarrow> bool" where
  "is_string (JStr _) = True"
| "is_string _ = False"

text \<open>
  \<open>canonicalStrings\<close> on a list that may hold other values: they are keys of the map, and only
  comparing two of them throws. (An array element, which \<open>Buffer.from\<close> takes for bytes, and two
  equal objects, which are distinct keys, are not modelled.)
\<close>

definition canonicalItems :: "json list \<Rightarrow> json list run" where
  "canonicalItems vs =
     (if list_all is_string vs then Inr (map JStr (canonicalStrings (items_text vs)))
      else if length (js_set vs) \<le> 1 then Inr (js_set vs)
      else Inl (Throws ThrownOther))"

section \<open>Schemas and conditions\<close>

text \<open>The members whose arrays are sets of names, and those whose arrays are sets of values.\<close>

definition name_set_key :: "string \<Rightarrow> bool" where
  "name_set_key k = (k \<in> set [''type'', ''required''])"

definition value_set_key :: "string \<Rightarrow> bool" where
  "value_set_key k = (k \<in> set [''enum'', ''oneOf'', ''anyOf'', ''allOf''])"

text \<open>What \<open>canonicalSchema\<close> makes of one member of an object once the children are canonical.\<close>

definition canonical_member :: "string \<times> json \<Rightarrow> (string \<times> json) run" where
  "canonical_member p =
     (case snd p of
        JArr vs \<Rightarrow>
          (if name_set_key (fst p) then and_then (canonicalItems vs) (\<lambda>ws. Inr (fst p, JArr ws))
           else if value_set_key (fst p) then Inr (fst p, JArr (uniqueSorted canonicalJson vs))
           else Inr p)
      | _ \<Rightarrow> Inr p)"

fun canonicalSchema :: "json \<Rightarrow> json run" where
  "canonicalSchema (JArr vs) = and_then (traverse canonicalSchema vs) (\<lambda>ws. Inr (JArr ws))"
| "canonicalSchema (JObj kvs) =
     and_then (traverse (\<lambda>(k, v). and_then (canonicalSchema v) (\<lambda>w. Inr (k, w))) kvs)
       (\<lambda>members. and_then (traverse canonical_member members) (\<lambda>members. Inr (JObj members)))"
| "canonicalSchema v = Inr v"

text \<open>A condition; its shape makes the schema paths strings and the operands conditions.\<close>

definition condition_sorted :: "json \<Rightarrow> bool" where
  "condition_sorted kvs = (jget ''operator'' kvs = Some (JStr ''and'') \<or> jget ''operator'' kvs = Some (JStr ''or''))"

fun condition_sets :: "json \<Rightarrow> json" where
  "condition_sets (JObj kvs) = JObj (map (\<lambda>(k, v).
     (k, case v of
           JArr vs \<Rightarrow>
             (if k = ''affected_schema_paths'' then strings_json (canonicalStrings (items_text vs))
              else if k = ''operands'' then
                (let operands = map (\<lambda>c. json_normal (condition_sets c)) vs in
                 JArr (if condition_sorted (JObj kvs) then uniqueSorted canonicalJson operands else operands))
              else v)
         | _ \<Rightarrow> v)) kvs)"
| "condition_sets v = v"

definition canonicalCondition :: "json \<Rightarrow> json" where
  "canonicalCondition value = json_normal (condition_sets value)"

definition canonicalJsonValue :: "json \<Rightarrow> json" where
  "canonicalJsonValue value = json_normal value"

section \<open>Projections of endpoint members\<close>

fun presenceProjection :: "presence \<Rightarrow> json" where
  "presenceProjection (Conditional condition _) =
     JObj [(''state'', JStr ''conditional''), (''condition'', canonicalCondition condition)]"
| "presenceProjection (Stated s ids) = JObj [(''state'', JStr (presence_text (Stated s ids)))]"

definition parameterKey :: "parameter \<Rightarrow> string" where
  "parameterKey p = canonicalJson (JArr [JStr (in_text (pm_in p)), JStr (pm_name p)])"

definition parameterProjection :: "parameter \<Rightarrow> json run" where
  "parameterProjection p = and_then (canonicalSchema (pm_schema p)) (\<lambda>schema. Inr (JObj
     [(''name'', JStr (pm_name p)), (''in'', JStr (in_text (pm_in p))),
      (''presence'', presenceProjection (pm_presence p)), (''schema'', schema),
      (''serialization'', pm_serialization p)]))"

definition form_encoding_json :: "form_encoding \<Rightarrow> json" where
  "form_encoding_json e = JObj
     (opt_member ''style'' (map_option (JStr \<circ> style_text) (fe_style e)) @
      opt_member ''explode'' (map_option JBool (fe_explode e)) @
      opt_member ''content_type'' (map_option JStr (fe_content_type e)))"

definition requestBodyEncodingProjection :: "request_body \<Rightarrow> json option" where
  "requestBodyEncodingProjection body =
     (case rb_encoding body of
        None \<Rightarrow> None
      | Some encoding \<Rightarrow> (if encoding = [] then None
          else Some (JObj (map (\<lambda>(property, e). (property, form_encoding_json e)) encoding))))"

definition bodyProjection :: "request_body \<Rightarrow> json run" where
  "bodyProjection body = and_then (canonicalSchema (rb_schema body)) (\<lambda>schema. Inr (JObj
     ([(''media_type'', JStr (rb_media_type body)), (''presence'', presenceProjection (rb_presence body)),
       (''schema'', schema), (''serialization'', rb_serialization body)] @
      opt_member ''encoding'' (requestBodyEncodingProjection body))))"

section \<open>Responses\<close>

fun status_json :: "response_status \<Rightarrow> json" where
  "status_json (ExactStatus code) = JObj [(''kind'', JStr ''exact''), (''code'', JNum (int code))]"
| "status_json (RangeStatus rng) = JObj [(''kind'', JStr ''range''), (''range'', JStr rng)]"
| "status_json DefaultStatus = JObj [(''kind'', JStr ''default'')]"
| "status_json (UnknownStatus reason) = JObj [(''kind'', JStr ''unknown''), (''reason'', JStr reason)]"

fun statusKey :: "response_status \<Rightarrow> string" where
  "statusKey (ExactStatus code) = canonicalJson (JArr [JStr ''exact'', JNum (int code)])"
| "statusKey (RangeStatus rng) = canonicalJson (JArr [JStr ''range'', JStr rng])"
| "statusKey DefaultStatus = canonicalJson (JArr [JStr ''default''])"
| "statusKey (UnknownStatus reason) = canonicalJson (JArr [JStr ''unknown'', JStr reason])"

text \<open>A group keeps, beside each JSON member, the text it is sorted by.\<close>

record response_group =
  rg_status :: response_status
  rg_content :: "(string \<times> json) list"
  rg_headers :: "(string \<times> json) list"

definition content_member :: "content \<Rightarrow> (string \<times> json) run" where
  "content_member c = and_then (canonicalSchema (ct_schema c)) (\<lambda>schema. Inr (ct_media_type c, JObj
     [(''media_type'', JStr (ct_media_type c)), (''schema'', schema), (''serialization'', ct_serialization c)]))"

definition header_member :: "header \<Rightarrow> (string \<times> json) run" where
  "header_member h = and_then (canonicalSchema (hd_schema h)) (\<lambda>schema. Inr (asciiLower (hd_name h), JObj
     [(''name'', JStr (asciiLower (hd_name h))), (''schema'', schema)]))"

definition add_response :: "(string, response_group) jmap \<Rightarrow> response \<Rightarrow> (string, response_group) jmap run" where
  "add_response groups r =
     (let key = statusKey (rp_status r);
          group = map_get_or \<lparr>rg_status = rp_status r, rg_content = [], rg_headers = []\<rparr> groups key in
      and_then (traverse content_member (rp_content r)) (\<lambda>content.
      and_then (traverse header_member (response_headers r)) (\<lambda>headers.
        Inr (map_set key (group\<lparr>rg_content := rg_content group @ content, rg_headers := rg_headers group @ headers\<rparr>) groups))))"

text \<open>A loop whose body may abort.\<close>

fun fold_run :: "('s \<Rightarrow> 'a \<Rightarrow> 's run) \<Rightarrow> 's \<Rightarrow> 'a list \<Rightarrow> 's run" where
  "fold_run f s [] = Inr s"
| "fold_run f s (x # xs) = and_then (f s x) (\<lambda>s. fold_run f s xs)"

definition sort_members :: "(string \<times> json) list \<Rightarrow> (string \<times> json) list" where
  "sort_members members = js_sort (\<lambda>a b. compareUtf8 (fst a) (fst b)) members"

definition sort_group :: "response_group \<Rightarrow> response_group" where
  "sort_group g = g\<lparr>rg_content := sort_members (rg_content g), rg_headers := sort_members (rg_headers g)\<rparr>"

definition responseGroups :: "endpoint \<Rightarrow> (string, response_group) jmap run" where
  "responseGroups e = and_then (fold_run add_response [] (ep_responses e))
     (\<lambda>groups. Inr (map (\<lambda>(key, group). (key, sort_group group)) groups))"

definition responseProjection :: "response_group \<Rightarrow> json" where
  "responseProjection g = JObj
     ([(''status'', status_json (rg_status g)), (''content'', JArr (map snd (rg_content g)))] @
      (if rg_headers g = [] then [] else [(''headers'', JArr (map snd (rg_headers g)))]))"

definition responseProjections :: "endpoint \<Rightarrow> json list run" where
  "responseProjections e = and_then (responseGroups e)
     (\<lambda>groups. Inr (map (\<lambda>(key, group). responseProjection group) (js_sort (\<lambda>a b. compareUtf8 (fst a) (fst b)) groups)))"

section \<open>Security\<close>

definition scopesByScheme :: "requirement list \<Rightarrow> (string, string list) jmap" where
  "scopesByScheme requirements =
     foldl (\<lambda>m r. map_set (rq_scheme r) (map_get_or [] m (rq_scheme r) @ rq_scopes r) m) [] requirements"

definition alternative_json :: "requirement list \<Rightarrow> json" where
  "alternative_json requirements = JObj [(''requirements'', JArr (map (\<lambda>(scheme, scopes).
     JObj [(''scheme'', JStr scheme), (''scopes'', strings_json (canonicalStrings scopes))])
     (js_sort (\<lambda>a b. compareUtf8 (fst a) (fst b)) (scopesByScheme requirements))))]"

fun scheme_definition_json :: "security_scheme_definition \<Rightarrow> json" where
  "scheme_definition_json (ApiKeyScheme n l) =
     JObj [(''type'', JStr ''apiKey''), (''name'', JStr n), (''in'', JStr (key_location_text l))]"
| "scheme_definition_json (HttpScheme scheme bearer) =
     JObj ([(''type'', JStr ''http''), (''scheme'', JStr scheme)] @ opt_member ''bearerFormat'' (map_option JStr bearer))"

text \<open>
  A member looked up by name in a plain object: its own members, then what it inherits from
  \<open>Object.prototype\<close>.
\<close>

datatype 'a found = Own 'a | Inherited | Missing

definition inherited_names :: "string list" where
  "inherited_names =
     [''constructor'', ''__defineGetter__'', ''__defineSetter__'', ''hasOwnProperty'', ''__lookupGetter__'',
      ''__lookupSetter__'', ''isPrototypeOf'', ''propertyIsEnumerable'', ''toString'', ''valueOf'',
      ''__proto__'', ''toLocaleString'']"

definition object_lookup :: "(string \<times> 'a) list \<Rightarrow> string \<Rightarrow> 'a found" where
  "object_lookup members name =
     (case map_of members name of
        Some v \<Rightarrow> Own v
      | None \<Rightarrow> (if name \<in> set inherited_names then Inherited else Missing))"

text \<open>
  The definition of an inherited name is \<open>undefined\<close>, which the canonical serializer rejects when
  the projection is written; here the projection itself ends in that error.
\<close>

definition scheme_definition_member :: "contract_snapshot \<Rightarrow> string \<Rightarrow> (string \<times> json) list run" where
  "scheme_definition_member s name =
     (case cs_security_schemes s of
        None \<Rightarrow> Inr []
      | Some schemes \<Rightarrow> (case object_lookup schemes name of
          Missing \<Rightarrow> Inr []
        | Inherited \<Rightarrow> Inl input_error
        | Own f \<Rightarrow> Inr [(name, scheme_definition_json (sf_definition f))]))"

definition schemeNames :: "endpoint \<Rightarrow> string list" where
  "schemeNames e = canonicalStrings (concat_map (map rq_scheme) (sc_alternatives (ep_security e)))"

definition security_json :: "endpoint \<Rightarrow> contract_snapshot \<Rightarrow> json run" where
  "security_json e s =
     and_then (traverse (scheme_definition_member s) (schemeNames e)) (\<lambda>definitions. Inr (JObj
       (opt_member ''state'' (map_option (JStr \<circ> security_state_text) (sc_state (ep_security e))) @
        [(''alternatives'', JArr (uniqueSorted canonicalJson (map alternative_json (sc_alternatives (ep_security e)))))] @
        (if concat definitions = [] then [] else [(''scheme_definitions'', JObj (concat definitions))]))))"

section \<open>Endpoints\<close>

definition endpointProjection :: "endpoint \<Rightarrow> contract_snapshot \<Rightarrow> json run" where
  "endpointProjection e s =
     and_then (traverse (\<lambda>p. and_then (parameterProjection p) (\<lambda>j. Inr (parameterKey p, j))) (ep_parameters e)) (\<lambda>parameters.
     and_then (traverse (\<lambda>b. and_then (bodyProjection b) (\<lambda>j. Inr (rb_media_type b, j))) (ep_request_bodies e)) (\<lambda>requestBodies.
     and_then (responseProjections e) (\<lambda>responses.
     and_then (security_json e s) (\<lambda>security. Inr (JObj
       [(''endpoint_id'', JStr (ep_endpoint_id e)), (''identity'', identity_json (ep_identity e)),
        (''method'', JStr (ei_method (ep_identity e))), (''application_path'', JStr (ep_application_path e)),
        (''parameters'', JArr (map snd (sort_members parameters))),
        (''request_bodies'', JArr (map snd (sort_members requestBodies))),
        (''responses'', JArr responses), (''security'', security)])))))"

text \<open>The \<open>security\<close> member of the endpoint projection, computed with the rest of it.\<close>

definition securityProjection :: "endpoint \<Rightarrow> contract_snapshot \<Rightarrow> json run" where
  "securityProjection e s = and_then (endpointProjection e s) (\<lambda>v.
     (case jget ''security'' v of Some security \<Rightarrow> Inr security | None \<Rightarrow> Inl (Throws ThrownOther)))"

section \<open>Compatibility of members\<close>

text \<open>\<open>value ?? null\<close>.\<close>

definition opt_json :: "json option \<Rightarrow> json" where
  "opt_json v = (case v of None \<Rightarrow> JNull | Some j \<Rightarrow> j)"

text \<open>What the comparison reads of a parameter or a body; only a body has an encoding.\<close>

record member_fact =
  mf_presence :: presence
  mf_schema :: json
  mf_serialization :: json
  mf_encoding :: "json option"

definition parameter_fact :: "parameter \<Rightarrow> member_fact" where
  "parameter_fact p = \<lparr>mf_presence = pm_presence p, mf_schema = pm_schema p,
     mf_serialization = pm_serialization p, mf_encoding = None\<rparr>"

definition body_fact :: "request_body \<Rightarrow> member_fact" where
  "body_fact b = \<lparr>mf_presence = rb_presence b, mf_schema = rb_schema b,
     mf_serialization = rb_serialization b, mf_encoding = requestBodyEncodingProjection b\<rparr>"

definition presenceState :: "member_fact \<Rightarrow> string" where
  "presenceState m = presence_text (mf_presence m)"

definition restrictive :: "string \<Rightarrow> bool" where
  "restrictive state = (state = ''required'' \<or> state = ''conditional'')"

definition changedMemberCompatibility :: "member_fact \<Rightarrow> member_fact \<Rightarrow> compatibility_label run" where
  "changedMemberCompatibility before after =
     (let beforeState = presenceState before; afterState = presenceState after;
          shown = (\<lambda>schema m. canonicalJson (JObj [(''schema'', schema), (''serialization'', mf_serialization m)])) in
      and_then (canonicalSchema (mf_schema before)) (\<lambda>beforeSchema.
      and_then (canonicalSchema (mf_schema after)) (\<lambda>afterSchema. Inr
        (let otherwiseEqual = (shown beforeSchema before = shown afterSchema after);
             encodingEqual = (canonicalJson (opt_json (mf_encoding before)) = canonicalJson (opt_json (mf_encoding after))) in
         if \<not> otherwiseEqual \<or> \<not> encodingEqual then PotentiallyBreaking
         else if beforeState = ''unknown'' \<or> afterState = ''unknown'' then UnknownCompatibility
         else if beforeState = ''optional'' \<and> restrictive afterState then PotentiallyBreaking
         else if restrictive beforeState \<and> afterState = ''optional'' then NonBreaking
         else PotentiallyBreaking))))"

definition addedMemberCompatibility :: "member_fact \<Rightarrow> compatibility_label" where
  "addedMemberCompatibility m =
     (if presenceState m = ''optional'' then NonBreaking
      else if presenceState m = ''unknown'' then UnknownCompatibility
      else PotentiallyBreaking)"

section \<open>Laws of canonical sets\<close>

lemma map_key_uniqueSorted: "map key (uniqueSorted key xs) = sorted_list_of_set (key ` set xs)"
proof -
  let ?m = "sort_key fst (keyed key xs)"
  have "map key (map snd ?m) = map fst ?m" using keyed_mem [of _ _ key xs] by (auto simp: comp_def)
  also have "\<dots> = sort (map fst (keyed key xs))" by (rule map_fst_sort_key)
  also have "\<dots> = sorted_list_of_set (key ` set xs)"
    by (intro sorted_distinct_set_unique) (auto simp: image_image)
  finally show ?thesis by (simp add: uniqueSorted_def js_sort_by_compareUtf8)
qed

lemma set_uniqueSorted_subset: "set (uniqueSorted key xs) \<subseteq> set xs"
  using keyed_mem [of _ _ key xs] by (auto simp: uniqueSorted_def js_sort_by_compareUtf8)

lemma uniqueSorted_canonical [canonical_intros]: "isCanonicalBy key (uniqueSorted key xs)"
  by (simp only: isCanonicalBy_iff map_key_uniqueSorted) simp

lemma set_uniqueSorted: "inj_on key (set xs) \<Longrightarrow> set (uniqueSorted key xs) = set xs"
  by (auto simp: uniqueSorted_def js_sort_by_compareUtf8 image_iff set_keyed)

lemma uniqueSorted_Nil_iff [simp]: "uniqueSorted key xs = [] \<longleftrightarrow> xs = []"
proof -
  have "uniqueSorted key xs = [] \<longleftrightarrow> map key (uniqueSorted key xs) = []" by simp
  also have "\<dots> \<longleftrightarrow> xs = []" by (simp only: map_key_uniqueSorted) simp
  finally show ?thesis .
qed

lemma map_inj_on_eq: "inj_on f (set xs \<union> set ys) \<Longrightarrow> map f xs = map f ys \<longleftrightarrow> xs = ys"
  by (metis inj_on_map_eq_map)

lemma uniqueSorted_eq_iff:
  assumes "inj_on key (set xs \<union> set ys)"
  shows "uniqueSorted key xs = uniqueSorted key ys \<longleftrightarrow> set xs = set ys"
proof
  assume "uniqueSorted key xs = uniqueSorted key ys"
  with assms show "set xs = set ys" by (metis inj_on_Un set_uniqueSorted)
next
  assume "set xs = set ys"
  then have "map key (uniqueSorted key xs) = map key (uniqueSorted key ys)" by (simp only: map_key_uniqueSorted)
  moreover have "inj_on key (set (uniqueSorted key xs) \<union> set (uniqueSorted key ys))"
    by (rule inj_on_subset [OF assms]) (intro Un_mono set_uniqueSorted_subset)
  ultimately show "uniqueSorted key xs = uniqueSorted key ys" by (simp add: map_inj_on_eq)
qed

lemma canonicalStrings_eq: "canonicalStrings xs = sorted_list_of_set (set xs)"
  using map_key_uniqueSorted [of "\<lambda>v. v" xs] by (simp add: canonicalStrings_def)

lemma set_canonicalStrings [simp]: "set (canonicalStrings xs) = set xs"
  by (simp add: canonicalStrings_eq)

lemma canonicalStrings_Nil_iff [simp]: "canonicalStrings xs = [] \<longleftrightarrow> xs = []"
  by (simp add: canonicalStrings_eq)

lemma canonicalStrings_sorted [canonical_intros]: "isCanonicalStringSet (canonicalStrings xs)"
  by (simp add: isCanonicalStringSet_iff canonicalStrings_eq)

lemma canonicalStrings_idem: "isCanonicalStringSet xs \<Longrightarrow> canonicalStrings xs = xs"
  by (simp add: isCanonicalStringSet_iff canonicalStrings_eq sorted_list_of_set.idem_if_sorted_distinct strict_sorted_iff)

section \<open>Canonical schemas pass the validator\<close>

lemma canonicalSchema_array:
  "canonicalSchema (JArr vs) = Inr r \<Longrightarrow> \<exists>ws. r = JArr ws \<and> list_all2 (\<lambda>v w. canonicalSchema v = Inr w) vs ws"
  by (auto simp: and_then_Inr_iff traverse_Inr_iff)

text \<open>One member of a canonical object: the canonical child, its sets sorted.\<close>

definition member_canonical :: "string \<Rightarrow> json \<Rightarrow> json \<Rightarrow> bool" where
  "member_canonical k v w' = (\<exists>w. canonicalSchema v = Inr w \<and> canonical_member (k, w) = Inr (k, w'))"

lemma canonical_member_key: "canonical_member (k, w) = Inr p \<Longrightarrow> p = (k, snd p)"
  by (auto simp: canonical_member_def and_then_Inr_iff split: json.splits if_splits)

lemma list_all2_map_of:
  "list_all2 (\<lambda>p q. fst q = fst p \<and> R (fst p) (snd p) (snd q)) kvs ms \<Longrightarrow> rel_option (R k) (map_of kvs k) (map_of ms k)"
  by (induction rule: list_all2_induct) auto

lemma canonicalSchema_object:
  assumes "canonicalSchema (JObj kvs) = Inr r"
  shows "\<exists>ms. r = JObj ms \<and> list_all2 (\<lambda>p q. fst q = fst p \<and> member_canonical (fst p) (snd p) (snd q)) kvs ms"
proof -
  obtain ws ms where r: "r = JObj ms"
    and ws: "list_all2 (\<lambda>p w. and_then (canonicalSchema (snd p)) (\<lambda>w. Inr (fst p, w)) = Inr w) kvs ws"
    and ms: "list_all2 (\<lambda>w m. canonical_member w = Inr m) ws ms"
    using assms by (auto simp: and_then_Inr_iff traverse_Inr_iff case_prod_unfold)
  have "list_all2 (\<lambda>p q. fst q = fst p \<and> member_canonical (fst p) (snd p) (snd q)) kvs ms"
    using ws ms
  proof (rule list_all2_trans [rotated])
    fix p w m
    assume "and_then (canonicalSchema (snd p)) (\<lambda>w. Inr (fst p, w)) = Inr w" "canonical_member w = Inr m"
    then show "fst m = fst p \<and> member_canonical (fst p) (snd p) (snd m)"
      using canonical_member_key [of "fst w" "snd w" m]
      by (auto simp: and_then_Inr_iff member_canonical_def split: sum.splits)
         (metis fst_conv)+
  qed
  with r show ?thesis by blast
qed

lemma canonicalSchema_get:
  "canonicalSchema (JObj kvs) = Inr r \<Longrightarrow> rel_option (member_canonical k) (map_of kvs k) (jget k r)"
  using canonicalSchema_object [of kvs r] list_all2_map_of [of member_canonical kvs _ k] by auto

lemma canonicalSchema_scalar: "\<not> is_array v \<Longrightarrow> \<not> is_object v \<Longrightarrow> canonicalSchema v = Inr v"
  by (cases v) auto

lemma canonicalSchema_is_object: "canonicalSchema v = Inr w \<Longrightarrow> is_object w = is_object v"
  using canonicalSchema_array canonicalSchema_object canonicalSchema_scalar [of v] by (cases v) fastforce+

lemma canonicalSchema_is_array: "canonicalSchema v = Inr w \<Longrightarrow> is_array w = is_array v"
  using canonicalSchema_array canonicalSchema_object canonicalSchema_scalar [of v] by (cases v) fastforce+

lemma canonicalItems_canonical: "canonicalItems vs = Inr ws \<Longrightarrow> isCanonicalStringSet (items_text ws)"
proof -
  assume c: "canonicalItems vs = Inr ws"
  show ?thesis
  proof (cases "list_all is_string vs")
    case True
    then have "items_text ws = canonicalStrings (items_text vs)"
      using c by (auto simp: canonicalItems_def items_text_def comp_def)
    then show ?thesis by (simp add: canonicalStrings_sorted)
  next
    case False
    then have "length (items_text ws) \<le> 1"
      using c by (auto simp: canonicalItems_def items_text_def split: if_splits)
    then have "items_text ws = [] \<or> (\<exists>s. items_text ws = [s])" by (cases "items_text ws") auto
    then show ?thesis by (auto simp: isCanonicalStringSet_iff)
  qed
qed

lemma member_canonical_cases:
  assumes "member_canonical k v w'"
  obtains (names) vs ws where "canonicalSchema v = Inr (JArr vs)" "w' = JArr ws" "canonicalItems vs = Inr ws"
      "name_set_key k"
  | (members) vs where "canonicalSchema v = Inr (JArr vs)" "w' = JArr (uniqueSorted canonicalJson vs)"
      "value_set_key k" "\<not> name_set_key k"
  | (plain) "canonicalSchema v = Inr w'" "\<not> name_set_key k \<and> \<not> value_set_key k \<or> \<not> is_array w'"
proof -
  obtain w where w: "canonicalSchema v = Inr w" "canonical_member (k, w) = Inr (k, w')"
    using assms by (auto simp: member_canonical_def)
  show thesis
  proof (cases w)
    case (JArr vs)
    consider "name_set_key k" | "value_set_key k" "\<not> name_set_key k" | "\<not> name_set_key k" "\<not> value_set_key k" by blast
    then show thesis
    proof cases
      case 1
      with w JArr obtain ws where "canonicalItems vs = Inr ws" "w' = JArr ws"
        by (auto simp: canonical_member_def and_then_Inr_iff)
      with w JArr 1 show thesis by (intro names) auto
    next
      case 2
      with w JArr show thesis by (intro members) (auto simp: canonical_member_def)
    next
      case 3
      with w JArr show thesis by (intro plain) (auto simp: canonical_member_def)
    qed
  qed (use w plain in \<open>auto simp: canonical_member_def\<close>)
qed

lemma member_canonical_set:
  assumes "member_canonical k v (JArr ws)"
  shows "name_set_key k \<Longrightarrow> isCanonicalStringSet (items_text ws)"
    and "value_set_key k \<Longrightarrow> \<not> name_set_key k \<Longrightarrow> isCanonicalBy canonicalJson ws"
  using assms by (auto elim!: member_canonical_cases simp: canonicalItems_canonical uniqueSorted_canonical)

text \<open>A member under a key that holds no set, and any member that is no array, is the canonical child itself.\<close>

lemma member_canonical_plain:
  assumes "member_canonical k v w" "\<not> name_set_key k \<and> \<not> value_set_key k \<or> \<not> is_array v"
  shows "canonicalSchema v = Inr w"
  using assms(1)
proof (cases rule: member_canonical_cases)
  case (names vs ws)
  with assms(2) canonicalSchema_is_array [OF names(1)] show ?thesis by auto
next
  case (members vs)
  with assms(2) canonicalSchema_is_array [OF members(1)] show ?thesis by auto
qed

text \<open>What the shape of a schema guarantees about its children.\<close>

fun schema_shaped :: "json \<Rightarrow> bool" where
  "schema_shaped v =
     (is_object v \<and> (case jget ''properties'' v of None \<Rightarrow> True | Some p \<Rightarrow> is_object p) \<and>
      list_all schema_shaped (canonical_children v))"

declare schema_shaped.simps [simp del]

lemma is_object_conv: "is_object v \<longleftrightarrow> (\<exists>kvs. v = JObj kvs)"
  by (cases v) auto

lemma canonicalSchema_jget:
  assumes "canonicalSchema v = Inr w" "is_object v"
  shows "rel_option (member_canonical k) (jget k v) (jget k w)"
  using assms canonicalSchema_get by (auto simp: is_object_conv)

lemma jget_canonical:
  assumes "canonicalSchema v = Inr w" "is_object v" "jget k w = Some c'"
  shows "\<exists>c. jget k v = Some c \<and> member_canonical k c c'"
  using canonicalSchema_jget [OF assms(1,2), of k] assms(3) by (cases "jget k v") auto

lemma list_all2_right: "list_all2 P xs ys \<Longrightarrow> y \<in> set ys \<Longrightarrow> \<exists>x \<in> set xs. P x y"
  by (induction rule: list_all2_induct) auto

lemma member_items_image:
  assumes "canonicalSchema v = Inr w" "is_object v" "\<not> name_set_key k" "child' \<in> set (member_items k w)"
  shows "\<exists>child \<in> set (member_items k v). canonicalSchema child = Inr child'"
proof -
  obtain ws where ws: "jget k w = Some (JArr ws)" "child' \<in> set ws"
    using assms(4) by (auto simp: member_items_def dest: sym split: option.splits json.splits)
  obtain c where c: "jget k v = Some c" "member_canonical k c (JArr ws)" using jget_canonical [OF assms(1,2) ws(1)] by blast
  obtain vs' where vs': "canonicalSchema c = Inr (JArr vs')" "set ws \<subseteq> set vs'"
    using c(2) assms(3) set_uniqueSorted_subset [of canonicalJson] by (auto elim!: member_canonical_cases)
  then obtain vs where "c = JArr vs" using canonicalSchema_is_array [OF vs'(1)] by (cases c) auto
  with vs' canonicalSchema_array [of vs] have "list_all2 (\<lambda>v w. canonicalSchema v = Inr w) vs vs'" by auto
  then have "\<exists>child \<in> set vs. canonicalSchema child = Inr child'"
    by (rule list_all2_right) (use ws(2) vs'(2) in blast)
  then show ?thesis using c(1) \<open>c = JArr vs\<close> by (simp add: member_items_def)
qed

lemma member_value_image:
  assumes "canonicalSchema v = Inr w" "is_object v" "\<not> name_set_key k" "\<not> value_set_key k" "child' \<in> set (member_value k w)"
  shows "\<exists>child \<in> set (member_value k v). canonicalSchema child = Inr child'"
  using assms jget_canonical [OF assms(1,2), of k child'] member_canonical_plain
  by (auto simp: member_value_def split: option.splits)

lemma member_values_image:
  assumes "canonicalSchema v = Inr w" "is_object v" "\<not> name_set_key k" "\<not> value_set_key k"
    "\<forall>child \<in> set (member_values k v). is_object child" "child' \<in> set (member_values k w)"
  shows "\<exists>child \<in> set (member_values k v). canonicalSchema child = Inr child'"
proof -
  obtain ms where ms: "jget k w = Some (JObj ms)" "child' \<in> snd ` set ms"
    using assms(6) by (auto simp: member_values_def dest: sym split: option.splits json.splits)
  obtain c where c: "jget k v = Some c" "canonicalSchema c = Inr (JObj ms)"
    using jget_canonical [OF assms(1,2) ms(1)] member_canonical_plain assms(3,4) by blast
  then obtain kvs where kvs: "c = JObj kvs" using canonicalSchema_is_object [OF c(2)] by (auto simp: is_object_conv)
  with c have rel: "list_all2 (\<lambda>p q. fst q = fst p \<and> member_canonical (fst p) (snd p) (snd q)) kvs ms"
    using canonicalSchema_object [of kvs] by auto
  obtain q where q: "q \<in> set ms" "snd q = child'" using ms(2) by auto
  obtain p where p: "p \<in> set kvs" "member_canonical (fst p) (snd p) child'"
    using list_all2_right [OF rel q(1)] q(2) by auto
  have mem: "snd p \<in> set (member_values k v)" using c(1) kvs p(1) by (simp add: member_values_def)
  with assms(5) have "\<not> is_array (snd p)" by (cases "snd p") auto
  with p(2) have "canonicalSchema (snd p) = Inr child'" by (intro member_canonical_plain) auto
  with mem show ?thesis by blast
qed

lemma set_keys [simp]:
  "\<not> name_set_key ''oneOf''" "\<not> name_set_key ''anyOf''" "\<not> name_set_key ''allOf''" "\<not> name_set_key ''enum''"
  "\<not> name_set_key ''properties''" "\<not> name_set_key ''items''" "\<not> name_set_key ''prefixItems''"
  "\<not> name_set_key ''additionalProperties''" "\<not> name_set_key ''not''" "name_set_key ''type''" "name_set_key ''required''"
  "\<not> value_set_key ''properties''" "\<not> value_set_key ''items''" "\<not> value_set_key ''prefixItems''"
  "\<not> value_set_key ''additionalProperties''" "\<not> value_set_key ''not''"
  "value_set_key ''oneOf''" "value_set_key ''anyOf''" "value_set_key ''allOf''" "value_set_key ''enum''"
  by (simp_all add: name_set_key_def value_set_key_def)

lemma canonical_children_image:
  assumes "canonicalSchema v = Inr w" "schema_shaped v" "child' \<in> set (canonical_children w)"
  shows "\<exists>child \<in> set (canonical_children v). canonicalSchema child = Inr child'"
proof -
  have shaped: "is_object v" "\<forall>child \<in> set (canonical_children v). schema_shaped child"
    using assms(2) by (simp_all add: schema_shaped.simps [of v] list_all_iff)
  have objects: "\<forall>child \<in> set (member_values ''properties'' v). is_object child"
    using shaped(2) schema_shaped.simps by (auto simp: canonical_children_def)
  note items = member_items_image [OF assms(1) shaped(1)]
    and item = member_value_image [OF assms(1) shaped(1)]
    and vals = member_values_image [OF assms(1) shaped(1) _ _ objects, simplified]
  have lift: "\<exists>child \<in> set (canonical_children v). canonicalSchema child = Inr child'"
    if "\<exists>child \<in> set cs. canonicalSchema child = Inr child'" "set cs \<subseteq> set (canonical_children v)" for cs
    using that by blast
  have bool: "case child of JBool _ \<Rightarrow> False | _ \<Rightarrow> True"
    if "canonicalSchema child = Inr child'" "case child' of JBool _ \<Rightarrow> False | _ \<Rightarrow> True" for child
    using that by (cases child) auto
  note sub = canonical_children_def
  from assms(3) consider "child' \<in> set (member_items ''oneOf'' w)" | "child' \<in> set (member_items ''anyOf'' w)"
    | "child' \<in> set (member_items ''allOf'' w)" | "child' \<in> set (member_values ''properties'' w)"
    | "child' \<in> set (member_value ''items'' w)" | "child' \<in> set (member_items ''prefixItems'' w)"
    | "child' \<in> set (member_value ''additionalProperties'' w)" "case child' of JBool _ \<Rightarrow> False | _ \<Rightarrow> True"
    | "child' \<in> set (member_value ''not'' w)"
    by (auto simp: canonical_children_def)
  then show ?thesis
  proof cases
    case 1 then show ?thesis by (intro lift [OF items]) (auto simp: sub)
  next
    case 2 then show ?thesis by (intro lift [OF items]) (auto simp: sub)
  next
    case 3 then show ?thesis by (intro lift [OF items]) (auto simp: sub)
  next
    case 4 then show ?thesis by (intro lift [OF vals]) (auto simp: sub)
  next
    case 5 then show ?thesis by (intro lift [OF item]) (auto simp: sub)
  next
    case 6 then show ?thesis by (intro lift [OF items]) (auto simp: sub)
  next
    case 7
    then obtain child where "child \<in> set (member_value ''additionalProperties'' v)" "canonicalSchema child = Inr child'"
      using item [of "''additionalProperties''"] by auto
    with 7 bool [of child] show ?thesis by (intro bexI [of _ child]) (simp_all add: sub)
  next
    case 8 then show ?thesis by (intro lift [OF item]) (auto simp: sub)
  qed
qed

lemma canonicalSchema_sets:
  assumes "canonicalSchema v = Inr w" "is_object v"
  shows "name_set_key k \<Longrightarrow> array_is k (\<lambda>vs. isCanonicalStringSet (items_text vs)) w"
    and "value_set_key k \<Longrightarrow> \<not> name_set_key k \<Longrightarrow> array_is k (isCanonicalBy canonicalJson) w"
  using jget_canonical [OF assms, of k] member_canonical_set
  by (fastforce simp: array_is_def split: option.splits json.splits)+

lemma canonicalSchema_passes:
  "schema_shaped v \<Longrightarrow> canonicalSchema v = Inr w \<Longrightarrow> apiSchemaSetsAreCanonical w"
proof (induction v arbitrary: w rule: schema_shaped.induct)
  case (1 v)
  then have obj: "is_object v" and shaped: "\<forall>child \<in> set (canonical_children v). schema_shaped child"
    and properties: "case jget ''properties'' v of None \<Rightarrow> True | Some p \<Rightarrow> is_object p"
    by (simp_all add: schema_shaped.simps [of v] list_all_iff)
  have "list_all apiSchemaSetsAreCanonical (canonical_children w)"
    using canonical_children_image [OF 1(3,2)] 1(1) shaped by (fastforce simp: list_all_iff)
  moreover have "case jget ''properties'' w of None \<Rightarrow> True | Some p \<Rightarrow> is_object p"
    using properties jget_canonical [OF 1(3) obj, of "''properties''"] member_canonical_plain canonicalSchema_is_object
    by (fastforce split: option.splits)
  moreover have "is_object w" using canonicalSchema_is_object [OF 1(3)] obj by simp
  ultimately show ?case
    using canonicalSchema_sets [OF 1(3) obj] by (simp add: apiSchemaSetsAreCanonical.simps [of w])
qed

section \<open>Properties\<close>

text \<open>
  C17: The comparison never rejects its own schemas: the canonical form it gives a schema passes the
  validator of difference sets, at every depth and for every keyword that holds a set.
\<close>

theorem canonical_schema_accepted:
  assumes "schema_shaped schema" "canonicalSchema schema = Inr projection"
  shows "apiSchemaSetsAreCanonical projection"
  using assms by (rule canonicalSchema_passes)

lemma strings_are_strings: "list_all is_string (map JStr xs)" "items_text (map JStr xs) = xs"
  by (simp_all add: list_all_iff items_text_def comp_def)

lemma canonicalSchema_strings: "traverse canonicalSchema (map JStr xs) = Inr (map JStr xs)"
  by (induction xs) auto

text \<open>A JSON value that is data of an \<open>enum\<close>, with an array under the member \<open>type\<close>.\<close>

definition enum_of_typed :: "json list \<Rightarrow> json" where
  "enum_of_typed vs = JObj [(''enum'', JArr [JObj [(''type'', JArr vs)]])]"

text \<open>
  C32: The data inside an \<open>enum\<close> is treated as a schema. Two enumerations whose values differ in
  the order of an array get the same projection, so the comparison misses the change; a value
  with two numbers under \<open>type\<close> makes it throw a \<open>TypeError\<close>.
\<close>

theorem enum_data_is_rewritten:
  assumes "set xs = set ys" "i \<noteq> j"
  shows "canonicalSchema (enum_of_typed (map JStr xs)) = canonicalSchema (enum_of_typed (map JStr ys)) \<and>
    canonicalSchema (enum_of_typed [JNum i, JNum j]) = Inl (Throws ThrownOther)"
proof -
  have "canonicalSchema (enum_of_typed (map JStr zs)) =
      Inr (enum_of_typed (map JStr (sorted_list_of_set (set zs))))" for zs
    by (simp add: enum_of_typed_def canonicalSchema_strings canonical_member_def canonicalItems_def
        strings_are_strings canonicalStrings_eq uniqueSorted_def keyed_def js_map_def js_sort_def)
  moreover have "canonicalSchema (enum_of_typed [JNum i, JNum j]) = Inl (Throws ThrownOther)"
    using assms(2) by (simp add: enum_of_typed_def canonical_member_def canonicalItems_def js_set_def set_add_def)
  ultimately show ?thesis using assms(1) by simp
qed

section \<open>Witnesses\<close>

definition sample_schema :: json where
  "sample_schema = JObj
     [(''type'', JStr ''object''), (''required'', JArr [JStr ''b'', JStr ''a'', JStr ''b'']),
      (''properties'', JObj [(''a'', JObj [(''enum'', JArr [JStr ''y'', JStr ''x''])]), (''b'', JObj [(''type'', JStr ''string'')])])]"

definition sample_projection :: json where
  "sample_projection = JObj
     [(''type'', JStr ''object''), (''required'', JArr [JStr ''a'', JStr ''b'']),
      (''properties'', JObj [(''a'', JObj [(''enum'', JArr [JStr ''x'', JStr ''y''])]), (''b'', JObj [(''type'', JStr ''string'')])])]"

lemma sample_schema_shaped: "schema_shaped sample_schema"
  by (simp add: sample_schema_def schema_shaped.simps canonical_children_def member_items_def member_value_def member_values_def)

lemma sample_schema_projection: "canonicalSchema sample_schema = Inr sample_projection"
  by code_simp

theorem canonical_schema_accepted_witness:
  "schema_shaped sample_schema \<and> canonicalSchema sample_schema = Inr sample_projection \<and>
   apiSchemaSetsAreCanonical sample_projection"
  using sample_schema_shaped sample_schema_projection
    canonical_schema_accepted [OF sample_schema_shaped sample_schema_projection] by simp

theorem enum_data_is_rewritten_witness:
  "canonicalSchema (enum_of_typed [JStr ''a'', JStr ''b'']) = canonicalSchema (enum_of_typed [JStr ''b'', JStr ''a'']) \<and>
   canonicalSchema (enum_of_typed [JNum 1, JNum 2]) = Inl (Throws ThrownOther)"
  using enum_data_is_rewritten [of "[''a'', ''b'']" "[''b'', ''a'']" "1" "2"] by auto


end
