(* ===== verification/UpdClaims.thy ===== *)
theory UpdClaims
  imports UpdProject
begin

text \<open>
  The comparison of claims in \<open>packages/updates/src/differences.ts\<close>: claims grouped by owner, a
  group split into partitions of equal value and verification, the conditions of a partition
  cancelled and paired, and the drafts that follow. A missing condition is \<open>None\<close>, the code's
  \<open>null\<close>.
\<close>

section \<open>Owners and members\<close>

record claim_owner =
  co_serviceId :: string
  co_endpointId :: "string option"
  co_schemaPointer :: "string option"
  co_predicate :: string

definition claimOwner :: "claim \<Rightarrow> claim_owner" where
  "claimOwner c = \<lparr>co_serviceId = cj_service_id (cl_subject c), co_endpointId = cj_endpoint_id (cl_subject c),
     co_schemaPointer = cj_schema_pointer (cl_subject c), co_predicate = cl_predicate c\<rparr>"

definition claimOwnerKey :: "claim \<Rightarrow> string" where
  "claimOwnerKey c = canonicalJson (JArr
     [JStr (cj_service_id (cl_subject c)), json_or_null (cj_endpoint_id (cl_subject c)),
      json_or_null (cj_schema_pointer (cl_subject c)), JStr (cl_predicate c)])"

definition claimPartitionKey :: "claim \<Rightarrow> string" where
  "claimPartitionKey c = canonicalJson (JObj
     [(''value'', cl_value c), (''verification'', JStr (verification_text (cl_verification c)))])"

record claim_member =
  cm_value :: json
  cm_verification :: verification
  cm_condition :: "json option"

definition claim_member_json :: "claim_member \<Rightarrow> json" where
  "claim_member_json m = JObj
     ([(''value'', cm_value m), (''verification'', JStr (verification_text (cm_verification m)))] @
      opt_member ''condition'' (cm_condition m))"

definition claimMemberProjection :: "json \<Rightarrow> verification \<Rightarrow> json option \<Rightarrow> claim_member" where
  "claimMemberProjection v k claimCondition =
     \<lparr>cm_value = canonicalJsonValue v, cm_verification = k, cm_condition = map_option canonicalCondition claimCondition\<rparr>"

definition canonicalClaimMembers :: "claim_member list \<Rightarrow> claim_member list" where
  "canonicalClaimMembers members = uniqueSorted (\<lambda>m. canonicalJson (claim_member_json m)) members"

definition projectClaimGroup :: "claim list \<Rightarrow> claim_member list" where
  "projectClaimGroup claims = canonicalClaimMembers
     (map (\<lambda>c. claimMemberProjection (cl_value c) (cl_verification c) (cl_condition c)) claims)"

definition members_json :: "claim_member list \<Rightarrow> json" where
  "members_json members = JArr (map claim_member_json members)"

text \<open>\<open>ClaimConditionAssignment\<close>: a member whose condition is present.\<close>

definition canonicalAssignments :: "claim_member list \<Rightarrow> claim_member list" where
  "canonicalAssignments assignments = uniqueSorted (\<lambda>m. canonicalJson (claim_member_json m)) assignments"

section \<open>Partitions\<close>

record claim_partition =
  pa_value :: json
  pa_verification :: verification
  pa_members :: "json option list"

definition conditionAssignment :: "claim_partition \<Rightarrow> json \<Rightarrow> claim_member" where
  "conditionAssignment p claimCondition =
     \<lparr>cm_value = canonicalJsonValue (pa_value p), cm_verification = pa_verification p,
      cm_condition = Some (canonicalCondition claimCondition)\<rparr>"

definition condition_key :: "json option \<Rightarrow> string" where
  "condition_key c = canonicalJson (opt_json c)"

definition add_to_partition :: "(string, claim_partition) jmap \<Rightarrow> claim \<Rightarrow> (string, claim_partition) jmap" where
  "add_to_partition partitions c =
     (let key = claimPartitionKey c;
          p = map_get_or \<lparr>pa_value = canonicalJsonValue (cl_value c), pa_verification = cl_verification c, pa_members = []\<rparr>
                partitions key in
      map_set key (p\<lparr>pa_members := pa_members p @ [map_option canonicalCondition (cl_condition c)]\<rparr>) partitions)"

definition sort_partition :: "claim_partition \<Rightarrow> claim_partition" where
  "sort_partition p = p\<lparr>pa_members := js_sort (\<lambda>a b. compareUtf8 (condition_key a) (condition_key b)) (pa_members p)\<rparr>"

definition buildClaimPartitions :: "claim list \<Rightarrow> (string, claim_partition) jmap" where
  "buildClaimPartitions claims = map (\<lambda>(key, p). (key, sort_partition p)) (foldl add_to_partition [] claims)"

fun cancelEqualConditions :: "json option list \<Rightarrow> json option list \<Rightarrow> json option list \<times> json option list" where
  "cancelEqualConditions (b # before) (a # after) =
     (let compared = compareUtf8 (condition_key b) (condition_key a) in
      if compared = 0 then cancelEqualConditions before after
      else if compared < 0 then apfst ((#) b) (cancelEqualConditions before (a # after))
      else apsnd ((#) a) (cancelEqualConditions (b # before) after))"
| "cancelEqualConditions before after = (before, after)"

section \<open>Changes of one owner\<close>

text \<open>The six lists the loop over the partitions fills.\<close>

record claim_changes =
  cc_added :: "claim_member list"
  cc_removed :: "claim_member list"
  cc_changedBefore :: "claim_member list"
  cc_changedAfter :: "claim_member list"
  cc_remainingBefore :: "claim_member list"
  cc_remainingAfter :: "claim_member list"

definition no_changes :: claim_changes where
  "no_changes = \<lparr>cc_added = [], cc_removed = [], cc_changedBefore = [], cc_changedAfter = [],
     cc_remainingBefore = [], cc_remainingAfter = []\<rparr>"

definition conditions_of :: "json option list \<Rightarrow> json list" where
  "conditions_of ms = concat_map (\<lambda>m. case m of None \<Rightarrow> [] | Some c \<Rightarrow> [c]) ms"

definition nulls_of :: "json option list \<Rightarrow> nat" where
  "nulls_of ms = length (filter (\<lambda>m. m = None) ms)"

text \<open>
  One partition: a condition against a missing one is added or removed, two conditions are a
  change, what is left over stays.
\<close>

definition pair_conditions :: "claim_partition \<Rightarrow> json option list \<Rightarrow> json option list \<Rightarrow> claim_changes \<Rightarrow> claim_changes" where
  "pair_conditions p before after ch =
     (let baseNulls = nulls_of before; baseConditions = conditions_of before;
          targetNulls = nulls_of after; targetConditions = conditions_of after;
          addedCount = min baseNulls (length targetConditions);
          added = map (conditionAssignment p) (take addedCount targetConditions);
          baseNulls = baseNulls - addedCount; targetConditions = drop addedCount targetConditions;
          removedCount = min (length baseConditions) targetNulls;
          removed = map (conditionAssignment p) (take removedCount baseConditions);
          baseConditions = drop removedCount baseConditions; targetNulls = targetNulls - removedCount;
          changedCount = min (length baseConditions) (length targetConditions);
          changedBefore = map (conditionAssignment p) (take changedCount baseConditions);
          changedAfter = map (conditionAssignment p) (take changedCount targetConditions);
          baseConditions = drop changedCount baseConditions; targetConditions = drop changedCount targetConditions;
          member = claimMemberProjection (pa_value p) (pa_verification p) in
      ch\<lparr>cc_added := cc_added ch @ added, cc_removed := cc_removed ch @ removed,
         cc_changedBefore := cc_changedBefore ch @ changedBefore, cc_changedAfter := cc_changedAfter ch @ changedAfter,
         cc_remainingBefore := cc_remainingBefore ch @ replicate baseNulls (member None) @ map (\<lambda>c. member (Some c)) baseConditions,
         cc_remainingAfter := cc_remainingAfter ch @ replicate targetNulls (member None) @ map (\<lambda>c. member (Some c)) targetConditions\<rparr>)"

definition partition_changes ::
  "(string, claim_partition) jmap \<Rightarrow> (string, claim_partition) jmap \<Rightarrow> claim_changes \<Rightarrow> string \<Rightarrow> claim_changes" where
  "partition_changes base target ch key =
     (let members = (\<lambda>ps. case map_get ps key of None \<Rightarrow> [] | Some p \<Rightarrow> pa_members p);
          (before, after) = cancelEqualConditions (members base) (members target) in
      case (map_get base key, map_get target key) of
        (Some p, _) \<Rightarrow> pair_conditions p before after ch
      | (None, Some p) \<Rightarrow> pair_conditions p before after ch
      | (None, None) \<Rightarrow> ch)"

definition claimChanges :: "claim list \<Rightarrow> claim list \<Rightarrow> claim_changes" where
  "claimChanges oldClaims newClaims =
     (let base = buildClaimPartitions oldClaims; target = buildClaimPartitions newClaims in
      foldl (partition_changes base target) no_changes (canonicalStrings (map_keys base @ map_keys target)))"

section \<open>Subjects and compatibility\<close>

definition owner_subject :: "claim_owner \<Rightarrow> fact_kind \<Rightarrow> json list \<Rightarrow> difference_subject" where
  "owner_subject owner kind tag = \<lparr>ds_service_id = co_serviceId owner, ds_endpoint_id = co_endpointId owner,
     ds_component_id = None, ds_affected_endpoint_ids = None, ds_fact_kind = Some kind,
     ds_fact_key = Some (canonicalJson (JArr (tag @
       [json_or_null (co_endpointId owner), json_or_null (co_schemaPointer owner), JStr (co_predicate owner)])))\<rparr>"

definition claimSubject :: "claim_owner \<Rightarrow> difference_subject" where
  "claimSubject owner = owner_subject owner FkClaim [JStr ''claim'']"

definition conditionSubject :: "claim_owner \<Rightarrow> difference_subject" where
  "conditionSubject owner = owner_subject owner FkConditionGroup [JStr ''condition_group'', JStr ''claim'']"

definition optional_count :: "claim_member list \<Rightarrow> nat" where
  "optional_count members = length (filter (\<lambda>m. cm_value m = JStr ''optional'') members)"

definition restrictive_value :: "json \<Rightarrow> bool" where
  "restrictive_value v = (v = JStr ''required'' \<or> v = JStr ''conditional'')"

definition restrictive_count :: "claim_member list \<Rightarrow> nat" where
  "restrictive_count members = length (filter (\<lambda>m. restrictive_value (cm_value m)) members)"

definition changedClaimCompatibility :: "claim_owner \<Rightarrow> claim_member list \<Rightarrow> claim_member list \<Rightarrow> compatibility_label" where
  "changedClaimCompatibility owner before after =
     (if co_predicate owner \<noteq> ''request.field.presence'' then UnknownCompatibility
      else if optional_count after < optional_count before \<and> restrictive_count before < restrictive_count after
      then PotentiallyBreaking
      else (case (before, after) of
        ([old], [new]) \<Rightarrow>
          (if cm_verification old \<noteq> cm_verification new \<or> condition_key (cm_condition old) \<noteq> condition_key (cm_condition new) \<or>
              \<not> is_string (cm_value old) \<or> \<not> is_string (cm_value new) then UnknownCompatibility
           else if cm_value old = JStr ''optional'' \<and> restrictive_value (cm_value new) then PotentiallyBreaking
           else if restrictive_value (cm_value old) \<and> cm_value new = JStr ''optional'' then NonBreaking
           else UnknownCompatibility)
      | _ \<Rightarrow> UnknownCompatibility))"

section \<open>Drafts\<close>

definition draft :: "difference_kind \<Rightarrow> compatibility_label \<Rightarrow> difference_subject \<Rightarrow> json option \<Rightarrow> json option \<Rightarrow> difference_draft" where
  "draft kind label s before after =
     \<lparr>dd_kind = kind, dd_compatibility = label, dd_subject = s, dd_before = before, dd_after = after\<rparr>"

definition draft_when :: "bool \<Rightarrow> difference_draft \<Rightarrow> difference_draft list" where
  "draft_when b d = (if b then [d] else [])"

text \<open>What becomes of a fact the target no longer has.\<close>

definition gone_kind :: "bool \<Rightarrow> difference_kind \<Rightarrow> difference_kind" where
  "gone_kind targetIncomplete kind = (if targetIncomplete then DkFactAbsenceUnconfirmed else kind)"

definition conditionDrafts :: "claim_owner \<Rightarrow> claim_changes \<Rightarrow> difference_draft list" where
  "conditionDrafts owner ch =
     (let groupedAdded = canonicalAssignments (cc_added ch); groupedRemoved = canonicalAssignments (cc_removed ch);
          groupedChangedBefore = canonicalAssignments (cc_changedBefore ch);
          groupedChangedAfter = canonicalAssignments (cc_changedAfter ch); groupedSubject = conditionSubject owner in
      draft_when (groupedAdded \<noteq> [])
        (draft DkConditionAdded PotentiallyBreaking groupedSubject (Some (JArr [])) (Some (members_json groupedAdded))) @
      draft_when (groupedRemoved \<noteq> [])
        (draft DkConditionRemoved UnknownCompatibility groupedSubject (Some (members_json groupedRemoved)) (Some (JArr []))) @
      draft_when (groupedChangedBefore \<noteq> [])
        (draft DkConditionChanged PotentiallyBreaking groupedSubject
          (Some (members_json groupedChangedBefore)) (Some (members_json groupedChangedAfter))))"

definition remainingDrafts :: "bool \<Rightarrow> claim_owner \<Rightarrow> claim_changes \<Rightarrow> difference_draft list" where
  "remainingDrafts targetIncomplete owner ch =
     (let oldProjection = canonicalClaimMembers (cc_remainingBefore ch);
          newProjection = canonicalClaimMembers (cc_remainingAfter ch); s = claimSubject owner in
      if oldProjection = [] \<and> newProjection \<noteq> []
      then [draft DkClaimAdded UnknownCompatibility s None (Some (members_json newProjection))]
      else if oldProjection \<noteq> [] \<and> newProjection = []
      then [draft (gone_kind targetIncomplete DkClaimRemoved) UnknownCompatibility s (Some (members_json oldProjection)) None]
      else if oldProjection \<noteq> [] \<and> newProjection \<noteq> []
      then [draft DkClaimChanged (changedClaimCompatibility owner (cc_remainingBefore ch) (cc_remainingAfter ch)) s
              (Some (members_json oldProjection)) (Some (members_json newProjection))]
      else [])"

definition ownerDrafts :: "bool \<Rightarrow> claim list \<Rightarrow> claim list \<Rightarrow> difference_draft list" where
  "ownerDrafts targetIncomplete oldClaims newClaims =
     (case oldClaims @ newClaims of
        [] \<Rightarrow> []
      | sample # _ \<Rightarrow>
          (let owner = claimOwner sample; s = claimSubject owner; json = (\<lambda>cs. Some (members_json (projectClaimGroup cs))) in
           if oldClaims = [] then [draft DkClaimAdded UnknownCompatibility s None (json newClaims)]
           else if newClaims = []
           then [draft (gone_kind targetIncomplete DkClaimRemoved) UnknownCompatibility s (json oldClaims) None]
           else (let ch = claimChanges oldClaims newClaims in
                 conditionDrafts owner ch @ remainingDrafts targetIncomplete owner ch)))"

section \<open>All owners\<close>

definition routeIdentityKey :: "endpoint \<Rightarrow> string" where
  "routeIdentityKey e = canonicalJson (JObj
     [(''route_key'', JStr (ei_route_key (ep_identity e))), (''service_id'', JStr (ei_service_id (ep_identity e))),
      (''method'', JStr (ei_method (ep_identity e))),
      (''normalized_path_shape'', JStr (ei_normalized_path_shape (ep_identity e))),
      (''selectors'', selectors_json (ei_selectors (ep_identity e)))])"

definition discontinuousEndpointIds :: "contract_snapshot \<Rightarrow> contract_snapshot \<Rightarrow> string list" where
  "discontinuousEndpointIds base target =
     (let targetEndpoints = keyed ep_endpoint_id (cs_endpoints target) in
      map fst (filter (\<lambda>(endpointId, baseEndpoint). case map_get targetEndpoints endpointId of
          None \<Rightarrow> False
        | Some targetEndpoint \<Rightarrow> routeIdentityKey baseEndpoint \<noteq> routeIdentityKey targetEndpoint)
        (keyed ep_endpoint_id (cs_endpoints base))))"

definition claim_group_key :: "string list \<Rightarrow> string \<Rightarrow> claim \<Rightarrow> string" where
  "claim_group_key discontinuous side c =
     (case cj_endpoint_id (cl_subject c) of
        Some endpointId \<Rightarrow>
          (if endpointId \<in> set discontinuous then canonicalJson (JArr [JStr (claimOwnerKey c), JStr side]) else claimOwnerKey c)
      | None \<Rightarrow> claimOwnerKey c)"

definition groupClaims :: "string list \<Rightarrow> claim list \<Rightarrow> string \<Rightarrow> (string, claim list) jmap" where
  "groupClaims discontinuous claims side =
     foldl (\<lambda>groups c. let key = claim_group_key discontinuous side c in
       map_set key (map_get_or [] groups key @ [c]) groups) [] claims"

definition addClaimDrafts :: "contract_snapshot \<Rightarrow> contract_snapshot \<Rightarrow> difference_draft list" where
  "addClaimDrafts base target =
     (let discontinuous = discontinuousEndpointIds base target;
          baseGroups = groupClaims discontinuous (cs_claims base) ''base'';
          targetGroups = groupClaims discontinuous (cs_claims target) ''target'' in
      concat_map (\<lambda>ownerKey. ownerDrafts (coverage_incomplete (cs_coverage target))
          (map_get_or [] baseGroups ownerKey) (map_get_or [] targetGroups ownerKey))
        (canonicalStrings (map_keys baseGroups @ map_keys targetGroups)))"

section \<open>Cancelling equal conditions\<close>

lemma cancel_multisets:
  assumes "sorted (map condition_key before)" "sorted (map condition_key after)"
  shows "mset (map condition_key (fst (cancelEqualConditions before after))) =
           mset (map condition_key before) - mset (map condition_key after) \<and>
         mset (map condition_key (snd (cancelEqualConditions before after))) =
           mset (map condition_key after) - mset (map condition_key before)"
  using assms
proof (induction before after rule: cancelEqualConditions.induct)
  case (1 b before a after)
  let ?B = "mset (map condition_key before)" and ?A = "mset (map condition_key after)"
  consider "condition_key b = condition_key a" | "condition_key b < condition_key a" | "condition_key a < condition_key b"
    by (rule linorder_cases)
  then show ?case
  proof cases
    case 1
    with "1.IH"(1) "1.prems" show ?thesis by simp
  next
    case 2
    then have "condition_key b \<notin># mset (map condition_key (a # after))" using "1.prems"(2) by auto
    then have "add_mset (condition_key b) ?B - mset (map condition_key (a # after)) =
        add_mset (condition_key b) (?B - mset (map condition_key (a # after)))"
      "mset (map condition_key (a # after)) - add_mset (condition_key b) ?B = mset (map condition_key (a # after)) - ?B"
      by (simp_all add: add_mset_diff_bothsides diff_add_mset_swap minus_add_mset_if_not_in_lhs)
    moreover from 2 have "condition_key b \<noteq> condition_key a" by simp
    ultimately show ?thesis using 2 "1.IH"(2) "1.prems" by simp
  next
    case 3
    then have "condition_key a \<notin># mset (map condition_key (b # before))" using "1.prems"(1) by auto
    then have "add_mset (condition_key a) ?A - mset (map condition_key (b # before)) =
        add_mset (condition_key a) (?A - mset (map condition_key (b # before)))"
      "mset (map condition_key (b # before)) - add_mset (condition_key a) ?A = mset (map condition_key (b # before)) - ?A"
      by (simp_all add: diff_add_mset_swap minus_add_mset_if_not_in_lhs)
    moreover from 3 have "condition_key b \<noteq> condition_key a" "\<not> condition_key b < condition_key a" by simp_all
    ultimately show ?thesis using "1.IH"(3) "1.prems" by simp
  qed
qed auto

lemma cancel_empty_iff:
  assumes "sorted (map condition_key before)" "sorted (map condition_key after)"
  shows "cancelEqualConditions before after = ([], []) \<longleftrightarrow>
    mset (map condition_key before) = mset (map condition_key after)"
proof -
  let ?b = "fst (cancelEqualConditions before after)" and ?a = "snd (cancelEqualConditions before after)"
  have "cancelEqualConditions before after = ([], []) \<longleftrightarrow>
      mset (map condition_key ?b) = {#} \<and> mset (map condition_key ?a) = {#}"
    by (simp add: prod_eq_iff)
  also have "\<dots> \<longleftrightarrow> mset (map condition_key before) = mset (map condition_key after)"
    using cancel_multisets [OF assms]
    by (simp only: Diff_eq_empty_iff_mset) (auto intro: subset_mset.antisym)
  finally show ?thesis .
qed

section \<open>Quiet changes\<close>

text \<open>No list of changes has an element; the two lists of changed conditions have one length.\<close>

definition quiet :: "claim_changes \<Rightarrow> bool" where
  "quiet ch = (cc_added ch = [] \<and> cc_removed ch = [] \<and> cc_changedBefore ch = [] \<and>
     cc_remainingBefore ch = [] \<and> cc_remainingAfter ch = [])"

lemma quiet_no_changes [simp]: "quiet no_changes"
  by (simp add: quiet_def no_changes_def)

lemma nulls_and_conditions: "nulls_of ms + length (conditions_of ms) = length ms"
  by (induction ms) (auto simp: nulls_of_def conditions_of_def split: option.splits)

lemma quiet_pair_conditions: "quiet (pair_conditions p before after ch) \<longleftrightarrow> quiet ch \<and> before = [] \<and> after = []"
proof -
  have "before = [] \<longleftrightarrow> nulls_of before = 0 \<and> length (conditions_of before) = 0"
    "after = [] \<longleftrightarrow> nulls_of after = 0 \<and> length (conditions_of after) = 0"
    using nulls_and_conditions [of before] nulls_and_conditions [of after] by (metis add_is_0 length_0_conv)+
  then show ?thesis by (auto simp: quiet_def pair_conditions_def Let_def min_def split: if_splits)
qed

lemma quiet_drafts: "conditionDrafts owner ch @ remainingDrafts targetIncomplete owner ch = [] \<longleftrightarrow> quiet ch"
  by (auto simp: conditionDrafts_def remainingDrafts_def draft_when_def quiet_def Let_def
      canonicalAssignments_def canonicalClaimMembers_def)

section \<open>Partitions hold the conditions of their claims\<close>

abbreviation claim_condition :: "claim \<Rightarrow> json option" where
  "claim_condition c \<equiv> map_option canonicalCondition (cl_condition c)"

abbreviation partition_members :: "(string, claim_partition) jmap \<Rightarrow> string \<Rightarrow> json option list" where
  "partition_members ps k \<equiv> (case map_get ps k of None \<Rightarrow> [] | Some p \<Rightarrow> pa_members p)"

lemma partition_members_fold:
  "partition_members (foldl add_to_partition [] cs) k = map claim_condition (filter (\<lambda>c. claimPartitionKey c = k) cs)"
proof -
  let ?init = "\<lambda>c. \<lparr>pa_value = canonicalJsonValue (cl_value c), pa_verification = cl_verification c, pa_members = []\<rparr>"
  let ?g = "\<lambda>v c. (case v of None \<Rightarrow> ?init c | Some p \<Rightarrow> p)\<lparr>pa_members :=
      pa_members (case v of None \<Rightarrow> ?init c | Some p \<Rightarrow> p) @ [claim_condition c]\<rparr>"
  have step: "add_to_partition m c = map_set (claimPartitionKey c) (?g (map_get m (claimPartitionKey c)) c) m" for m c
    by (simp add: add_to_partition_def map_get_or_def Let_def)
  have "(case foldl (\<lambda>v c. Some (?g v c)) v xs of None \<Rightarrow> [] | Some p \<Rightarrow> pa_members p) =
      (case v of None \<Rightarrow> [] | Some p \<Rightarrow> pa_members p) @ map claim_condition xs" for v xs
    by (induction xs arbitrary: v) (auto split: option.splits)
  then show ?thesis by (simp add: foldl_map_set_get [OF step])
qed

lemma built_members:
  "partition_members (buildClaimPartitions cs) k =
   sort_key condition_key (map claim_condition (filter (\<lambda>c. claimPartitionKey c = k) cs))"
proof -
  have "partition_members (buildClaimPartitions cs) k =
      sort_key condition_key (partition_members (foldl add_to_partition [] cs) k)"
    unfolding buildClaimPartitions_def map_of_map
    by (cases "map_get (foldl add_to_partition [] cs) k") (simp_all add: sort_partition_def js_sort_by_compareUtf8)
  then show ?thesis by (simp only: partition_members_fold)
qed

lemma built_keys: "fst ` set (buildClaimPartitions cs) = claimPartitionKey ` set cs"
proof -
  have "fst ` set (foldl add_to_partition [] cs) = claimPartitionKey ` set cs" for cs
    by (induction cs rule: rev_induct) (auto simp: add_to_partition_def Let_def)
  then show ?thesis by (simp add: buildClaimPartitions_def image_image case_prod_unfold)
qed

text \<open>What the comparison sees of a claim: its partition and its canonical condition.\<close>

definition claim_text :: "claim \<Rightarrow> string \<times> string" where
  "claim_text c = (claimPartitionKey c, condition_key (claim_condition c))"

lemma mset_pairs_eq_iff:
  "A = B \<longleftrightarrow> (\<forall>k. image_mset snd (filter_mset (\<lambda>p. fst p = k) A) = image_mset snd (filter_mset (\<lambda>p. fst p = k) B))"
proof (intro iffI multiset_eqI)
  have pairs: "filter_mset (\<lambda>p. fst p = k) M = image_mset (Pair k) (image_mset snd (filter_mset (\<lambda>p. fst p = k) M))"
    for k :: 'a and M :: "('a \<times> 'b) multiset"
    by (induction M) auto
  fix p :: "'a \<times> 'b"
  assume "\<forall>k. image_mset snd (filter_mset (\<lambda>p. fst p = k) A) = image_mset snd (filter_mset (\<lambda>p. fst p = k) B)"
  then have "filter_mset (\<lambda>q. fst q = fst p) A = filter_mset (\<lambda>q. fst q = fst p) B" by (metis pairs)
  then show "count A p = count B p" by (metis (mono_tags, lifting) count_filter_mset)
qed auto

lemma quiet_partition_changes:
  "quiet (partition_changes base target ch k) \<longleftrightarrow>
   quiet ch \<and> cancelEqualConditions (partition_members base k) (partition_members target k) = ([], [])"
  by (auto simp: partition_changes_def Let_def quiet_pair_conditions split: prod.split option.split)

lemma quiet_foldl:
  "quiet (foldl (partition_changes base target) ch ks) \<longleftrightarrow>
   quiet ch \<and> (\<forall>k \<in> set ks. cancelEqualConditions (partition_members base k) (partition_members target k) = ([], []))"
  by (induction ks arbitrary: ch) (auto simp: quiet_partition_changes)

lemma quiet_claimChanges:
  "quiet (claimChanges oldClaims newClaims) \<longleftrightarrow> mset (map claim_text oldClaims) = mset (map claim_text newClaims)"
proof -
  let ?m = "\<lambda>cs k. mset (map condition_key (map claim_condition (filter (\<lambda>c. claimPartitionKey c = k) cs)))"
  have texts: "?m cs k = image_mset snd (filter_mset (\<lambda>p. fst p = k) (mset (map claim_text cs)))" for cs k
    by (induction cs) (auto simp: claim_text_def)
  have "quiet (claimChanges oldClaims newClaims) \<longleftrightarrow>
      (\<forall>k \<in> claimPartitionKey ` (set oldClaims \<union> set newClaims). ?m oldClaims k = ?m newClaims k)"
    by (simp add: claimChanges_def Let_def quiet_foldl built_members cancel_empty_iff built_keys image_Un
        multiset.map_comp)
  also have "\<dots> \<longleftrightarrow> (\<forall>k. ?m oldClaims k = ?m newClaims k)"
  proof -
    have "?m oldClaims k = ?m newClaims k" if "k \<notin> claimPartitionKey ` (set oldClaims \<union> set newClaims)" for k
      using that by (subst filter_False, force)+ simp
    then show ?thesis by blast
  qed
  also have "\<dots> \<longleftrightarrow> mset (map claim_text oldClaims) = mset (map claim_text newClaims)"
    by (subst mset_pairs_eq_iff) (simp only: texts)
  finally show ?thesis .
qed

lemma ownerDrafts_Nil_iff:
  "ownerDrafts targetIncomplete oldClaims newClaims = [] \<longleftrightarrow>
   mset (map claim_text oldClaims) = mset (map claim_text newClaims)"
  by (cases "oldClaims @ newClaims")
     (auto simp: ownerDrafts_def Let_def quiet_drafts quiet_claimChanges simp del: append_is_Nil_conv mset_map)

section \<open>All claims\<close>

lemma groupClaims_get: "map_get_or [] (groupClaims d cs side) k = filter (\<lambda>c. claim_group_key d side c = k) cs"
proof -
  let ?g = "\<lambda>v c. (case v of None \<Rightarrow> [] | Some xs \<Rightarrow> xs) @ [c]"
  have step: "(\<lambda>groups c. let key = claim_group_key d side c in map_set key (map_get_or [] groups key @ [c]) groups) m c =
      map_set (claim_group_key d side c) (?g (map_get m (claim_group_key d side c)) c) m" for m c
    by (simp add: map_get_or_def Let_def)
  have "(case foldl (\<lambda>v c. Some (?g v c)) v xs of None \<Rightarrow> [] | Some ys \<Rightarrow> ys) =
      (case v of None \<Rightarrow> [] | Some ys \<Rightarrow> ys) @ xs" for v and xs :: "claim list"
    by (induction xs arbitrary: v) auto
  moreover have "map_get (groupClaims d cs side) k = foldl (\<lambda>v c. Some (?g v c)) None (filter (\<lambda>c. claim_group_key d side c = k) cs)"
    unfolding groupClaims_def foldl_map_set_get [OF step] by simp
  ultimately show ?thesis by (simp add: map_get_or_def)
qed

lemma groupClaims_keys: "fst ` set (groupClaims d cs side) = claim_group_key d side ` set cs"
  unfolding groupClaims_def by (induction cs rule: rev_induct) (auto simp: Let_def)

text \<open>A claim as the comparison tells it from others: its group, its partition, its condition.\<close>

definition claim_trace :: "string list \<Rightarrow> string \<Rightarrow> claim \<Rightarrow> string \<times> string \<times> string" where
  "claim_trace discontinuous side c = (claim_group_key discontinuous side c, claim_text c)"

lemma addClaimDrafts_Nil_iff:
  "addClaimDrafts base target = [] \<longleftrightarrow>
   mset (map (claim_trace (discontinuousEndpointIds base target) ''base'') (cs_claims base)) =
   mset (map (claim_trace (discontinuousEndpointIds base target) ''target'') (cs_claims target))"
proof -
  let ?d = "discontinuousEndpointIds base target"
  let ?m = "\<lambda>side cs k. mset (map claim_text (filter (\<lambda>c. claim_group_key ?d side c = k) cs))"
  let ?K = "claim_group_key ?d ''base'' ` set (cs_claims base) \<union> claim_group_key ?d ''target'' ` set (cs_claims target)"
  have traces: "?m side cs k = image_mset snd (filter_mset (\<lambda>p. fst p = k) (mset (map (claim_trace ?d side) cs)))" for side cs k
    by (induction cs) (auto simp: claim_trace_def)
  have "addClaimDrafts base target = [] \<longleftrightarrow> (\<forall>k \<in> ?K. ?m ''base'' (cs_claims base) k = ?m ''target'' (cs_claims target) k)"
    by (simp add: addClaimDrafts_def Let_def concat_map_Nil_iff groupClaims_get groupClaims_keys ownerDrafts_Nil_iff del: mset_map)
  also have "\<dots> \<longleftrightarrow> (\<forall>k. ?m ''base'' (cs_claims base) k = ?m ''target'' (cs_claims target) k)"
  proof -
    have "?m ''base'' (cs_claims base) k = ?m ''target'' (cs_claims target) k" if "k \<notin> ?K" for k
      using that by (subst filter_False, force)+ simp
    then show ?thesis by blast
  qed
  also have "\<dots> \<longleftrightarrow> mset (map (claim_trace ?d ''base'') (cs_claims base)) = mset (map (claim_trace ?d ''target'') (cs_claims target))"
    by (subst mset_pairs_eq_iff) (simp only: traces)
  finally show ?thesis .
qed

section \<open>Properties\<close>

text \<open>
  C14: Claims are compared as multisets: the comparison of the claims of two snapshots is silent
  exactly when both hold the same claims, up to their order, the order of object members and the
  canonical form of their conditions, and no claim belongs to an endpoint whose route changed.
\<close>

theorem claims_compared_as_multisets:
  "addClaimDrafts base target = [] \<longleftrightarrow>
   mset (map (claim_trace (discontinuousEndpointIds base target) ''base'') (cs_claims base)) =
   mset (map (claim_trace (discontinuousEndpointIds base target) ''target'') (cs_claims target))"
  by (rule addClaimDrafts_Nil_iff)

text \<open>
  The merge of two sorted lists of conditions computes the two multiset differences: a
  condition is cancelled as often as both sides have it and never more.
\<close>

theorem cancel_is_multiset_difference:
  assumes "sorted (map condition_key before)" "sorted (map condition_key after)"
    "cancelEqualConditions before after = (remainingBefore, remainingAfter)"
  shows "mset (map condition_key remainingBefore) = mset (map condition_key before) - mset (map condition_key after) \<and>
    mset (map condition_key remainingAfter) = mset (map condition_key after) - mset (map condition_key before)"
  using cancel_multisets [OF assms(1,2)] assms(3) by simp

theorem cancel_is_multiset_difference_witness:
  "mset (map condition_key [Some (JNum 1)]) = mset (map condition_key [Some (JNum 1), None]) - mset (map condition_key [Some (JNum 2), None]) \<and>
   mset (map condition_key [Some (JNum 2)]) = mset (map condition_key [Some (JNum 2), None]) - mset (map condition_key [Some (JNum 1), None])"
proof (rule cancel_is_multiset_difference)
  show "sorted (map condition_key [Some (JNum 1), None])" "sorted (map condition_key [Some (JNum 2), None])" by code_simp+
  show "cancelEqualConditions [Some (JNum 1), None] [Some (JNum 2), None] = ([Some (JNum 1)], [Some (JNum 2)])" by code_simp
qed


end
