(* ===== verification/UpdDiff.thy ===== *)
theory UpdDiff
  imports UpdClaims
begin

text \<open>
  The comparison of two contract snapshots, the second half of
  \<open>packages/updates/src/differences.ts\<close>: the checks on the input, the drafts of every part of the
  contract, and the difference set they become. The model starts from snapshots that passed the
  shape validator; the semantic validation is that of \<open>Snapshot\<close>.
\<close>

section \<open>Input\<close>

definition prefixedIssues :: "string \<Rightarrow> validation_issue list \<Rightarrow> validation_issue list" where
  "prefixedIssues prefix issues =
     map (\<lambda>c. issue (prefix @ (if vi_path c = ''/'' then '''' else vi_path c)) (vi_code c) ''nested snapshot is invalid'') issues"

definition incompatible :: "validation_issue list \<Rightarrow> 'a run" where
  "incompatible issues = Inl (Throws (ThrownUpdate (updateValidationError UPDATE_COMPARISON_INCOMPATIBLE issues)))"

definition plainComparisonInput :: "jsval \<Rightarrow> (json \<times> json) run" where
  "plainComparisonInput v =
     (case serializeCanonical () v of
        Inl _ \<Rightarrow> Inl (Throws (ThrownUpdate (updateError UPDATE_COMPARISON_INCOMPATIBLE
          (Some [Candidate (Some ''/'') (Some ''shape.invalid_json_value'')]) None)))
      | Inr text \<Rightarrow> (case JSON_parse text of
          Some (JObj kvs) \<Rightarrow> (case (map_of kvs ''base_snapshot'', map_of kvs ''target_snapshot'') of
              (Some base, Some target) \<Rightarrow>
                (if length kvs = 2 then Inr (base, target)
                 else incompatible [issue ''/'' ''shape.additionalProperties'' ''comparison input has an unsupported shape''])
            | _ \<Rightarrow> incompatible [issue ''/'' ''shape.additionalProperties'' ''comparison input has an unsupported shape''])
        | _ \<Rightarrow> incompatible [issue ''/'' ''shape.type'' ''comparison input must be an object'']))"

text \<open>The third-party verdicts: those on differences, and the shape issues of a snapshot.\<close>

record comparison_validators = difference_validators +
  cv_snapshot_shape :: "contract_snapshot \<Rightarrow> validation_issue list"

definition snapshot_issues :: "platform \<Rightarrow> 'a comparison_validators_scheme \<Rightarrow> contract_snapshot \<Rightarrow> validation_issue list" where
  "snapshot_issues pf cv s =
     (if cv_snapshot_shape cv s \<noteq> [] then cv_snapshot_shape cv s else validateContractSnapshotSemantics pf s)"

text \<open>One endpoint of a snapshot of another identity version: its issue, or the endpoint with today's identity.\<close>

definition future_endpoint :: "platform \<Rightarrow> string \<Rightarrow> string \<Rightarrow> nat \<Rightarrow> endpoint \<Rightarrow> (validation_issue, endpoint) result" where
  "future_endpoint pf prefix declaredVersion index e =
     (let identity = ep_identity e;
          mismatch = issue (at (prefix @ ''/endpoints'') index @ ''/identity'') ''semantic.identity_mismatch'' in
      if ei_identity_version identity \<noteq> declaredVersion
      then Inl (issue (at (prefix @ ''/endpoints'') index @ ''/identity/identity_version'') ''semantic.identity_mismatch''
             ''endpoint identity version differs from snapshot identity version'')
      else (case deriveEndpointIdentity pf
          \<lparr>ii_identity_version = IDENTITY_VERSION, ii_service_id = ei_service_id identity, ii_method = ei_method identity,
           ii_application_path = ep_application_path e, ii_selectors = Some (ei_selectors identity)\<rparr> of
        Inl _ \<Rightarrow> Inl (mismatch ''future endpoint route identity is invalid'')
      | Inr derived \<Rightarrow>
          (if ei_route_key identity \<noteq> declaredVersion @ drop (length IDENTITY_VERSION) (ei_route_key derived) \<or>
              ei_normalized_path_shape identity \<noteq> ei_normalized_path_shape derived \<or>
              canonicalJson (selectors_json (ei_selectors identity)) \<noteq> canonicalJson (selectors_json (ei_selectors derived))
           then Inl (mismatch ''future endpoint route identity is inconsistent'')
           else Inr (e\<lparr>ep_identity := derived\<rparr>))))"

definition validateFutureIdentitySnapshot ::
  "platform \<Rightarrow> 'a comparison_validators_scheme \<Rightarrow> contract_snapshot \<Rightarrow> string \<Rightarrow> contract_snapshot run" where
  "validateFutureIdentitySnapshot pf cv s prefix =
     (let declaredVersion = cs_identity_version s;
          checked = collect_indexed (\<lambda>i e. [future_endpoint pf prefix declaredVersion i e]) (cs_endpoints s);
          identityIssues = concat_map (\<lambda>c. case c of Inl i \<Rightarrow> [i] | Inr _ \<Rightarrow> []) checked;
          normalized = s\<lparr>cs_identity_version := IDENTITY_VERSION,
            cs_endpoints := concat_map (\<lambda>c. case c of Inl _ \<Rightarrow> [] | Inr e \<Rightarrow> [e]) checked\<rparr> in
      if declaredVersion = ''''
      then incompatible [issue (prefix @ ''/identity_version'') ''shape.type'' ''identity version must be nonempty'']
      else if identityIssues \<noteq> [] then incompatible identityIssues
      else if snapshot_issues pf cv normalized \<noteq> [] then incompatible (prefixedIssues prefix (snapshot_issues pf cv normalized))
      else Inr s)"

definition validateSnapshot ::
  "platform \<Rightarrow> 'a comparison_validators_scheme \<Rightarrow> contract_snapshot \<Rightarrow> string \<Rightarrow> contract_snapshot run" where
  "validateSnapshot pf cv s prefix =
     (if cs_identity_version s \<noteq> IDENTITY_VERSION then validateFutureIdentitySnapshot pf cv s prefix
      else if snapshot_issues pf cv s \<noteq> [] then incompatible (prefixedIssues prefix (snapshot_issues pf cv s))
      else Inr s)"

section \<open>Duplicate comparison keys\<close>

text \<open>A loop that reports the indices whose key it has seen and collects the keys.\<close>

fun duplicateKeys :: "string \<Rightarrow> string \<Rightarrow> nat \<Rightarrow> string list \<Rightarrow> string list \<Rightarrow> validation_issue list" where
  "duplicateKeys path message i [] seen = []"
| "duplicateKeys path message i (key # keys) seen =
     (if key \<in> set seen then [issue (at path i) ''semantic.duplicate_comparison_key'' message] else []) @
     duplicateKeys path message (Suc i) keys (set_add key seen)"

fun responseDuplicates ::
  "string \<Rightarrow> nat \<Rightarrow> response list \<Rightarrow> (string, string list) jmap \<Rightarrow> (string, string list) jmap \<Rightarrow> validation_issue list" where
  "responseDuplicates path i [] contentByStatus headersByStatus = []"
| "responseDuplicates path i (r # rs) contentByStatus headersByStatus =
     (let key = statusKey (rp_status r);
          contentKeys = map_get_or [] contentByStatus key; content = map ct_media_type (rp_content r);
          headerKeys = map_get_or [] headersByStatus key; headers = map (\<lambda>h. asciiLower (hd_name h)) (response_headers r) in
      duplicateKeys (at path i @ ''/content'') ''duplicate response content comparison key'' 0 content contentKeys @
      duplicateKeys (at path i @ ''/headers'') ''duplicate response header comparison key'' 0 headers headerKeys @
      responseDuplicates path (Suc i) rs
        (map_set key (set_add_all content contentKeys) contentByStatus)
        (map_set key (set_add_all headers headerKeys) headersByStatus))"

definition diagnosticKey :: "diagnostic \<Rightarrow> string" where
  "diagnosticKey d = canonicalJson (JArr [JStr (dg_code d), strings_json (canonicalStrings (dg_affected_endpoint_ids d))])"

definition endpointDuplicates :: "string \<Rightarrow> endpoint \<Rightarrow> validation_issue list" where
  "endpointDuplicates path e =
     duplicateKeys (path @ ''/parameters'') ''duplicate parameter comparison key'' 0 (map parameterKey (ep_parameters e)) [] @
     duplicateKeys (path @ ''/request_bodies'') ''duplicate request body comparison key'' 0 (map rb_media_type (ep_request_bodies e)) [] @
     responseDuplicates (path @ ''/responses'') 0 (ep_responses e) [] []"

definition duplicateComparisonKeyIssues :: "contract_snapshot \<Rightarrow> string \<Rightarrow> validation_issue list" where
  "duplicateComparisonKeyIssues s prefix =
     collect_indexed (\<lambda>i e. endpointDuplicates (at (prefix @ ''/endpoints'') i) e) (cs_endpoints s) @
     duplicateKeys (prefix @ ''/diagnostics'') ''duplicate diagnostic comparison key'' 0 (map diagnosticKey (cs_diagnostics s)) []"

definition comparisonScopeIssues :: "contract_snapshot \<Rightarrow> contract_snapshot \<Rightarrow> validation_issue list" where
  "comparisonScopeIssues base target =
     (let b = cs_service base; t = cs_service target; path = (\<lambda>member. ''/target_snapshot/service/'' @ member) in
      (if sv_repository_id b \<noteq> sv_repository_id t
       then [issue (path ''repository_id'') ''semantic.scope_mismatch'' ''repository differs''] else []) @
      (if sv_service_id b \<noteq> sv_service_id t
       then [issue (path ''service_id'') ''semantic.scope_mismatch'' ''service differs''] else []) @
      (if sv_root b \<noteq> sv_root t
       then [issue (path ''root'') ''semantic.scope_mismatch'' ''service root differs''] else []))"

section \<open>Path parameter names\<close>

definition index_from :: "char \<Rightarrow> string \<Rightarrow> nat \<Rightarrow> nat option" where
  "index_from c s i = (if c \<in> set (drop i s) then Some (i + index_of (drop i s) c) else None)"

fun name_tail :: "string \<Rightarrow> string" where
  "name_tail [] = []"
| "name_tail (c # cs) = (if name_char c then c # name_tail cs else [])"

text \<open>The match of \<open>/^[A-Za-z_][A-Za-z0-9_]*/\<close>.\<close>

definition leading_name :: "string \<Rightarrow> string option" where
  "leading_name s = (case s of [] \<Rightarrow> None | c # cs \<Rightarrow> (if name_start c then Some (c # name_tail cs) else None))"

text \<open>
  One turn of the loop. A brace that is never closed gives \<open>end = -1\<close>: the name is what lies
  between the brace and the last character, and the index goes back to 0.
\<close>

definition names_step :: "string \<Rightarrow> nat \<Rightarrow> string list \<Rightarrow> nat \<times> string list" where
  "names_step path index names =
     (if path ! index = CHR ''{'' then
        (case index_from CHR ''}'' path (index + 1) of
           Some e \<Rightarrow> (e + 1, names @ [hd (split_char CHR '':'' (drop (index + 1) (take e path)))])
         | None \<Rightarrow> (0, names @ [hd (split_char CHR '':'' (drop (index + 1) (take (length path - 1) path)))]))
      else if path ! index = CHR '':'' then
        (case leading_name (drop (index + 1) path) of
           Some w \<Rightarrow> (index + length w + 1, names @ [w])
         | None \<Rightarrow> (index + 1, names))
      else (index + 1, names))"

partial_function (option) names_loop :: "string \<Rightarrow> nat \<Rightarrow> string list \<Rightarrow> string list option" where
  "names_loop path index names =
     (if index < length path then
        (case names_step path index names of (index', names') \<Rightarrow> names_loop path index' names')
      else Some names)"

definition pathParameterNames :: "string \<Rightarrow> string list run" where
  "pathParameterNames path =
     (case names_loop path 0 [] of None \<Rightarrow> Inl NeverReturns | Some names \<Rightarrow> Inr (canonicalStrings names))"

section \<open>Drafts of an endpoint\<close>

definition endpoint_fact_subject :: "string \<Rightarrow> string \<Rightarrow> fact_kind \<Rightarrow> json list \<Rightarrow> difference_subject" where
  "endpoint_fact_subject serviceId endpointId factKind tail =
     \<lparr>ds_service_id = serviceId, ds_endpoint_id = Some endpointId, ds_component_id = None,
      ds_affected_endpoint_ids = None, ds_fact_kind = Some factKind,
      ds_fact_key = Some (canonicalJson (JArr ([JStr (fact_kind_text factKind), JStr endpointId] @ tail)))\<rparr>"

definition factSubject :: "string \<Rightarrow> string \<Rightarrow> fact_kind \<Rightarrow> json list \<Rightarrow> difference_subject" where
  "factSubject serviceId endpointId factKind tail = endpoint_fact_subject serviceId endpointId factKind tail"

definition endpointSubject :: "string \<Rightarrow> string \<Rightarrow> difference_subject" where
  "endpointSubject serviceId endpointId = endpoint_fact_subject serviceId endpointId FkEndpoint []"

text \<open>How one kind of fact is compared: its kinds, its projection and its compatibility.\<close>

record 'f fact_comparison =
  fc_added :: difference_kind
  fc_removed :: difference_kind
  fc_changed :: difference_kind
  fc_projection :: "'f \<Rightarrow> json run"
  fc_addedCompatibility :: "'f \<Rightarrow> compatibility_label"
  fc_changedCompatibility :: "'f \<Rightarrow> 'f \<Rightarrow> compatibility_label run"

definition gone_label :: "bool \<Rightarrow> compatibility_label" where
  "gone_label targetIncomplete = (if targetIncomplete then UnknownCompatibility else PotentiallyBreaking)"

fun fact_drafts :: "'f fact_comparison \<Rightarrow> bool \<Rightarrow> difference_subject \<Rightarrow> 'f option \<Rightarrow> 'f option \<Rightarrow> difference_draft list run" where
  "fact_drafts fc targetIncomplete s None (Some new) =
     and_then (fc_projection fc new) (\<lambda>after.
       Inr [draft (fc_added fc) (fc_addedCompatibility fc new) s None (Some after)])"
| "fact_drafts fc targetIncomplete s (Some old) None =
     and_then (fc_projection fc old) (\<lambda>before.
       Inr [draft (gone_kind targetIncomplete (fc_removed fc)) (gone_label targetIncomplete) s (Some before) None])"
| "fact_drafts fc targetIncomplete s (Some old) (Some new) =
     and_then (fc_projection fc old) (\<lambda>before.
     and_then (fc_projection fc new) (\<lambda>after.
       if canonicalJson before = canonicalJson after then Inr []
       else and_then (fc_changedCompatibility fc old new) (\<lambda>label.
         Inr [draft (fc_changed fc) label s (Some before) (Some after)])))"
| "fact_drafts fc targetIncomplete s None None = Inr []"

text \<open>The keys of both sides in canonical order, the drafts of each.\<close>

definition keyed_drafts ::
  "'f fact_comparison \<Rightarrow> bool \<Rightarrow> (string \<Rightarrow> 'f \<Rightarrow> difference_subject) \<Rightarrow> (string, 'f) jmap \<Rightarrow> (string, 'f) jmap \<Rightarrow> difference_draft list run" where
  "keyed_drafts fc targetIncomplete subj base target =
     and_then (traverse (\<lambda>key.
         (case (map_get base key, map_get target key) of
            (None, None) \<Rightarrow> Inr []
          | (None, Some fct) \<Rightarrow> fact_drafts fc targetIncomplete (subj key fct) None (Some fct)
          | (Some fct, new) \<Rightarrow> fact_drafts fc targetIncomplete (subj key fct) (Some fct) new))
       (canonicalStrings (map_keys base @ map_keys target))) (\<lambda>dss. Inr (concat dss))"

definition parameter_comparison :: "parameter fact_comparison" where
  "parameter_comparison = \<lparr>fc_added = DkParameterAdded, fc_removed = DkParameterRemoved, fc_changed = DkParameterChanged,
     fc_projection = parameterProjection, fc_addedCompatibility = (\<lambda>p. addedMemberCompatibility (parameter_fact p)),
     fc_changedCompatibility = (\<lambda>p q. changedMemberCompatibility (parameter_fact p) (parameter_fact q))\<rparr>"

definition body_comparison :: "request_body fact_comparison" where
  "body_comparison = \<lparr>fc_added = DkRequestBodyAdded, fc_removed = DkRequestBodyRemoved, fc_changed = DkRequestBodyChanged,
     fc_projection = bodyProjection, fc_addedCompatibility = (\<lambda>b. addedMemberCompatibility (body_fact b)),
     fc_changedCompatibility = (\<lambda>b c. changedMemberCompatibility (body_fact b) (body_fact c))\<rparr>"

definition response_comparison :: "response_group fact_comparison" where
  "response_comparison = \<lparr>fc_added = DkResponseAdded, fc_removed = DkResponseRemoved, fc_changed = DkResponseChanged,
     fc_projection = (\<lambda>g. Inr (responseProjection g)), fc_addedCompatibility = (\<lambda>_. PotentiallyBreaking),
     fc_changedCompatibility = (\<lambda>_ _. Inr PotentiallyBreaking)\<rparr>"

definition addEndpointMemberDrafts ::
  "string \<Rightarrow> endpoint \<Rightarrow> endpoint \<Rightarrow> contract_snapshot \<Rightarrow> contract_snapshot \<Rightarrow> bool \<Rightarrow> difference_draft list run" where
  "addEndpointMemberDrafts serviceId before after base target targetIncomplete =
     (let subj = factSubject serviceId (ep_endpoint_id before) in
      and_then (keyed_drafts parameter_comparison targetIncomplete
          (\<lambda>_ p. subj FkParameter [JStr (in_text (pm_in p)), JStr (pm_name p)])
          (keyed parameterKey (ep_parameters before)) (keyed parameterKey (ep_parameters after))) (\<lambda>parameters.
      and_then (keyed_drafts body_comparison targetIncomplete (\<lambda>_ b. subj FkRequestBody [JStr (rb_media_type b)])
          (keyed rb_media_type (ep_request_bodies before)) (keyed rb_media_type (ep_request_bodies after))) (\<lambda>bodies.
      and_then (responseGroups before) (\<lambda>baseResponses.
      and_then (responseGroups after) (\<lambda>targetResponses.
      and_then (keyed_drafts response_comparison targetIncomplete (\<lambda>key _. subj FkResponse [JStr key])
          baseResponses targetResponses) (\<lambda>responses.
      and_then (securityProjection before base) (\<lambda>oldSecurity.
      and_then (securityProjection after target) (\<lambda>newSecurity.
        Inr (parameters @ bodies @ responses @
          draft_when (canonicalJson oldSecurity \<noteq> canonicalJson newSecurity)
            (draft DkSecurityChanged PotentiallyBreaking (subj FkSecurity []) (Some oldSecurity) (Some newSecurity)))))))))))"

text \<open>One endpoint identifier of either snapshot.\<close>

definition endpoint_added :: "string \<Rightarrow> contract_snapshot \<Rightarrow> endpoint \<Rightarrow> difference_draft run" where
  "endpoint_added serviceId target after = and_then (endpointProjection after target) (\<lambda>projection.
     Inr (draft DkEndpointAdded NonBreaking (endpointSubject serviceId (ep_endpoint_id after)) None (Some projection)))"

definition endpoint_gone :: "string \<Rightarrow> contract_snapshot \<Rightarrow> bool \<Rightarrow> endpoint \<Rightarrow> difference_draft run" where
  "endpoint_gone serviceId base targetIncomplete before = and_then (endpointProjection before base) (\<lambda>projection.
     Inr (draft (if targetIncomplete then DkEndpointAbsenceUnconfirmed else DkEndpointRemoved) (gone_label targetIncomplete)
       (endpointSubject serviceId (ep_endpoint_id before)) (Some projection) None))"

definition common_endpoint_drafts ::
  "string \<Rightarrow> contract_snapshot \<Rightarrow> contract_snapshot \<Rightarrow> bool \<Rightarrow> endpoint \<Rightarrow> endpoint \<Rightarrow> difference_draft list run" where
  "common_endpoint_drafts serviceId base target targetIncomplete before after =
     (if routeIdentityKey before \<noteq> routeIdentityKey after then
        and_then (endpoint_added serviceId target after) (\<lambda>added.
        and_then (endpoint_gone serviceId base targetIncomplete before) (\<lambda>gone. Inr [added, gone]))
      else
        and_then (pathParameterNames (ep_application_path before)) (\<lambda>beforeNames.
        and_then (pathParameterNames (ep_application_path after)) (\<lambda>afterNames.
        and_then (addEndpointMemberDrafts serviceId before after base target targetIncomplete) (\<lambda>members.
          Inr (draft_when (canonicalJson (strings_json beforeNames) \<noteq> canonicalJson (strings_json afterNames))
            (draft DkEndpointPathParameterNamesChanged PotentiallyBreaking (endpointSubject serviceId (ep_endpoint_id before))
              (Some (strings_json beforeNames)) (Some (strings_json afterNames))) @ members)))))"

definition endpoint_id_drafts :: "contract_snapshot \<Rightarrow> contract_snapshot \<Rightarrow> string \<Rightarrow> difference_draft list run" where
  "endpoint_id_drafts base target endpointId =
     (let serviceId = sv_service_id (cs_service base);
          targetIncomplete = coverage_incomplete (cs_coverage target) in
      case (map_get (keyed ep_endpoint_id (cs_endpoints base)) endpointId,
            map_get (keyed ep_endpoint_id (cs_endpoints target)) endpointId) of
        (None, Some after) \<Rightarrow> and_then (endpoint_added serviceId target after) (\<lambda>d. Inr [d])
      | (Some before, None) \<Rightarrow> and_then (endpoint_gone serviceId base targetIncomplete before) (\<lambda>d. Inr [d])
      | (Some before, Some after) \<Rightarrow> common_endpoint_drafts serviceId base target targetIncomplete before after
      | (None, None) \<Rightarrow> Inr [])"

definition endpointDrafts :: "contract_snapshot \<Rightarrow> contract_snapshot \<Rightarrow> difference_draft list run" where
  "endpointDrafts base target =
     and_then (traverse (endpoint_id_drafts base target)
       (canonicalStrings (map_keys (keyed ep_endpoint_id (cs_endpoints base)) @ map_keys (keyed ep_endpoint_id (cs_endpoints target)))))
       (\<lambda>dss. Inr (concat dss))"

section \<open>Drafts of schemas, coverage and diagnostics\<close>

definition schemaProjection :: "string \<Rightarrow> schema_component \<Rightarrow> json run" where
  "schemaProjection schemaId c = and_then (canonicalSchema (sm_schema c)) (\<lambda>schema. Inr (JObj
     [(''schema_id'', JStr schemaId), (''schema'', schema)]))"

definition schema_comparison :: "string \<Rightarrow> schema_component fact_comparison" where
  "schema_comparison schemaId = \<lparr>fc_added = DkSchemaAdded, fc_removed = DkSchemaRemoved, fc_changed = DkSchemaChanged,
     fc_projection = schemaProjection schemaId,
     fc_addedCompatibility = (\<lambda>_. NonBreaking), fc_changedCompatibility = (\<lambda>_ _. Inr PotentiallyBreaking)\<rparr>"

definition schema_subject :: "string \<Rightarrow> string list \<Rightarrow> string \<Rightarrow> difference_subject" where
  "schema_subject serviceId affectedEndpointIds schemaId =
     \<lparr>ds_service_id = serviceId, ds_endpoint_id = None, ds_component_id = Some schemaId,
      ds_affected_endpoint_ids = (if affectedEndpointIds = [] then None else Some affectedEndpointIds),
      ds_fact_kind = Some FkSchema, ds_fact_key = Some (canonicalJson (JArr [JStr ''schema'', JStr schemaId]))\<rparr>"

text \<open>
  \<open>base.schemas[schemaId]\<close> may find an inherited member: its projection has an undefined schema,
  which the canonical serializer rejects when it is compared with the other side.
\<close>

definition schema_drafts ::
  "bool \<Rightarrow> string \<Rightarrow> difference_subject \<Rightarrow> schema_component found \<Rightarrow> schema_component found \<Rightarrow> difference_draft list run" where
  "schema_drafts targetIncomplete schemaId s before after =
     (let own = (\<lambda>f. case f of Own c \<Rightarrow> Some c | _ \<Rightarrow> None) in
      if before = Inherited \<or> after = Inherited then
        and_then (traverse (schemaProjection schemaId)
          ((case own before of None \<Rightarrow> [] | Some c \<Rightarrow> [c]) @ (case own after of None \<Rightarrow> [] | Some c \<Rightarrow> [c])))
          (\<lambda>_. Inl input_error)
      else fact_drafts (schema_comparison schemaId) targetIncomplete s (own before) (own after))"

definition schema_id_drafts ::
  "contract_snapshot \<Rightarrow> contract_snapshot \<Rightarrow> ownership_index \<Rightarrow> ownership_index \<Rightarrow> string \<Rightarrow> difference_draft list run" where
  "schema_id_drafts base target baseOwnership targetOwnership schemaId =
     (let affectedEndpointIds = canonicalStrings (map_get_or [] (oi_schemaOwners baseOwnership) schemaId @
            map_get_or [] (oi_schemaOwners targetOwnership) schemaId) in
      schema_drafts (coverage_incomplete (cs_coverage target)) schemaId
        (schema_subject (sv_service_id (cs_service base)) affectedEndpointIds schemaId)
        (object_lookup (cs_schemas base) schemaId) (object_lookup (cs_schemas target) schemaId))"

definition schemaDrafts :: "contract_snapshot \<Rightarrow> contract_snapshot \<Rightarrow> difference_draft list run" where
  "schemaDrafts base target =
     (case (buildEndpointOwnershipIndex base, buildEndpointOwnershipIndex target) of
        (Some baseOwnership, Some targetOwnership) \<Rightarrow>
          and_then (traverse (schema_id_drafts base target baseOwnership targetOwnership)
            (canonicalStrings (map_keys (cs_schemas base) @ map_keys (cs_schemas target)))) (\<lambda>dss. Inr (concat dss))
      | _ \<Rightarrow> Inl (Throws ThrownOther))"

fun coverageProjection :: "coverage \<Rightarrow> json" where
  "coverageProjection (CoverageComplete _ _) = JObj [(''status'', JStr ''complete'')]"
| "coverageProjection (CoverageIncomplete _ _ reason _) = JObj [(''status'', JStr ''incomplete''), (''reason'', JStr reason)]"

definition snapshot_subject :: "string \<Rightarrow> string list \<Rightarrow> fact_kind \<Rightarrow> json list \<Rightarrow> difference_subject" where
  "snapshot_subject serviceId affectedEndpointIds factKind tail =
     \<lparr>ds_service_id = serviceId, ds_endpoint_id = None, ds_component_id = None,
      ds_affected_endpoint_ids = (if affectedEndpointIds = [] then None else Some affectedEndpointIds),
      ds_fact_kind = Some factKind, ds_fact_key = Some (canonicalJson (JArr (JStr (fact_kind_text factKind) # tail)))\<rparr>"

definition coverageDrafts :: "contract_snapshot \<Rightarrow> contract_snapshot \<Rightarrow> difference_draft list" where
  "coverageDrafts base target =
     (let before = coverageProjection (cs_coverage base); after = coverageProjection (cs_coverage target) in
      draft_when (canonicalJson before \<noteq> canonicalJson after)
        (draft DkAnalysisCoverageChanged UnknownCompatibility (snapshot_subject (sv_service_id (cs_service base)) [] FkCoverage [])
          (Some before) (Some after)))"

definition diagnosticProjection :: "diagnostic \<Rightarrow> json" where
  "diagnosticProjection d = JObj
     [(''code'', JStr (dg_code d)), (''severity'', JStr (severity_text (dg_severity d))),
      (''affected_endpoint_ids'', strings_json (canonicalStrings (dg_affected_endpoint_ids d)))]"

definition diagnostic_subject :: "string \<Rightarrow> diagnostic \<Rightarrow> difference_subject" where
  "diagnostic_subject serviceId sample =
     (let affected = canonicalStrings (dg_affected_endpoint_ids sample) in
      snapshot_subject serviceId affected FkDiagnostic [JStr (dg_code sample), strings_json affected])"

fun diagnostic_drafts :: "string \<Rightarrow> diagnostic option \<Rightarrow> diagnostic option \<Rightarrow> difference_draft list" where
  "diagnostic_drafts serviceId before after =
     (let added = (\<lambda>s d. draft DkAnalysisDiagnosticAdded UnknownCompatibility s None (Some (diagnosticProjection d)));
          resolved = (\<lambda>s d. draft DkAnalysisDiagnosticResolved UnknownCompatibility s (Some (diagnosticProjection d)) None) in
      case (before, after) of
        (None, None) \<Rightarrow> []
      | (None, Some new) \<Rightarrow> [added (diagnostic_subject serviceId new) new]
      | (Some old, None) \<Rightarrow> [resolved (diagnostic_subject serviceId old) old]
      | (Some old, Some new) \<Rightarrow>
          (if canonicalJson (diagnosticProjection old) = canonicalJson (diagnosticProjection new) then []
           else [added (diagnostic_subject serviceId old) new, resolved (diagnostic_subject serviceId old) old]))"

definition diagnosticDrafts :: "contract_snapshot \<Rightarrow> contract_snapshot \<Rightarrow> difference_draft list" where
  "diagnosticDrafts base target =
     (let baseDiagnostics = keyed diagnosticKey (cs_diagnostics base);
          targetDiagnostics = keyed diagnosticKey (cs_diagnostics target) in
      concat_map (\<lambda>key. diagnostic_drafts (sv_service_id (cs_service base)) (map_get baseDiagnostics key) (map_get targetDiagnostics key))
        (canonicalStrings (map_keys baseDiagnostics @ map_keys targetDiagnostics)))"

section \<open>The difference set\<close>

definition difference_of :: "platform \<Rightarrow> contract_snapshot \<Rightarrow> contract_snapshot \<Rightarrow> difference_draft \<Rightarrow> contract_difference" where
  "difference_of pf base target d = difference_draft.extend d
     \<lparr>df_difference_id = difference_id_of pf (sv_service_id (cs_service base)) (cs_snapshot_id base) (cs_snapshot_id target) d\<rparr>"

definition sortDifferences :: "contract_difference list \<Rightarrow> contract_difference list" where
  "sortDifferences differences = js_sort compareDifference differences"

definition incompleteReasons :: "contract_snapshot \<Rightarrow> contract_snapshot \<Rightarrow> difference_incomplete_reason list" where
  "incompleteReasons base target =
     (if coverage_incomplete (cs_coverage base) then [BaseCoverageIncomplete] else []) @
     (if coverage_incomplete (cs_coverage target) then [TargetCoverageIncomplete] else []) @
     (if cs_identity_version base \<noteq> cs_identity_version target then [IdentityVersionChanged] else [])"

text \<open>Endpoints and claims are compared only under one identity version.\<close>

definition comparison_drafts :: "contract_snapshot \<Rightarrow> contract_snapshot \<Rightarrow> difference_draft list run" where
  "comparison_drafts base target =
     (let serviceId = sv_service_id (cs_service base); sameIdentity = (cs_identity_version base = cs_identity_version target) in
      and_then (if sameIdentity then endpointDrafts base target
                else Inr [draft DkAnalysisIdentityChanged UnknownCompatibility (snapshot_subject serviceId [] FkIdentity []) None None])
        (\<lambda>endpoints.
      and_then (schemaDrafts base target) (\<lambda>schemas. Inr
        (endpoints @ schemas @ (if sameIdentity then addClaimDrafts base target else []) @
         coverageDrafts base target @ diagnosticDrafts base target))))"

definition incompatibilities :: "contract_snapshot \<Rightarrow> contract_snapshot \<Rightarrow> validation_issue list" where
  "incompatibilities base target =
     comparisonScopeIssues base target @
     duplicateComparisonKeyIssues base ''/base_snapshot'' @ duplicateComparisonKeyIssues target ''/target_snapshot'' @
     (if \<not> immutable_revision (sr_immutable_revision (cs_source base))
      then [issue ''/base_snapshot/source/immutable_revision'' ''shape.pattern'' ''revision cannot be represented''] else []) @
     (if \<not> immutable_revision (sr_immutable_revision (cs_source target))
      then [issue ''/target_snapshot/source/immutable_revision'' ''shape.pattern'' ''revision cannot be represented''] else [])"

definition snapshot_reference_of :: "contract_snapshot \<Rightarrow> snapshot_reference" where
  "snapshot_reference_of s = \<lparr>sn_snapshot_id = cs_snapshot_id s, sn_immutable_revision = sr_immutable_revision (cs_source s)\<rparr>"

definition set_content :: "platform \<Rightarrow> contract_snapshot \<Rightarrow> contract_snapshot \<Rightarrow> difference_draft list \<Rightarrow> difference_set_content" where
  "set_content pf base target drafts =
     \<lparr>dc_contract_difference_version = CONTRACT_DIFFERENCE_VERSION, dc_service_id = sv_service_id (cs_service base),
      dc_base = snapshot_reference_of base, dc_target = snapshot_reference_of target,
      dc_comparison_status = (if incompleteReasons base target = [] then ComparisonComplete else ComparisonIncomplete),
      dc_incomplete_reason_codes = incompleteReasons base target,
      dc_differences = sortDifferences (map (difference_of pf base target) drafts)\<rparr>"

definition with_set_id :: "platform \<Rightarrow> difference_set_content \<Rightarrow> difference_set" where
  "with_set_id pf content = difference_set_content.extend content \<lparr>dc_difference_set_id = difference_set_id_of pf content\<rparr>"

text \<open>\<open>compareContractSnapshots\<close> from the point where the two snapshots have the shape.\<close>

definition compareContractSnapshots ::
  "platform \<Rightarrow> comparison_validators \<Rightarrow> contract_snapshot \<Rightarrow> contract_snapshot \<Rightarrow> difference_set run" where
  "compareContractSnapshots pf cv base_snapshot target_snapshot =
     and_then (validateSnapshot pf cv base_snapshot ''/base_snapshot'') (\<lambda>base.
     and_then (validateSnapshot pf cv target_snapshot ''/target_snapshot'') (\<lambda>target.
     if incompatibilities base target \<noteq> [] then incompatible (incompatibilities base target)
     else and_then (comparison_drafts base target) (\<lambda>drafts.
       (case parseContractDifferenceSet pf (difference_validators.truncate cv) (with_set_id pf (set_content pf base target drafts)) of
          Inl issues \<Rightarrow> incompatible issues
        | Inr dset \<Rightarrow> Inr dset))))"

section \<open>When the scan for parameter names returns\<close>

text \<open>The scan on the rest of the path: no value when a brace is never closed.\<close>

function names_scan :: "string \<Rightarrow> string list option" where
  "names_scan [] = Some []"
| "names_scan (c # s) =
     (if c = CHR ''{'' then
        (if CHR ''}'' \<in> set s
         then map_option ((#) (hd (split_char CHR '':'' (takeWhile (\<lambda>x. x \<noteq> CHR ''}'') s))))
                (names_scan (drop (Suc (index_of s CHR ''}'')) s))
         else None)
      else if c = CHR '':'' then
        (case leading_name s of
           Some w \<Rightarrow> map_option ((#) w) (names_scan (drop (length w) s))
         | None \<Rightarrow> names_scan s)
      else names_scan s)"
  by pat_completeness auto
termination by (relation "measure length") auto

declare names_loop.simps [code]

lemma index_of_take: "x \<in> set xs \<Longrightarrow> take (index_of xs x) xs = takeWhile (\<lambda>y. y \<noteq> x) xs"
  by (simp add: index_of_def takeWhile_eq_take [symmetric])

lemma names_step_suffix:
  assumes "index < length path" "drop index path = c # s"
  shows "names_step path index names =
    (if c = CHR ''{'' then
       (if CHR ''}'' \<in> set s
        then (index + Suc (Suc (index_of s CHR ''}'')), names @ [hd (split_char CHR '':'' (takeWhile (\<lambda>x. x \<noteq> CHR ''}'') s))])
        else (0, names @ [hd (split_char CHR '':'' (drop (index + 1) (take (length path - 1) path)))]))
     else if c = CHR '':'' then
       (case leading_name s of Some w \<Rightarrow> (index + length w + 1, names @ [w]) | None \<Rightarrow> (index + 1, names))
     else (index + 1, names))"
proof -
  have c: "path ! index = c" and s: "drop (index + 1) path = s"
    using assms by (simp_all add: Cons_nth_drop_Suc [symmetric])
  have "drop (index + 1) (take (index + 1 + k) path) = take k s" for k
    using s by (simp add: drop_take)
  then show ?thesis
    using c s by (auto simp: names_step_def index_from_def index_of_take split: option.splits)
qed

lemma names_loop_step:
  "index < length path \<Longrightarrow> names_loop path index names =
     names_loop path (fst (names_step path index names)) (snd (names_step path index names))"
  by (subst names_loop.simps) (simp add: case_prod_unfold)

lemma names_loop_returns:
  assumes "drop index path = rest" "names_scan rest = Some ms"
  shows "names_loop path index names = Some (names @ ms)"
  using assms
proof (induction rest arbitrary: index names ms rule: names_scan.induct)
  case 1
  then show ?case by (subst names_loop.simps) auto
next
  case (2 c s)
  then have lt: "index < length path" by (metis drop_all leI list.distinct(1))
  note step = names_step_suffix [OF lt "2.prems"(1)]
  have s: "drop (index + 1) path = s" using 2(5) lt by (simp add: Cons_nth_drop_Suc [symmetric])
  then have drops: "drop (index + 1 + k) path = drop k s" for k
    using drop_drop [of k "index + 1" path] by (simp add: ac_simps)
  consider "c = CHR ''{''" "CHR ''}'' \<in> set s" | w where "c = CHR '':''" "leading_name s = Some w"
    | "c \<noteq> CHR ''{''" "c = CHR '':'' \<Longrightarrow> leading_name s = None"
    using "2.prems"(2) by (cases "leading_name s") (auto split: if_splits)
  then show ?case
  proof cases
    case 1
    then obtain ms' where ms: "names_scan (drop (Suc (index_of s CHR ''}'')) s) = Some ms'"
      "ms = hd (split_char CHR '':'' (takeWhile (\<lambda>x. x \<noteq> CHR ''}'') s)) # ms'"
      using "2.prems"(2) by auto
    from "2.IH"(1) [OF 1 drops ms(1)] show ?thesis using 1 ms(2) by (simp add: names_loop_step [OF lt] step)
  next
    case (2 w)
    then obtain ms' where ms: "names_scan (drop (length w) s) = Some ms'" "ms = w # ms'"
      using "2.prems"(2) by auto
    have "drop (index + length w + 1) path = drop (length w) s" using drops [of "length w"] by (simp add: ac_simps)
    from "2.IH"(3) [OF _ _ 2(2) this ms(1)] show ?thesis using 2 ms(2) by (simp add: names_loop_step [OF lt] step)
  next
    case 3
    then have "names_scan s = Some ms" using "2.prems"(2) by (auto split: if_splits option.splits)
    with 3 "2.IH"(2) [OF _ _ _ s] "2.IH"(4) [OF _ _ s] show ?thesis
      by (cases "c = CHR '':''") (auto simp: names_loop_step [OF lt] step)
  qed
qed

text \<open>A brace without its partner sends the index back to the start, so the loop never ends.\<close>

lemma names_step_scan:
  assumes "index < length path" "names_scan (drop (fst (names_step path index names)) path) = Some ms" "names_scan path = None"
  shows "\<exists>ms. names_scan (drop index path) = Some ms"
proof -
  obtain c s where cs: "drop index path = c # s" using assms(1) by (metis Cons_nth_drop_Suc)
  note step = names_step_suffix [OF assms(1) cs]
  have s: "drop (index + 1) path = s" using cs assms(1) by (simp add: Cons_nth_drop_Suc [symmetric])
  then have drops: "drop (index + 1 + k) path = drop k s" for k
    using drop_drop [of k "index + 1" path] by (simp add: ac_simps)
  have brace: "drop (Suc (Suc (index + k))) path = drop (Suc k) s" "drop (Suc (index + k)) path = drop k s"
    "drop (Suc index) path = s" for k
    using drops [of "Suc k"] drops [of k] s by simp_all
  show ?thesis
    using assms(2,3) unfolding cs step by (simp only: names_scan.simps) (auto simp: brace split: if_splits option.splits)
qed

lemma names_loop_not_returning:
  "names_loop path index names = Some result \<Longrightarrow> names_scan path = None \<longrightarrow> (\<exists>ms. names_scan (drop index path) = Some ms)"
proof (rule names_loop.raw_induct [where P = "\<lambda>path index names result. names_scan path = None \<longrightarrow> (\<exists>ms. names_scan (drop index path) = Some ms)"])
  fix rec path index names result
  assume ih: "\<And>path index names result. rec path index names = Some result \<Longrightarrow>
      names_scan path = None \<longrightarrow> (\<exists>ms. names_scan (drop index path) = Some ms)"
    and eq: "(if index < length path then case names_step path index names of (index', names') \<Rightarrow> rec path index' names'
              else Some names) = Some result"
  show "names_scan path = None \<longrightarrow> (\<exists>ms. names_scan (drop index path) = Some ms)"
  proof (cases "index < length path")
    case True
    then have "rec path (fst (names_step path index names)) (snd (names_step path index names)) = Some result"
      using eq by (simp add: case_prod_unfold)
    from ih [OF this] names_step_scan [OF True] show ?thesis by blast
  qed simp
qed

lemma pathParameterNames_eq:
  "pathParameterNames path =
   (case names_scan path of None \<Rightarrow> Inl NeverReturns | Some names \<Rightarrow> Inr (canonicalStrings names))"
proof (cases "names_scan path")
  case None
  then have "names_loop path 0 [] = None"
    using names_loop_not_returning [of path 0 "[]"] by (cases "names_loop path 0 []") auto
  with None show ?thesis by (simp add: pathParameterNames_def)
next
  case (Some names)
  then have "names_loop path 0 [] = Some ([] @ names)" by (intro names_loop_returns) simp_all
  with Some show ?thesis by (simp add: pathParameterNames_def)
qed

section \<open>Kinds of drafts\<close>

text \<open>
  A confirmed removal is a statement only a complete target supports, an unconfirmed absence one
  only an incomplete target needs.
\<close>

definition honest_kind :: "bool \<Rightarrow> difference_kind \<Rightarrow> bool" where
  "honest_kind targetIncomplete kind =
     (if targetIncomplete then kind \<notin> set confirmedRemovalKinds else kind \<notin> set absenceKinds)"

definition plain_kind :: "difference_kind \<Rightarrow> bool" where
  "plain_kind kind = (kind \<notin> set confirmedRemovalKinds \<and> kind \<notin> set absenceKinds)"

lemma plain_kinds [simp]:
  "plain_kind DkEndpointAdded" "plain_kind DkEndpointPathParameterNamesChanged" "plain_kind DkParameterAdded"
  "plain_kind DkParameterChanged" "plain_kind DkRequestBodyAdded" "plain_kind DkRequestBodyChanged"
  "plain_kind DkResponseAdded" "plain_kind DkResponseChanged" "plain_kind DkSecurityChanged" "plain_kind DkSchemaAdded"
  "plain_kind DkSchemaChanged" "plain_kind DkClaimAdded" "plain_kind DkClaimChanged" "plain_kind DkConditionAdded"
  "plain_kind DkConditionRemoved" "plain_kind DkConditionChanged" "plain_kind DkAnalysisCoverageChanged"
  "plain_kind DkAnalysisIdentityChanged" "plain_kind DkAnalysisDiagnosticAdded" "plain_kind DkAnalysisDiagnosticResolved"
  by (simp_all add: plain_kind_def confirmedRemovalKinds_def absenceKinds_def)

lemma plain_is_honest [simp]: "plain_kind kind \<Longrightarrow> honest_kind targetIncomplete kind"
  by (simp add: plain_kind_def honest_kind_def)

lemma gone_kind_honest [simp]: "kind \<notin> set absenceKinds \<Longrightarrow> honest_kind targetIncomplete (gone_kind targetIncomplete kind)"
  by (simp add: honest_kind_def gone_kind_def confirmedRemovalKinds_def)

lemma removals_are_no_absences [simp]:
  "DkEndpointRemoved \<notin> set absenceKinds" "DkParameterRemoved \<notin> set absenceKinds" "DkRequestBodyRemoved \<notin> set absenceKinds"
  "DkResponseRemoved \<notin> set absenceKinds" "DkSchemaRemoved \<notin> set absenceKinds" "DkClaimRemoved \<notin> set absenceKinds"
  by (simp_all add: absenceKinds_def)

text \<open>Drafts that are honest about the coverage of the target.\<close>

definition honest_drafts :: "bool \<Rightarrow> difference_draft list \<Rightarrow> bool" where
  "honest_drafts targetIncomplete ds = list_all (\<lambda>d. honest_kind targetIncomplete (dd_kind d)) ds"

lemma honest_drafts_simps [simp]:
  "honest_drafts b []" "honest_drafts b (d # ds) \<longleftrightarrow> honest_kind b (dd_kind d) \<and> honest_drafts b ds"
  "honest_drafts b (ds @ es) \<longleftrightarrow> honest_drafts b ds \<and> honest_drafts b es"
  "honest_drafts b (concat dss) \<longleftrightarrow> (\<forall>ds \<in> set dss. honest_drafts b ds)"
  "honest_drafts b (concat_map f xs) \<longleftrightarrow> (\<forall>x \<in> set xs. honest_drafts b (f x))"
  "honest_drafts b (draft_when c d) \<longleftrightarrow> (c \<longrightarrow> honest_kind b (dd_kind d))"
  "dd_kind (draft kind label s before after) = kind"
  by (auto simp: honest_drafts_def list_all_iff concat_map_def draft_when_def draft_def)

lemma traverse_all:
  assumes "traverse f xs = Inr ys" "\<And>x y. x \<in> set xs \<Longrightarrow> f x = Inr y \<Longrightarrow> P y"
  shows "\<forall>y \<in> set ys. P y"
  using assms
proof (induction xs arbitrary: ys)
  case (Cons x xs)
  then obtain y zs where "f x = Inr y" "traverse f xs = Inr zs" "ys = y # zs" by (auto split: sum.splits)
  moreover from Cons.IH [OF \<open>traverse f xs = Inr zs\<close>] Cons.prems(2) have "\<forall>z \<in> set zs. P z" by auto
  ultimately show ?case using Cons.prems(2) [of x y] by simp
qed simp

text \<open>What a comparison of facts has to provide: neutral kinds for additions and changes, and a removal.\<close>

locale fact_diff =
  fixes fc :: "'f fact_comparison"
  assumes added_plain: "plain_kind (fc_added fc)"
    and changed_plain: "plain_kind (fc_changed fc)"
    and removed_confirmed: "fc_removed fc \<notin> set absenceKinds"
begin

lemma drafts_honest:
  "fact_drafts fc targetIncomplete s old new = Inr ds \<Longrightarrow> honest_drafts targetIncomplete ds"
  using added_plain changed_plain removed_confirmed
  by (cases "(fc, targetIncomplete, s, old, new)" rule: fact_drafts.cases)
     (auto simp: and_then_Inr_iff split: if_splits)

lemma keyed_honest:
  assumes "keyed_drafts fc targetIncomplete subj base target = Inr ds"
  shows "honest_drafts targetIncomplete ds"
proof -
  obtain dss where dss: "ds = concat dss"
    "traverse (\<lambda>key. (case (map_get base key, map_get target key) of
            (None, None) \<Rightarrow> Inr []
          | (None, Some fct) \<Rightarrow> fact_drafts fc targetIncomplete (subj key fct) None (Some fct)
          | (Some fct, new) \<Rightarrow> fact_drafts fc targetIncomplete (subj key fct) (Some fct) new))
       (canonicalStrings (map_keys base @ map_keys target)) = Inr dss"
    using assms by (auto simp: keyed_drafts_def and_then_Inr_iff)
  have "\<forall>es \<in> set dss. honest_drafts targetIncomplete es"
    by (rule traverse_all [OF dss(2)]) (auto split: option.splits dest: drafts_honest simp del: fact_drafts.simps)
  then show ?thesis by (simp add: dss(1))
qed

end

interpretation parameters: fact_diff parameter_comparison
  by unfold_locales (simp_all add: parameter_comparison_def)

interpretation bodies: fact_diff body_comparison
  by unfold_locales (simp_all add: body_comparison_def)

interpretation responses: fact_diff response_comparison
  by unfold_locales (simp_all add: response_comparison_def)

interpretation schemas: fact_diff "schema_comparison schemaId" for schemaId
  by unfold_locales (simp_all add: schema_comparison_def)

lemma endpoint_added_kind: "endpoint_added serviceId target e = Inr d \<Longrightarrow> dd_kind d = DkEndpointAdded"
  by (auto simp: endpoint_added_def and_then_Inr_iff)

lemma endpoint_gone_honest: "endpoint_gone serviceId base b e = Inr d \<Longrightarrow> honest_kind b (dd_kind d)"
  by (auto simp: endpoint_gone_def and_then_Inr_iff honest_kind_def confirmedRemovalKinds_def)

lemma addEndpointMemberDrafts_honest:
  "addEndpointMemberDrafts serviceId before after base target b = Inr ds \<Longrightarrow> honest_drafts b ds"
  by (auto simp: addEndpointMemberDrafts_def Let_def and_then_Inr_iff
      dest: parameters.keyed_honest bodies.keyed_honest responses.keyed_honest)

lemma common_endpoint_drafts_honest:
  "common_endpoint_drafts serviceId base target b before after = Inr ds \<Longrightarrow> honest_drafts b ds"
  by (auto simp: common_endpoint_drafts_def and_then_Inr_iff endpoint_added_kind
      dest: addEndpointMemberDrafts_honest endpoint_gone_honest split: if_splits)

lemma endpoint_id_drafts_honest:
  "endpoint_id_drafts base target endpointId = Inr ds \<Longrightarrow> honest_drafts (coverage_incomplete (cs_coverage target)) ds"
  by (auto simp: endpoint_id_drafts_def Let_def and_then_Inr_iff endpoint_added_kind
      dest: endpoint_gone_honest common_endpoint_drafts_honest split: option.splits)

lemma honest_concat:
  assumes "and_then (traverse f xs) (\<lambda>dss. Inr (concat dss)) = Inr ds" "\<And>x ys. f x = Inr ys \<Longrightarrow> honest_drafts b ys"
  shows "honest_drafts b ds"
proof -
  obtain dss where dss: "traverse f xs = Inr dss" "ds = concat dss" using assms(1) by (auto simp: and_then_Inr_iff)
  have "\<forall>ys \<in> set dss. honest_drafts b ys" by (rule traverse_all [OF dss(1)]) (rule assms(2))
  then show ?thesis by (simp add: dss(2))
qed

lemma endpointDrafts_honest:
  "endpointDrafts base target = Inr ds \<Longrightarrow> honest_drafts (coverage_incomplete (cs_coverage target)) ds"
  unfolding endpointDrafts_def by (erule honest_concat) (rule endpoint_id_drafts_honest)

lemma schema_drafts_honest: "schema_drafts b schemaId s before after = Inr ds \<Longrightarrow> honest_drafts b ds"
  by (auto simp: schema_drafts_def Let_def and_then_Inr_iff dest: schemas.drafts_honest split: if_splits)

lemma schemaDrafts_honest:
  "schemaDrafts base target = Inr ds \<Longrightarrow> honest_drafts (coverage_incomplete (cs_coverage target)) ds"
  unfolding schemaDrafts_def
  by (auto simp: schema_id_drafts_def Let_def split: option.splits elim!: honest_concat intro: schema_drafts_honest)

lemma ownerDrafts_honest: "honest_drafts b (ownerDrafts b oldClaims newClaims)"
  by (simp add: ownerDrafts_def conditionDrafts_def remainingDrafts_def Let_def split: list.split)

lemma comparison_drafts_honest:
  assumes "comparison_drafts base target = Inr ds"
  shows "honest_drafts (coverage_incomplete (cs_coverage target)) ds"
proof -
  have claims: "honest_drafts (coverage_incomplete (cs_coverage target)) (addClaimDrafts base target)"
    by (simp add: addClaimDrafts_def Let_def ownerDrafts_honest)
  have diagnostics: "honest_drafts b (diagnosticDrafts base target)" "honest_drafts b (coverageDrafts base target)" for b
    by (simp_all add: diagnosticDrafts_def coverageDrafts_def Let_def split: option.split)
  show ?thesis
    using assms claims diagnostics
    by (auto simp: comparison_drafts_def Let_def and_then_Inr_iff
        dest: endpointDrafts_honest schemaDrafts_honest split: if_splits)
qed

section \<open>What a silent comparison means\<close>

text \<open>The canonical text a fact is compared by, and the facts of one kind as a map to their texts.\<close>

definition fact_text :: "'f fact_comparison \<Rightarrow> 'f \<Rightarrow> string run" where
  "fact_text fc f = and_then (fc_projection fc f) (\<lambda>j. Inr (canonicalJson j))"

definition fact_texts :: "'f fact_comparison \<Rightarrow> (string, 'f) jmap \<Rightarrow> string \<Rightarrow> string run option" where
  "fact_texts fc facts key = map_option (fact_text fc) (map_get facts key)"

lemma fact_drafts_Nil:
  "fact_drafts fc b s old new = Inr ds \<Longrightarrow> ds = [] \<longleftrightarrow> map_option (fact_text fc) old = map_option (fact_text fc) new"
  by (cases "(fc, b, s, old, new)" rule: fact_drafts.cases)
     (auto simp: and_then_Inr_iff fact_text_def split: if_splits)

lemma traverse_concat_Nil:
  assumes "and_then (traverse f xs) (\<lambda>dss. Inr (concat dss)) = Inr ds"
  shows "ds = [] \<longleftrightarrow> (\<forall>x \<in> set xs. f x = Inr [])" "x \<in> set xs \<Longrightarrow> \<exists>ys. f x = Inr ys"
proof -
  obtain dss where dss: "list_all2 (\<lambda>x ys. f x = Inr ys) xs dss" "ds = concat dss"
    using assms by (auto simp: and_then_Inr_iff traverse_Inr_iff)
  have "(\<forall>ys \<in> set dss. ys = []) \<longleftrightarrow> (\<forall>x \<in> set xs. f x = Inr [])"
    using dss(1) by (induction rule: list_all2_induct) auto
  then show "ds = [] \<longleftrightarrow> (\<forall>x \<in> set xs. f x = Inr [])" by (simp add: dss(2))
  show "x \<in> set xs \<Longrightarrow> \<exists>ys. f x = Inr ys"
    using dss(1) by (induction rule: list_all2_induct) auto
qed

lemma keyed_drafts_Nil:
  assumes "keyed_drafts fc b subj base target = Inr ds"
  shows "ds = [] \<longleftrightarrow> fact_texts fc base = fact_texts fc target"
proof -
  let ?f = "\<lambda>key. (case (map_get base key, map_get target key) of
            (None, None) \<Rightarrow> Inr []
          | (None, Some fct) \<Rightarrow> fact_drafts fc b (subj key fct) None (Some fct)
          | (Some fct, new) \<Rightarrow> fact_drafts fc b (subj key fct) (Some fct) new)"
  have one: "\<exists>s. ?f key = fact_drafts fc b s (map_get base key) (map_get target key)" for key
    by (cases "map_get base key"; cases "map_get target key") (auto simp del: fact_drafts.simps intro: fact_drafts.simps(4) [symmetric])
  note steps = traverse_concat_Nil [OF assms [unfolded keyed_drafts_def]]
  have inside: "?f key = Inr [] \<longleftrightarrow> fact_texts fc base key = fact_texts fc target key"
    if "key \<in> set (canonicalStrings (map_keys base @ map_keys target))" for key
    using one [of key] steps(2) [OF that] fact_drafts_Nil unfolding fact_texts_def by metis
  have outside: "fact_texts fc base key = fact_texts fc target key"
    if "key \<notin> set (canonicalStrings (map_keys base @ map_keys target))" for key
    using that map_of_eq_None_iff [of base key] map_of_eq_None_iff [of target key] by (simp add: fact_texts_def)
  have "ds = [] \<longleftrightarrow> (\<forall>key \<in> set (canonicalStrings (map_keys base @ map_keys target)). ?f key = Inr [])" by (rule steps(1))
  also have "\<dots> \<longleftrightarrow> (\<forall>key \<in> set (canonicalStrings (map_keys base @ map_keys target)).
      fact_texts fc base key = fact_texts fc target key)"
    by (rule ball_cong [OF refl inside])
  also have "\<dots> \<longleftrightarrow> (\<forall>key. fact_texts fc base key = fact_texts fc target key)" using outside by blast
  finally show ?thesis by (simp only: fun_eq_iff)
qed

text \<open>Two endpoints with the same identifier promise the same.\<close>

definition response_texts :: "endpoint \<Rightarrow> (string \<Rightarrow> string run option) run" where
  "response_texts e = and_then (responseGroups e) (\<lambda>groups. Inr (fact_texts response_comparison groups))"

definition security_text :: "endpoint \<Rightarrow> contract_snapshot \<Rightarrow> string run" where
  "security_text e s = and_then (securityProjection e s) (\<lambda>j. Inr (canonicalJson j))"

definition same_endpoint :: "contract_snapshot \<Rightarrow> contract_snapshot \<Rightarrow> endpoint \<Rightarrow> endpoint \<Rightarrow> bool" where
  "same_endpoint base target before after \<longleftrightarrow>
     routeIdentityKey before = routeIdentityKey after \<and>
     pathParameterNames (ep_application_path before) = pathParameterNames (ep_application_path after) \<and>
     fact_texts parameter_comparison (keyed parameterKey (ep_parameters before)) =
       fact_texts parameter_comparison (keyed parameterKey (ep_parameters after)) \<and>
     fact_texts body_comparison (keyed rb_media_type (ep_request_bodies before)) =
       fact_texts body_comparison (keyed rb_media_type (ep_request_bodies after)) \<and>
     response_texts before = response_texts after \<and>
     security_text before base = security_text after target"

lemma strings_json_eq [simp]: "canonicalJson (strings_json xs) = canonicalJson (strings_json ys) \<longleftrightarrow> xs = ys"
proof -
  have "wf_json (strings_json zs)" for zs by (simp add: strings_json_def list_all_iff)
  moreover have "map (json_normal \<circ> JStr) xs = map (json_normal \<circ> JStr) ys \<longleftrightarrow> xs = ys"
    by (rule inj_map_eq_map) (simp add: inj_on_def)
  ultimately show ?thesis by (simp add: canonicalJson_eq_iff) (simp add: strings_json_def)
qed

lemma common_endpoint_drafts_Nil:
  assumes "common_endpoint_drafts serviceId base target b before after = Inr ds"
  shows "ds = [] \<longleftrightarrow> same_endpoint base target before after"
proof (cases "routeIdentityKey before = routeIdentityKey after")
  case True
  obtain beforeNames afterNames members where names: "pathParameterNames (ep_application_path before) = Inr beforeNames"
      "pathParameterNames (ep_application_path after) = Inr afterNames"
    and members: "addEndpointMemberDrafts serviceId before after base target b = Inr members"
    and ds: "ds = [] \<longleftrightarrow> beforeNames = afterNames \<and> members = []"
    using assms True by (auto simp: common_endpoint_drafts_def and_then_Inr_iff draft_when_def)
  obtain ps bs gs gs' rs old new where parts: "keyed_drafts parameter_comparison b (\<lambda>_ p. factSubject serviceId (ep_endpoint_id before) FkParameter [JStr (in_text (pm_in p)), JStr (pm_name p)])
          (keyed parameterKey (ep_parameters before)) (keyed parameterKey (ep_parameters after)) = Inr ps"
      "keyed_drafts body_comparison b (\<lambda>_ r. factSubject serviceId (ep_endpoint_id before) FkRequestBody [JStr (rb_media_type r)])
          (keyed rb_media_type (ep_request_bodies before)) (keyed rb_media_type (ep_request_bodies after)) = Inr bs"
      "responseGroups before = Inr gs" "responseGroups after = Inr gs'"
      "keyed_drafts response_comparison b (\<lambda>key _. factSubject serviceId (ep_endpoint_id before) FkResponse [JStr key]) gs gs' = Inr rs"
      "securityProjection before base = Inr old" "securityProjection after target = Inr new"
    and nil: "members = [] \<longleftrightarrow> ps = [] \<and> bs = [] \<and> rs = [] \<and> canonicalJson old = canonicalJson new"
    using members by (auto simp: addEndpointMemberDrafts_def Let_def and_then_Inr_iff draft_when_def)
  show ?thesis
    using True names ds nil parts(3,4,6,7) keyed_drafts_Nil [OF parts(1)] keyed_drafts_Nil [OF parts(2)] keyed_drafts_Nil [OF parts(5)]
    by (simp add: same_endpoint_def response_texts_def security_text_def)
next
  case False
  then show ?thesis using assms by (auto simp: common_endpoint_drafts_def and_then_Inr_iff same_endpoint_def)
qed

lemma endpoint_id_drafts_Nil:
  assumes "endpoint_id_drafts base target i = Inr ds"
  shows "ds = [] \<longleftrightarrow> rel_option (same_endpoint base target)
    (map_get (keyed ep_endpoint_id (cs_endpoints base)) i) (map_get (keyed ep_endpoint_id (cs_endpoints target)) i)"
  using assms common_endpoint_drafts_Nil
  by (auto simp: endpoint_id_drafts_def Let_def and_then_Inr_iff split: option.splits)

lemma schema_drafts_Nil:
  assumes "schema_drafts b schemaId s (object_lookup base schemaId) (object_lookup target schemaId) = Inr ds"
  shows "ds = [] \<longleftrightarrow> map_option (fact_text (schema_comparison schemaId)) (map_of base schemaId) =
    map_option (fact_text (schema_comparison schemaId)) (map_of target schemaId)"
proof -
  have own: "(case object_lookup ms schemaId of Own c \<Rightarrow> Some c | _ \<Rightarrow> None) = map_of ms schemaId"
    for ms :: "(string \<times> schema_component) list"
    by (simp add: object_lookup_def split: option.split)
  have "fact_drafts (schema_comparison schemaId) b s (map_of base schemaId) (map_of target schemaId) = Inr ds"
    using assms by (auto simp: schema_drafts_def Let_def own and_then_Inr_iff split: if_splits)
  then show ?thesis by (rule fact_drafts_Nil)
qed

lemma diagnostic_drafts_Nil:
  "diagnostic_drafts serviceId before after = [] \<longleftrightarrow>
   map_option (\<lambda>d. canonicalJson (diagnosticProjection d)) before = map_option (\<lambda>d. canonicalJson (diagnosticProjection d)) after"
  by (cases before; cases after) simp_all

text \<open>
  The contract of a snapshot as a reader of it sees it: endpoints, components, diagnostics and
  coverage up to their canonical projections, claims as a multiset.
\<close>

definition diagnostic_texts :: "contract_snapshot \<Rightarrow> string \<Rightarrow> string option" where
  "diagnostic_texts s key = map_option (\<lambda>d. canonicalJson (diagnosticProjection d)) (map_get (keyed diagnosticKey (cs_diagnostics s)) key)"

definition schema_texts :: "contract_snapshot \<Rightarrow> string \<Rightarrow> string run option" where
  "schema_texts s schemaId = map_option (fact_text (schema_comparison schemaId)) (map_of (cs_schemas s) schemaId)"

definition claim_traces :: "contract_snapshot \<Rightarrow> contract_snapshot \<Rightarrow> string \<Rightarrow> contract_snapshot \<Rightarrow> (string \<times> string \<times> string) multiset" where
  "claim_traces base target side s = mset (map (claim_trace (discontinuousEndpointIds base target) side) (cs_claims s))"

definition same_contract :: "contract_snapshot \<Rightarrow> contract_snapshot \<Rightarrow> bool" where
  "same_contract base target \<longleftrightarrow>
     cs_identity_version base = cs_identity_version target \<and>
     (\<forall>i. rel_option (same_endpoint base target)
        (map_get (keyed ep_endpoint_id (cs_endpoints base)) i) (map_get (keyed ep_endpoint_id (cs_endpoints target)) i)) \<and>
     schema_texts base = schema_texts target \<and>
     claim_traces base target ''base'' base = claim_traces base target ''target'' target \<and>
     canonicalJson (coverageProjection (cs_coverage base)) = canonicalJson (coverageProjection (cs_coverage target)) \<and>
     diagnostic_texts base = diagnostic_texts target"

lemma endpointDrafts_Nil:
  assumes "endpointDrafts base target = Inr ds"
  shows "ds = [] \<longleftrightarrow> (\<forall>i. rel_option (same_endpoint base target)
    (map_get (keyed ep_endpoint_id (cs_endpoints base)) i) (map_get (keyed ep_endpoint_id (cs_endpoints target)) i))"
proof -
  let ?B = "keyed ep_endpoint_id (cs_endpoints base)" and ?T = "keyed ep_endpoint_id (cs_endpoints target)"
  let ?R = "\<lambda>i. rel_option (same_endpoint base target) (map_get ?B i) (map_get ?T i)"
  let ?S = "set (canonicalStrings (map_keys ?B @ map_keys ?T))"
  note steps = traverse_concat_Nil [OF assms [unfolded endpointDrafts_def]]
  have "ds = [] \<longleftrightarrow> (\<forall>i \<in> ?S. endpoint_id_drafts base target i = Inr [])" by (rule steps(1))
  also have "\<dots> \<longleftrightarrow> (\<forall>i \<in> ?S. ?R i)"
    by (rule ball_cong [OF refl]) (use steps(2) endpoint_id_drafts_Nil in fastforce)
  also have "\<dots> \<longleftrightarrow> (\<forall>i. ?R i)"
  proof -
    have "?R i" if "i \<notin> ?S" for i
      using that map_of_eq_None_iff [of ?B i] map_of_eq_None_iff [of ?T i] by simp
    then show ?thesis by blast
  qed
  finally show ?thesis .
qed

lemma schemaDrafts_Nil:
  assumes "schemaDrafts base target = Inr ds"
  shows "ds = [] \<longleftrightarrow> schema_texts base = schema_texts target"
proof -
  let ?S = "set (canonicalStrings (map_keys (cs_schemas base) @ map_keys (cs_schemas target)))"
  obtain bo to where "and_then (traverse (schema_id_drafts base target bo to)
      (canonicalStrings (map_keys (cs_schemas base) @ map_keys (cs_schemas target)))) (\<lambda>dss. Inr (concat dss)) = Inr ds"
    using assms by (auto simp: schemaDrafts_def split: option.splits)
  note steps = traverse_concat_Nil [OF this]
  have one: "schema_id_drafts base target bo to i = Inr es \<Longrightarrow> es = [] \<longleftrightarrow> schema_texts base i = schema_texts target i" for i es
    unfolding schema_id_drafts_def Let_def schema_texts_def by (rule schema_drafts_Nil)
  have "ds = [] \<longleftrightarrow> (\<forall>i \<in> ?S. schema_id_drafts base target bo to i = Inr [])" by (rule steps(1))
  also have "\<dots> \<longleftrightarrow> (\<forall>i \<in> ?S. schema_texts base i = schema_texts target i)"
    by (rule ball_cong [OF refl]) (use steps(2) one in fastforce)
  also have "\<dots> \<longleftrightarrow> (\<forall>i. schema_texts base i = schema_texts target i)"
  proof -
    have "schema_texts base i = schema_texts target i" if "i \<notin> ?S" for i
      using that map_of_eq_None_iff [of "cs_schemas base" i] map_of_eq_None_iff [of "cs_schemas target" i]
      by (simp add: schema_texts_def)
    then show ?thesis by blast
  qed
  finally show ?thesis by (simp only: fun_eq_iff)
qed

lemma diagnosticDrafts_Nil: "diagnosticDrafts base target = [] \<longleftrightarrow> diagnostic_texts base = diagnostic_texts target"
proof -
  let ?B = "keyed diagnosticKey (cs_diagnostics base)" and ?T = "keyed diagnosticKey (cs_diagnostics target)"
  let ?S = "set (canonicalStrings (map_keys ?B @ map_keys ?T))"
  have "diagnosticDrafts base target = [] \<longleftrightarrow> (\<forall>k \<in> ?S. diagnostic_texts base k = diagnostic_texts target k)"
    by (simp add: diagnosticDrafts_def Let_def concat_map_Nil_iff diagnostic_drafts_Nil diagnostic_texts_def del: diagnostic_drafts.simps)
  also have "\<dots> \<longleftrightarrow> (\<forall>k. diagnostic_texts base k = diagnostic_texts target k)"
  proof -
    have "diagnostic_texts base k = diagnostic_texts target k" if "k \<notin> ?S" for k
      using that map_of_eq_None_iff [of ?B k] map_of_eq_None_iff [of ?T k] by (simp add: diagnostic_texts_def)
    then show ?thesis by blast
  qed
  finally show ?thesis by (simp only: fun_eq_iff)
qed

lemma comparison_drafts_Nil:
  assumes "comparison_drafts base target = Inr ds"
  shows "ds = [] \<longleftrightarrow> same_contract base target"
proof (cases "cs_identity_version base = cs_identity_version target")
  case True
  obtain es ss where parts: "endpointDrafts base target = Inr es" "schemaDrafts base target = Inr ss"
    and ds: "ds = es @ ss @ addClaimDrafts base target @ coverageDrafts base target @ diagnosticDrafts base target"
    using assms True by (auto simp: comparison_drafts_def Let_def and_then_Inr_iff)
  have coverage: "coverageDrafts base target = [] \<longleftrightarrow>
      canonicalJson (coverageProjection (cs_coverage base)) = canonicalJson (coverageProjection (cs_coverage target))"
    by (simp add: coverageDrafts_def Let_def draft_when_def)
  show ?thesis
    unfolding ds append_is_Nil_conv endpointDrafts_Nil [OF parts(1)] schemaDrafts_Nil [OF parts(2)]
      addClaimDrafts_Nil_iff coverage diagnosticDrafts_Nil same_contract_def claim_traces_def
    using True by blast
next
  case False
  then show ?thesis using assms by (auto simp: comparison_drafts_def Let_def and_then_Inr_iff same_contract_def)
qed

section \<open>The order of the result\<close>

lemma compare_keys_le: "length xs = length ys \<Longrightarrow> compare_keys xs ys \<le> 0 \<longleftrightarrow> xs \<le> ys"
  by (induction xs ys rule: list_induct2) (auto simp: Let_def)

lemma length_differenceSortKey: "length (differenceSortKey d) = 7"
  by (simp add: differenceSortKey_def Let_def)

lemma compareDifference_le: "compareDifference d e \<le> 0 \<longleftrightarrow> differenceSortKey d \<le> differenceSortKey e"
  by (simp add: compareDifference_def compare_keys_le length_differenceSortKey)

lemma compareDifference_swap: "compareDifference d e < 0 \<longleftrightarrow> differenceSortKey d < differenceSortKey e"
proof -
  have swap: "length xs = length ys \<Longrightarrow> compare_keys xs ys < 0 \<longleftrightarrow> xs < ys" for xs ys
    by (induction xs ys rule: list_induct2) (auto simp: Let_def)
  show ?thesis by (simp add: compareDifference_def swap length_differenceSortKey)
qed

interpretation differences: collation compareDifference
  by unfold_locales (auto simp: compareDifference_le)

lemma sortDifferences_key: "sortDifferences ds = sort_key differenceSortKey ds"
  unfolding sortDifferences_def by (rule js_sort_key) (rule compareDifference_le)

lemma strictly_ordered_iff: "strictly_ordered ds \<longleftrightarrow> sorted_wrt (<) (map differenceSortKey ds)"
proof (induction ds rule: strictly_ordered.induct)
  case (1 x y ds)
  then show ?case by (auto simp: compareDifference_swap intro: order.strict_trans)
qed auto

text \<open>What a returned difference set is.\<close>

lemma validateSnapshot_Inr: "validateSnapshot pf cv s prefix = Inr t \<Longrightarrow> t = s"
  by (auto simp: validateSnapshot_def validateFutureIdentitySnapshot_def incompatible_def Let_def split: if_splits)

lemma incompatible_not_Inr [simp]: "incompatible issues \<noteq> Inr r"
  by (simp add: incompatible_def)

lemma reject_or_return: "(case x of Inl issues \<Rightarrow> incompatible issues | Inr d \<Rightarrow> Inr d) = Inr r \<longleftrightarrow> x = Inr r"
  by (cases x) auto

lemma compare_Inr:
  assumes "compareContractSnapshots pf cv base target = Inr r"
  obtains drafts where "comparison_drafts base target = Inr drafts" "incompatibilities base target = []"
    "r = with_set_id pf (set_content pf base target drafts)"
    "validateDifferenceSetSemantics pf (dv_projection cv) r = Some []"
proof -
  obtain b t drafts where steps: "validateSnapshot pf cv base ''/base_snapshot'' = Inr b" "validateSnapshot pf cv target ''/target_snapshot'' = Inr t"
    "incompatibilities b t = []" "comparison_drafts b t = Inr drafts"
    "parseContractDifferenceSet pf (difference_validators.truncate cv) (with_set_id pf (set_content pf b t drafts)) = Inr r"
    using assms by (auto simp: compareContractSnapshots_def and_then_Inr_iff reject_or_return split: if_split_asm)
  moreover have "b = base" "t = target" using steps(1,2) validateSnapshot_Inr by metis+
  ultimately show thesis
    by (intro that) (auto simp: parseContractDifferenceSet_Inr difference_validators.truncate_def)
qed

lemma sort_key_Nil_iff [simp]: "sort_key f xs = [] \<longleftrightarrow> xs = []"
  by (metis length_0_conv length_sort)

lemma set_differences:
  "dc_differences (with_set_id pf (set_content pf base target drafts)) = sort_key differenceSortKey (map (difference_of pf base target) drafts)"
  by (simp add: with_set_id_def set_content_def difference_set_content.extend_def sortDifferences_key)

lemma difference_of_kind [simp]: "dd_kind (difference_of pf base target d) = dd_kind d"
  by (simp add: difference_of_def difference_draft.extend_def)

section \<open>Properties\<close>

text \<open>
  C1: A comparison that returns is silent exactly when both snapshots have the same contract: the
  same endpoints with equal routes, parameters, bodies, responses and security, the same
  components, diagnostics and coverage, and the same claims as a multiset. No change is missed
  and none is made up, up to the canonical projections.
\<close>

theorem silent_comparison_is_same_contract:
  assumes "compareContractSnapshots pf cv base target = Inr r"
  shows "dc_differences r = [] \<longleftrightarrow> same_contract base target"
  by (rule compare_Inr [OF assms]) (simp add: set_differences comparison_drafts_Nil [symmetric])

text \<open>
  C11: The result is honest about coverage: a removal is confirmed only against a complete target,
  and an absence is left unconfirmed only against an incomplete one, for every kind of fact.
\<close>

theorem absence_follows_coverage:
  assumes "compareContractSnapshots pf cv base target = Inr r" "d \<in> set (dc_differences r)"
  shows "if coverage_incomplete (cs_coverage target) then dd_kind d \<notin> set confirmedRemovalKinds
    else dd_kind d \<notin> set absenceKinds"
  using assms(2)
  by (rule_tac compare_Inr [OF assms(1)])
     (auto simp: set_differences honest_drafts_def list_all_iff honest_kind_def dest!: comparison_drafts_honest)

text \<open>
  C30: The differences come strictly ordered by endpoint, component, affected endpoints, fact and
  kind, so no two of them coincide; each identifier is the digest of its content; and the set is
  complete exactly when both coverages are and the identity version did not change.
\<close>

theorem comparison_result_canonical:
  assumes "compareContractSnapshots pf cv base target = Inr r"
  shows "sorted_wrt (<) (map differenceSortKey (dc_differences r)) \<and>
    (\<forall>d \<in> set (dc_differences r). df_difference_id d =
       difference_id_of pf (sv_service_id (cs_service base)) (cs_snapshot_id base) (cs_snapshot_id target) d) \<and>
    (dc_comparison_status r = ComparisonComplete \<longleftrightarrow>
       \<not> coverage_incomplete (cs_coverage base) \<and> \<not> coverage_incomplete (cs_coverage target) \<and>
       cs_identity_version base = cs_identity_version target)"
proof (rule compare_Inr [OF assms])
  fix drafts
  assume r: "r = with_set_id pf (set_content pf base target drafts)"
    and valid: "validateDifferenceSetSemantics pf (dv_projection cv) r = Some []"
  have "strictly_ordered (dc_differences r)"
    using valid by (auto simp: validateDifferenceSetSemantics_def Let_def split: option.splits if_splits)
  moreover have "df_difference_id d = difference_id_of pf (sv_service_id (cs_service base)) (cs_snapshot_id base) (cs_snapshot_id target) d"
    if "d \<in> set (dc_differences r)" for d
    using that by (auto simp: r set_differences difference_of_def difference_id_of_def identityContent_def difference_draft.extend_def)
  moreover have "dc_comparison_status r = ComparisonComplete \<longleftrightarrow> incompleteReasons base target = []"
    by (simp add: r with_set_id_def set_content_def difference_set_content.extend_def)
  ultimately show ?thesis by (auto simp: strictly_ordered_iff incompleteReasons_def)
qed

text \<open>
  The scan for path parameter names returns exactly when every brace it meets is closed, and
  then gives the canonical set of the names; a brace that is never closed sends it back to the
  start of the path forever.
\<close>

theorem parameter_names_termination:
  "pathParameterNames path =
   (case names_scan path of None \<Rightarrow> Inl NeverReturns | Some names \<Rightarrow> Inr (canonicalStrings names))"
  by (rule pathParameterNames_eq)

lemma traverse_aborts: "x \<in> set xs \<Longrightarrow> f x = Inl e \<Longrightarrow> and_then (traverse f xs) g \<noteq> Inr r"
proof
  assume x: "x \<in> set xs" "f x = Inl e" and "and_then (traverse f xs) g = Inr r"
  then obtain ys where "list_all2 (\<lambda>x y. f x = Inr y) xs ys" by (auto simp: and_then_Inr_iff traverse_Inr_iff)
  with x show False by (auto simp: list_all2_conv_all_nth in_set_conv_nth)
qed

lemma map_of_key: "map_of m k = Some v \<Longrightarrow> k \<in> set (map_keys m)"
  by (auto dest: map_of_SomeD intro: rev_image_eqI)

lemma compare_needs_drafts:
  "(\<And>ds. comparison_drafts base target \<noteq> Inr ds) \<Longrightarrow> compareContractSnapshots pf cv base target \<noteq> Inr r"
  by (metis compare_Inr)

text \<open>
  C31: Two snapshots that share an endpoint whose path has a brace in a parameter's constraint that
  is never closed, as in \<open>/a/:id([{])\<close>, can not be compared: the scan for its parameter names
  never returns, although the path is valid.
\<close>

theorem unclosed_brace_never_compared:
  assumes "map_get (keyed ep_endpoint_id (cs_endpoints base)) i = Some before"
    "map_get (keyed ep_endpoint_id (cs_endpoints target)) i = Some after"
    "routeIdentityKey before = routeIdentityKey after" "names_scan (ep_application_path before) = None"
    "cs_identity_version base = cs_identity_version target"
  shows "endpoint_id_drafts base target i = Inl NeverReturns \<and> compareContractSnapshots pf cv base target \<noteq> Inr r"
proof
  show hang: "endpoint_id_drafts base target i = Inl NeverReturns"
    using assms(1-4) by (simp add: endpoint_id_drafts_def common_endpoint_drafts_def pathParameterNames_eq Let_def)
  have "i \<in> set (map_keys (keyed ep_endpoint_id (cs_endpoints base)))" using assms(1) by (rule map_of_key)
  then have "endpointDrafts base target \<noteq> Inr ds" for ds
    unfolding endpointDrafts_def using hang by (intro traverse_aborts [of i]) auto
  then have "comparison_drafts base target \<noteq> Inr ds" for ds
    using assms(5) by (auto simp: comparison_drafts_def Let_def and_then_Inr_iff)
  then show "compareContractSnapshots pf cv base target \<noteq> Inr r" by (rule compare_needs_drafts)
qed

text \<open>
  A component that only the base has and whose identifier is a member every object inherits,
  such as \<open>constructor\<close>, can not be reported as removed: the lookup in the target finds the
  inherited member, the comparison throws the input error and never returns a difference set.
\<close>

theorem inherited_component_never_compared:
  assumes "schemaId \<in> set inherited_names" "map_of (cs_schemas base) schemaId = Some component"
    "map_of (cs_schemas target) schemaId = None" "canonicalSchema (sm_schema component) = Inr projection"
  shows "schema_drafts b schemaId s (object_lookup (cs_schemas base) schemaId) (object_lookup (cs_schemas target) schemaId) =
      Inl input_error \<and> compareContractSnapshots pf cv base target \<noteq> Inr r"
proof
  show fails: "schema_drafts b schemaId s (object_lookup (cs_schemas base) schemaId) (object_lookup (cs_schemas target) schemaId) =
      Inl input_error" for b s
    using assms by (simp add: schema_drafts_def object_lookup_def schemaProjection_def Let_def)
  have "schemaId \<in> set (map_keys (cs_schemas base))" using assms(2) by (rule map_of_key)
  then have "and_then (traverse (schema_id_drafts base target bo to)
      (canonicalStrings (map_keys (cs_schemas base) @ map_keys (cs_schemas target)))) (\<lambda>dss. Inr (concat dss)) \<noteq> Inr ds" for bo to ds
    by (intro traverse_aborts [of schemaId]) (auto simp: schema_id_drafts_def Let_def fails)
  then have "schemaDrafts base target \<noteq> Inr ds" for ds
    by (simp add: schemaDrafts_def split: option.split)
  then have "comparison_drafts base target \<noteq> Inr ds" for ds
    by (auto simp: comparison_drafts_def Let_def and_then_Inr_iff)
  then show "compareContractSnapshots pf cv base target \<noteq> Inr r" by (rule compare_needs_drafts)
qed

section \<open>Witnesses\<close>

text \<open>The sample snapshot, and the same without its claim.\<close>

definition sample_changed :: contract_snapshot where
  "sample_changed = sample_snapshot\<lparr>cs_claims := []\<rparr>"

definition sample_validators :: comparison_validators where
  "sample_validators = \<lparr>dv_projection = (\<lambda>_ _. True), dv_set_shape = (\<lambda>_. []), cv_snapshot_shape = (\<lambda>_. [])\<rparr>"

lemma sample_changed_valid: "validateContractSnapshotSemantics sample_platform sample_changed = []"
  by code_simp

lemma sample_schemas_unchanged: "schemaDrafts sample_snapshot sample_changed = Inr []"
proof -
  have closed: "closed_snapshot sample_snapshot" "closed_snapshot sample_changed"
    using validated_closed sample_snapshot_valid sample_changed_valid by blast+
  obtain ix ix' where "buildEndpointOwnershipIndex sample_snapshot = Some ix" "buildEndpointOwnershipIndex sample_changed = Some ix'"
    using index.build_defined [OF closed(1)] index.build_defined [OF closed(2)] by blast
  moreover have "schema_id_drafts sample_snapshot sample_changed ix ix' ''User'' = Inr []"
    by (simp add: schema_id_drafts_def sample_changed_def sample_snapshot_def object_lookup_def schema_drafts_def Let_def
       schema_comparison_def schemaProjection_def canonical_member_def)
  moreover have "canonicalStrings (map_keys (cs_schemas sample_snapshot) @ map_keys (cs_schemas sample_changed)) = [''User'']"
    by code_simp
  ultimately show ?thesis by (simp add: schemaDrafts_def)
qed

definition sample_drafts :: "difference_draft list" where
  "sample_drafts = addClaimDrafts sample_snapshot sample_changed"

lemma sample_comparison_drafts: "comparison_drafts sample_snapshot sample_changed = Inr sample_drafts"
proof -
  have "endpointDrafts sample_snapshot sample_changed = Inr []" "coverageDrafts sample_snapshot sample_changed = []"
    "diagnosticDrafts sample_snapshot sample_changed = []"
    "cs_identity_version sample_snapshot = cs_identity_version sample_changed"
    by code_simp+
  then show ?thesis by (simp add: comparison_drafts_def sample_schemas_unchanged sample_drafts_def)
qed

definition sample_result :: difference_set where
  "sample_result = with_set_id sample_platform (set_content sample_platform sample_snapshot sample_changed sample_drafts)"

lemma sample_comparison: "compareContractSnapshots sample_platform sample_validators sample_snapshot sample_changed = Inr sample_result"
proof -
  have "cs_identity_version sample_snapshot = IDENTITY_VERSION" "cs_identity_version sample_changed = IDENTITY_VERSION"
    "incompatibilities sample_snapshot sample_changed = []"
    "validateDifferenceSetSemantics sample_platform (\<lambda>_ _. True) sample_result = Some []"
    by code_simp+
  then show ?thesis
    by (simp add: compareContractSnapshots_def validateSnapshot_def snapshot_issues_def sample_validators_def
        sample_snapshot_valid sample_changed_valid sample_comparison_drafts parseContractDifferenceSet_def
        difference_validators.truncate_def flip: sample_result_def)
qed

theorem silent_comparison_is_same_contract_witness:
  "dc_differences sample_result \<noteq> [] \<and> \<not> same_contract sample_snapshot sample_changed"
proof -
  have "dc_differences sample_result \<noteq> []" by code_simp
  with silent_comparison_is_same_contract [OF sample_comparison] show ?thesis by simp
qed

theorem absence_follows_coverage_witness:
  "\<exists>d \<in> set (dc_differences sample_result). dd_kind d = DkClaimRemoved \<and> dd_kind d \<notin> set absenceKinds"
proof -
  have "map dd_kind (dc_differences sample_result) = [DkClaimRemoved]" "\<not> coverage_incomplete (cs_coverage sample_changed)"
    by code_simp+
  moreover from this obtain d where "d \<in> set (dc_differences sample_result)" "dd_kind d = DkClaimRemoved" by auto
  ultimately show ?thesis using absence_follows_coverage [OF sample_comparison, of d] by auto
qed

theorem comparison_result_canonical_witness:
  "dc_comparison_status sample_result = ComparisonComplete \<longleftrightarrow>
     \<not> coverage_incomplete (cs_coverage sample_snapshot) \<and> \<not> coverage_incomplete (cs_coverage sample_changed) \<and>
     cs_identity_version sample_snapshot = cs_identity_version sample_changed"
  using comparison_result_canonical [OF sample_comparison] by blast

text \<open>A valid snapshot with the path \<open>/a/:id([{])\<close>, and one with a component named \<open>constructor\<close>.\<close>

definition hanging_endpoint :: endpoint where
  "hanging_endpoint = sample_endpoint\<lparr>ep_application_path := ''/a/:id([{])'',
     ep_identity := projr (deriveEndpointIdentity sample_platform \<lparr>ii_identity_version = IDENTITY_VERSION,
       ii_service_id = ''svc'', ii_method = ei_method (ep_identity sample_endpoint), ii_application_path = ''/a/:id([{])'',
       ii_selectors = Some (ei_selectors (ep_identity sample_endpoint))\<rparr>)\<rparr>"

definition hanging_snapshot :: contract_snapshot where
  "hanging_snapshot = sample_snapshot\<lparr>cs_endpoints := [hanging_endpoint]\<rparr>"

lemma hanging_snapshot_valid: "validateContractSnapshotSemantics sample_platform hanging_snapshot = []"
  by code_simp

theorem unclosed_brace_never_compared_witness:
  "validateContractSnapshotSemantics sample_platform hanging_snapshot = [] \<and>
   endpoint_id_drafts hanging_snapshot hanging_snapshot ''users'' = Inl NeverReturns"
proof -
  have "map_get (keyed ep_endpoint_id (cs_endpoints hanging_snapshot)) ''users'' = Some hanging_endpoint"
    "names_scan (ep_application_path hanging_endpoint) = None" by code_simp+
  from unclosed_brace_never_compared [OF this(1,1) refl this(2) refl] hanging_snapshot_valid show ?thesis by blast
qed

definition sample_component :: schema_component where
  "sample_component = \<lparr>sm_schema_id = ''constructor'', sm_schema = JObj [(''type'', JStr ''object'')], sm_evidence_ids = [''sev'']\<rparr>"

definition inheriting_snapshot :: contract_snapshot where
  "inheriting_snapshot = sample_snapshot\<lparr>cs_schemas := cs_schemas sample_snapshot @ [(''constructor'', sample_component)]\<rparr>"

lemma inheriting_snapshot_valid: "validateContractSnapshotSemantics sample_platform inheriting_snapshot = []"
  by code_simp

theorem inherited_component_never_compared_witness:
  "validateContractSnapshotSemantics sample_platform inheriting_snapshot = [] \<and>
   (\<forall>r. compareContractSnapshots sample_platform sample_validators inheriting_snapshot sample_snapshot \<noteq> Inr r)"
proof -
  have "''constructor'' \<in> set inherited_names" "map_of (cs_schemas inheriting_snapshot) ''constructor'' = Some sample_component"
    "map_of (cs_schemas sample_snapshot) ''constructor'' = None" "canonicalSchema (sm_schema sample_component) = Inr (sm_schema sample_component)"
    by code_simp+
  from inherited_component_never_compared [OF this] inheriting_snapshot_valid show ?thesis by blast
qed


end
