(* ===== verification/IrAnalyzer.thy ===== *)
theory IrAnalyzer
  imports Snapshot Text
begin

text \<open>
  The exchange with an analyzer, \<open>packages/ir/src/analyzer.ts\<close>, and what the catalog makes of a
  result: \<open>contractSnapshotFromAnalyzerResult\<close> of \<open>packages/catalog/src/snapshot.ts\<close> with its
  errors. The shape verdicts of the third-party validator on a result and on a snapshot are
  parameters.
\<close>

section \<open>Requests and results\<close>

record analyzer_source =
  src_repository_id :: string
  src_service_id :: string
  src_service_root :: string
  src_immutable_revision :: string
  src_source_digest :: string
  src_access_label :: string

datatype input_kind = SourceTree | TypeManifest | GeneratedSources | RuntimeObservation

text \<open>The classpath input has a Maven coordinate in place of a path.\<close>

datatype analysis_input =
    PathInput (input_kind: input_kind) (input_path: string) (input_digest: string)
  | ClasspathInput (input_coordinate: string) (input_digest: string)

datatype request_mode = BaselineMode | IncrementalMode | FallbackMode

record analysis_limits =
  al_timeout_ms :: int
  al_max_files :: int
  al_max_output_bytes :: int

text \<open>\<open>execution_policy\<close> allows one value only and is left out.\<close>

record analyzer_request =
  aq_exchange_version :: string
  aq_ir_version :: string
  aq_request_id :: string
  aq_analyzer :: analyzer_identity
  aq_source :: analyzer_source
  aq_resolution_inputs :: "analysis_input list"
  aq_prior_dependencies :: "dependency list"
  aq_changed_paths :: "string list"
  aq_extraction_mode :: request_mode
  aq_limits :: analysis_limits

datatype result_status = ResultSuccess | ResultPartial | ResultFailed

record analyzer_result =
  ar_exchange_version :: string
  ar_ir_version :: string
  ar_identity_version :: string
  ar_request_id :: string
  ar_result_id :: string
  ar_snapshot_id :: string
  ar_analyzer :: analyzer_identity
  ar_source :: analyzer_source
  ar_status :: result_status
  ar_completed_at :: string
  ar_coverage :: coverage
  ar_evidence :: "evidence list"
  ar_schemas :: "(string \<times> schema_component) list"
  ar_security_schemes :: "(string \<times> security_scheme_fact) list option"
  ar_endpoints :: "endpoint list"
  ar_claims :: "claim list"
  ar_dependencies :: "dependency list"
  ar_diagnostics :: "diagnostic list"
  ar_reproducibility_fingerprint :: string

text \<open>
  The snapshot a result stands for. Both the semantic check of a result, with the result's own
  fingerprint, and the catalog, with the fingerprint of the configuration, build this object.
\<close>

definition result_snapshot :: "analyzer_result \<Rightarrow> string \<Rightarrow> contract_snapshot" where
  "result_snapshot r fingerprint =
     \<lparr>cs_ir_version = ar_ir_version r, cs_identity_version = ar_identity_version r, cs_snapshot_id = ar_snapshot_id r,
      cs_service = \<lparr>sv_service_id = src_service_id (ar_source r), sv_repository_id = src_repository_id (ar_source r),
        sv_root = src_service_root (ar_source r), sv_label = None\<rparr>,
      cs_source = \<lparr>sr_repository_id = src_repository_id (ar_source r),
        sr_immutable_revision = src_immutable_revision (ar_source r), sr_source_digest = src_source_digest (ar_source r)\<rparr>,
      cs_analyzer = ar_analyzer r, cs_config_version = CONFIG_VERSION, cs_config_fingerprint = fingerprint,
      cs_created_at = ar_completed_at r, cs_coverage = ar_coverage r, cs_evidence = ar_evidence r,
      cs_schemas = ar_schemas r, cs_security_schemes = ar_security_schemes r, cs_endpoints = ar_endpoints r,
      cs_claims = ar_claims r, cs_editorial_reviews = [], cs_export_eligibility = [],
      cs_dependencies = ar_dependencies r, cs_diagnostics = ar_diagnostics r\<rparr>"

definition status_issues :: "analyzer_result \<Rightarrow> validation_issue list" where
  "status_issues r =
     (case ar_status r of
        ResultSuccess \<Rightarrow>
          if coverage_incomplete (ar_coverage r)
          then [issue ''/status'' ''semantic.inconsistent_coverage'' ''successful results require complete coverage''] else []
      | ResultPartial \<Rightarrow>
          if \<not> coverage_incomplete (ar_coverage r)
          then [issue ''/status'' ''semantic.inconsistent_coverage'' ''partial results require incomplete coverage''] else []
      | ResultFailed \<Rightarrow>
          if \<not> coverage_incomplete (ar_coverage r)
          then [issue ''/status'' ''semantic.inconsistent_coverage'' ''failed results require incomplete coverage'']
          else if cv_diagnostic_ids (ar_coverage r) = []
          then [issue ''/coverage/diagnostic_ids'' ''semantic.incomplete_coverage_without_diagnostic''
                  ''failed results require an affected diagnostic'']
          else [])"

definition validateAnalyzerResultSemantics :: "platform \<Rightarrow> analyzer_result \<Rightarrow> validation_issue list" where
  "validateAnalyzerResultSemantics pf r =
     validateContractSnapshotSemantics pf (result_snapshot r (ar_reproducibility_fingerprint r)) @ status_issues r"

section \<open>Catalog errors\<close>

datatype catalog_error_code =
    INVALID_CATALOG_INPUT
  | INVALID_SNAPSHOT
  | SNAPSHOT_INELIGIBLE
  | UNKNOWN_ACCESS_SCOPE
  | SNAPSHOT_IDENTITY_CONFLICT
  | BRANCH_TARGET_INELIGIBLE
  | BRANCH_POINTER_STALE
  | BRANCH_POINTER_CONFLICT
  | CATALOG_BRANCH_LOCK_REQUIRED
  | CATALOG_NOT_FOUND_OR_DENIED
  | CATALOG_STORAGE_ERROR

fun catalog_message :: "catalog_error_code \<Rightarrow> string" where
  "catalog_message INVALID_CATALOG_INPUT = ''Catalog input is invalid''"
| "catalog_message INVALID_SNAPSHOT = ''Snapshot is invalid''"
| "catalog_message SNAPSHOT_INELIGIBLE = ''Snapshot is not eligible for catalog storage''"
| "catalog_message UNKNOWN_ACCESS_SCOPE = ''A required access scope is unavailable''"
| "catalog_message SNAPSHOT_IDENTITY_CONFLICT = ''Snapshot identity conflicts with stored content''"
| "catalog_message BRANCH_TARGET_INELIGIBLE = ''Branch target is not eligible''"
| "catalog_message BRANCH_POINTER_STALE = ''Branch pointer update is stale''"
| "catalog_message BRANCH_POINTER_CONFLICT = ''Branch pointer update conflicts with current state''"
| "catalog_message CATALOG_BRANCH_LOCK_REQUIRED = ''Catalog branch lock must be acquired before mutation''"
| "catalog_message CATALOG_NOT_FOUND_OR_DENIED = ''Catalog resource was not found or access was denied''"
| "catalog_message CATALOG_STORAGE_ERROR = ''Catalog storage operation failed''"

record catalog_issue =
  ci_path :: string
  ci_code :: string

record catalog_error =
  ce_code :: catalog_error_code
  ce_message :: string
  ce_retryable :: bool
  ce_issues :: "catalog_issue list option"

definition catalogError :: "catalog_error_code \<Rightarrow> catalog_issue list option \<Rightarrow> bool option \<Rightarrow> catalog_error" where
  "catalogError code issues retryable =
     \<lparr>ce_code = code, ce_message = catalog_message code,
      ce_retryable = (case retryable of Some r \<Rightarrow> r | None \<Rightarrow> code = CATALOG_STORAGE_ERROR), ce_issues = issues\<rparr>"

definition catalogValidationError :: "catalog_error_code \<Rightarrow> validation_issue list \<Rightarrow> catalog_error" where
  "catalogValidationError code issues =
     catalogError code (Some (map (\<lambda>i. \<lparr>ci_path = vi_path i, ci_code = vi_code i\<rparr>) issues)) None"

section \<open>Snapshots of results\<close>

definition canonicalScopeIds :: "string list \<Rightarrow> (catalog_error, string list) result" where
  "canonicalScopeIds values =
     (if values = [] \<or> [] \<in> set values then Inl (catalogError INVALID_CATALOG_INPUT None None)
      else Inr (canonicalStringSet values))"

record converted_snapshot =
  cn_snapshot :: contract_snapshot
  cn_requiredScopeIds :: "string list"
  cn_analyzerStatus :: result_status

text \<open>
  The shape verdicts, on a typed result and a typed snapshot. \<open>structuredClone\<close> copies the value,
  and on a typed value the input boundary catches nothing.
\<close>

record exchange_shapes =
  xs_result_shape :: "analyzer_result \<Rightarrow> validation_issue list"
  xs_snapshot_shape :: "contract_snapshot \<Rightarrow> validation_issue list"

definition checked_shape :: "('a \<Rightarrow> validation_issue list) \<Rightarrow> 'a \<Rightarrow> (validation_issue list, 'a) result" where
  "checked_shape shape v = (if shape v \<noteq> [] then Inl (shape v) else Inr v)"

definition contractSnapshotFromAnalyzerResult ::
  "platform \<Rightarrow> exchange_shapes \<Rightarrow> analyzer_result \<Rightarrow> string \<Rightarrow> (catalog_error, converted_snapshot) result" where
  "contractSnapshotFromAnalyzerResult pf xs result configFingerprint =
     (case parserFor (checked_shape (xs_result_shape xs)) (validateAnalyzerResultSemantics pf) result of
        Inl issues \<Rightarrow> Inl (catalogValidationError INVALID_SNAPSHOT issues)
      | Inr validatedResult \<Rightarrow>
          if ar_status validatedResult = ResultFailed then Inl (catalogError SNAPSHOT_INELIGIBLE None None)
          else and_then (canonicalScopeIds (src_access_label (ar_source validatedResult)
                           # map ev_access_label (ar_evidence validatedResult))) (\<lambda>requiredScopeIds.
            case parserFor (checked_shape (xs_snapshot_shape xs)) (validateContractSnapshotSemantics pf)
                   (result_snapshot validatedResult configFingerprint) of
              Inl issues \<Rightarrow> Inl (catalogValidationError INVALID_SNAPSHOT issues)
            | Inr snapshot \<Rightarrow> Inr \<lparr>cn_snapshot = snapshot, cn_requiredScopeIds = requiredScopeIds,
                cn_analyzerStatus = ar_status validatedResult\<rparr>))"


section \<open>What the catalog accepts\<close>

lemma checked_parser_Inr: "parserFor (checked_shape shape) semantic v = Inr w \<longleftrightarrow> w = v \<and> shape v = [] \<and> semantic v = []"
  by (auto simp: parserFor_Inr_iff checked_shape_def)

lemma canonicalScopeIds_Inr:
  "canonicalScopeIds values = Inr ids \<longleftrightarrow> values \<noteq> [] \<and> [] \<notin> set values \<and> ids = canonicalStringSet values"
  by (auto simp: canonicalScopeIds_def)

definition scope_labels :: "analyzer_result \<Rightarrow> string list" where
  "scope_labels r = src_access_label (ar_source r) # map ev_access_label (ar_evidence r)"

lemma contractSnapshot_Inr:
  "contractSnapshotFromAnalyzerResult pf xs r fingerprint = Inr c \<longleftrightarrow>
     xs_result_shape xs r = [] \<and> validateAnalyzerResultSemantics pf r = [] \<and> ar_status r \<noteq> ResultFailed
     \<and> [] \<notin> set (scope_labels r) \<and> xs_snapshot_shape xs (result_snapshot r fingerprint) = []
     \<and> validateContractSnapshotSemantics pf (result_snapshot r fingerprint) = []
     \<and> c = \<lparr>cn_snapshot = result_snapshot r fingerprint, cn_requiredScopeIds = canonicalStringSet (scope_labels r),
            cn_analyzerStatus = ar_status r\<rparr>" (is "?converted \<longleftrightarrow> ?accepted")
proof
  assume ?converted
  then obtain snapshot where "parserFor (checked_shape (xs_result_shape xs)) (validateAnalyzerResultSemantics pf) r = Inr r"
    "ar_status r \<noteq> ResultFailed" "canonicalScopeIds (scope_labels r) = Inr (canonicalStringSet (scope_labels r))"
    "parserFor (checked_shape (xs_snapshot_shape xs)) (validateContractSnapshotSemantics pf) (result_snapshot r fingerprint) = Inr snapshot"
    "c = \<lparr>cn_snapshot = snapshot, cn_requiredScopeIds = canonicalStringSet (scope_labels r), cn_analyzerStatus = ar_status r\<rparr>"
    by (auto simp: contractSnapshotFromAnalyzerResult_def scope_labels_def and_then_Inr_iff canonicalScopeIds_Inr
        checked_parser_Inr split: sum.splits if_splits)
  then show ?accepted by (simp add: checked_parser_Inr canonicalScopeIds_Inr)
next
  assume accepted: ?accepted
  then have "parserFor (checked_shape (xs_result_shape xs)) (validateAnalyzerResultSemantics pf) r = Inr r"
    "canonicalScopeIds (src_access_label (ar_source r) # map ev_access_label (ar_evidence r)) = Inr (canonicalStringSet (scope_labels r))"
    "parserFor (checked_shape (xs_snapshot_shape xs)) (validateContractSnapshotSemantics pf) (result_snapshot r fingerprint) =
      Inr (result_snapshot r fingerprint)"
    by (simp_all add: checked_parser_Inr canonicalScopeIds_Inr scope_labels_def)
  with accepted show ?converted by (simp add: contractSnapshotFromAnalyzerResult_def)
qed


lemma semantics_without_fingerprint:
  "validateContractSnapshotSemantics pf (result_snapshot r f) = validateContractSnapshotSemantics pf (result_snapshot r g)"
proof -
  define s where "s = result_snapshot r g"
  have "result_snapshot r f = s\<lparr>cs_config_fingerprint := f\<rparr>" by (simp add: s_def result_snapshot_def)
  moreover have "validateContractSnapshotSemantics pf (s\<lparr>cs_config_fingerprint := f\<rparr>) = validateContractSnapshotSemantics pf s"
        by (cases s) (simp only: validateContractSnapshotSemantics_def [abs_def] structuralIssues_def
        [abs_def] embeddedSchemaIssues_def [abs_def] schemaGraph_def [abs_def] snapshotSchemaRoots_def
        [abs_def] endpointIds_def [abs_def] evidenceIds_def [abs_def] claimIds_def [abs_def] diagnosticIds_def
        [abs_def] schemaIds_def [abs_def] securitySchemes_def [abs_def] idIssues_def [abs_def]
        routeKeyCounts_def [abs_def] routeIssues_def [abs_def] sourceIssues_def [abs_def] evidenceIssues_def
        [abs_def] identityIssues_def [abs_def] securityStateIssues_def [abs_def] find_evidence_def [abs_def]
        securityEvidenceIssues_def [abs_def] requestBodyIssues_def [abs_def] endpointIssues_def [abs_def]
        securitySchemeIssues_def [abs_def] schemaIssues_def [abs_def] claimIssues_def [abs_def]
        reviewIssues_def [abs_def] eligibilityIssues_def [abs_def] eligibleIssues_def [abs_def] basisIssues_def [abs_def] dependencyTargetExists_def [abs_def]
        dependencyIssues_def [abs_def] diagnosticIssues_def [abs_def] coverageIssues_def [abs_def]
        referenceIssues_def [abs_def]         contract_snapshot.select_convs contract_snapshot.update_convs)
  ultimately show ?thesis by (simp add: s_def)
qed

text \<open>
  C8: Whatever an analyzer result says that passed validation can be stored, and only that. The
  catalog converts a result exactly when the result is valid, did not fail, names no empty
  access label and has a snapshot of the right shape; the semantic check is not needed a second
  time, since it does not look at the fingerprint. The stored scopes are those of the source and
  of every piece of evidence, no more and no fewer, in canonical order; a success has complete
  coverage and a partial result incomplete coverage.
\<close>

theorem accepted_results_are_stored:
  "contractSnapshotFromAnalyzerResult pf xs r fingerprint = Inr c \<longleftrightarrow>
     xs_result_shape xs r = [] \<and> validateAnalyzerResultSemantics pf r = [] \<and> ar_status r \<noteq> ResultFailed
     \<and> [] \<notin> set (scope_labels r) \<and> xs_snapshot_shape xs (result_snapshot r fingerprint) = []
     \<and> cn_snapshot c = result_snapshot r fingerprint \<and> cn_analyzerStatus c = ar_status r
     \<and> sorted_wrt (<) (cn_requiredScopeIds c) \<and> set (cn_requiredScopeIds c) = set (scope_labels r)
     \<and> (ar_status r = ResultPartial \<longleftrightarrow> coverage_incomplete (cs_coverage (cn_snapshot c)))"
proof -
  have semantic: "validateContractSnapshotSemantics pf (result_snapshot r fingerprint) = []"
    if "validateAnalyzerResultSemantics pf r = []"
    using that semantics_without_fingerprint by (metis Nil_is_append_conv validateAnalyzerResultSemantics_def)
  have coverage: "ar_status r = ResultPartial \<longleftrightarrow> coverage_incomplete (ar_coverage r)"
    if "validateAnalyzerResultSemantics pf r = []" "ar_status r \<noteq> ResultFailed"
    using that by (auto simp: validateAnalyzerResultSemantics_def status_issues_def split: result_status.splits if_splits)
  have scopes: "sorted_wrt (<) ids \<and> set ids = set labels \<longleftrightarrow> ids = canonicalStringSet labels" for ids labels
    using canonicalStringSet_sorted [of labels, unfolded isCanonicalStringSet_iff] set_canonicalStringSet [of labels] strict_sorted_equal [of "canonicalStringSet labels" ids]
    by auto
  show ?thesis
    using semantic coverage scopes [of "cn_requiredScopeIds c" "scope_labels r"]
    by (cases c) (auto simp: contractSnapshot_Inr result_snapshot_def)
qed

end
