(* ===== verification/UpdExecute.thy ===== *)
theory UpdExecute
  imports UpdPlanner UpdDiff IrAnalyzer
begin

text \<open>
  \<open>packages/updates/src/execute.ts\<close>: a plan is executed against the base snapshot it was made
  for, by reuse or by one call of an analyzer, and the result is compared with the base. The
  analyzer is a parameter: a function from the request to what awaiting it does.
\<close>

section \<open>Values\<close>

text \<open>
  What \<open>Object.getOwnPropertyDescriptors\<close> shows of an argument: nothing when it is no object, an
  array or an object whose traps throw; otherwise all its own properties, an accessor as
  \<open>VAbsent\<close>.
\<close>

datatype own_properties = NoObject | OwnProperties "(string \<times> jsval) list"

datatype analyzer_outcome = AnalyzerReturns jsval | AnalyzerThrows thrown | AnalyzerPends

datatype analyzer_argument =
    NoAnalyzerObject
  | NoAnalyzeFunction
  | Analyzer "analyzer_request \<Rightarrow> analyzer_outcome"

record execution_input =
  xi_plan :: update_plan
  xi_request :: analyzer_request
  xi_base_snapshot :: contract_snapshot
  xi_config_fingerprint :: string

record execution_result =
  xr_plan :: update_plan
  xr_analyzer_result :: "analyzer_result option"
  xr_target_snapshot :: contract_snapshot
  xr_differences :: difference_set

record execution_expectation =
  xe_requestId :: string
  xe_source :: analyzer_source
  xe_analyzer :: analyzer_identity
  xe_exchangeVersion :: string
  xe_irVersion :: string
  xe_identityVersion :: string
  xe_configVersion :: string
  xe_configFingerprint :: string

text \<open>
  The shape verdicts on unknown values. The parsers of \<open>packages/ir\<close> do not look at a value
  before the third-party validator does, so they may throw (\<open>None\<close>).
\<close>

record execution_shapes = exchange_shapes +
  es_plan :: "jsval \<Rightarrow> (validation_issue list, update_plan) result"
  es_request :: "jsval \<Rightarrow> (validation_issue list, analyzer_request) result option"
  es_base :: "jsval \<Rightarrow> (validation_issue list, contract_snapshot) result option"
  es_result :: "jsval \<Rightarrow> (validation_issue list, analyzer_result) result option"
  es_differences :: difference_validators

definition comparison_shapes :: "'a execution_shapes_scheme \<Rightarrow> comparison_validators" where
  "comparison_shapes es =
     difference_validators.extend (es_differences es) \<lparr>cv_snapshot_shape = xs_snapshot_shape es\<rparr>"

section \<open>Errors\<close>

definition prefixedValidation :: "string \<Rightarrow> validation_issue list \<Rightarrow> validation_issue list" where
  "prefixedValidation prefix issues =
     map (\<lambda>c. issue (prefix @ (if vi_path c = ''/'' then '''' else vi_path c)) (vi_code c)
       ''nested update execution input is invalid'') issues"

definition throws_at :: "update_error_code \<Rightarrow> string \<Rightarrow> string \<Rightarrow> bool option \<Rightarrow> 'a run" where
  "throws_at code path issueCode retryable =
     Inl (Throws (ThrownUpdate (updateError code (Some [Candidate (Some path) (Some issueCode)]) retryable)))"

definition invalidInput :: "string \<Rightarrow> string \<Rightarrow> 'a run" where
  "invalidInput path code = throws_at INVALID_UPDATE_INPUT path code None"

definition mismatch :: "update_error_code \<Rightarrow> string \<Rightarrow> string \<Rightarrow> 'a run" where
  "mismatch code path issueCode = throws_at code path issueCode None"

definition executionFailure :: "string \<Rightarrow> string \<Rightarrow> 'a run" where
  "executionFailure path code = throws_at UPDATE_EXECUTION_FAILED path code (Some True)"

definition invalid_part :: "string \<Rightarrow> validation_issue list \<Rightarrow> 'a run" where
  "invalid_part prefix issues =
     Inl (Throws (ThrownUpdate (updateValidationError INVALID_UPDATE_INPUT (prefixedValidation prefix issues))))"

definition failed_part :: "string \<Rightarrow> validation_issue list \<Rightarrow> 'a run" where
  "failed_part prefix issues =
     Inl (Throws (ThrownUpdate (updateError UPDATE_EXECUTION_FAILED
       (Some (map (\<lambda>i. Candidate (Some (vi_path i)) (Some (vi_code i))) (prefixedValidation prefix issues))) (Some True))))"

section \<open>Reading the input\<close>

text \<open>\<open>detachedJson\<close> of a parsed value: \<open>canonicalJson\<close> throws on what is not plain JSON.\<close>

definition detachedJson :: "jsval \<Rightarrow> 'a \<Rightarrow> 'a run" where
  "detachedJson v parsed = (case serializeCanonical input_error v of Inl e \<Rightarrow> Inl e | Inr _ \<Rightarrow> Inr parsed)"

definition execution_keys :: "string list" where
  "execution_keys = [''plan'', ''request'', ''base_snapshot'', ''config_fingerprint'']"

definition exactKeys :: "(string \<times> jsval) list \<Rightarrow> string list \<Rightarrow> bool" where
  "exactKeys descriptors expected = (sort (map fst descriptors) = sort expected)"

definition parse_parts ::
  "platform \<Rightarrow> 'a execution_shapes_scheme \<Rightarrow> jsval \<Rightarrow> jsval \<Rightarrow> jsval \<Rightarrow> jsval \<Rightarrow> execution_input run" where
  "parse_parts pf es plan request base fingerprint =
     (case safeParserFor (es_plan es) (validatePlanSemantics pf) plan of
        Inl issues \<Rightarrow> invalid_part ''/plan'' issues
      | Inr parsedPlan \<Rightarrow>
          (case (es_request es request, es_base es base) of
             (Some parsedRequest, Some parsedBase) \<Rightarrow>
               (case parsedRequest of
                  Inl issues \<Rightarrow> invalid_part ''/request'' issues
                | Inr r \<Rightarrow>
                    (case parserFor (\<lambda>_. parsedBase) (validateContractSnapshotSemantics pf) () of
                       Inl issues \<Rightarrow> invalid_part ''/base_snapshot'' issues
                     | Inr b \<Rightarrow>
                         (case fingerprint of
                            VString f \<Rightarrow>
                              if f = [] then invalidInput ''/config_fingerprint'' ''shape.minLength''
                              else and_then (detachedJson plan parsedPlan) (\<lambda>p.
                                and_then (detachedJson request r) (\<lambda>r.
                                  and_then (detachedJson base b) (\<lambda>b. Inr
                                    \<lparr>xi_plan = p, xi_request = r, xi_base_snapshot = b, xi_config_fingerprint = f\<rparr>)))
                          | _ \<Rightarrow> invalidInput ''/config_fingerprint'' ''shape.minLength'')))
           | _ \<Rightarrow> invalidInput ''/'' ''shape.invalid_json_value''))"

definition parseExecutionInput ::
  "platform \<Rightarrow> 'a execution_shapes_scheme \<Rightarrow> own_properties \<Rightarrow> execution_input run" where
  "parseExecutionInput pf es value =
     (case value of
        NoObject \<Rightarrow> invalidInput ''/'' ''shape.type''
      | OwnProperties descriptors \<Rightarrow>
          if \<not> exactKeys descriptors execution_keys then invalidInput ''/'' ''shape.additionalProperties''
          else (case list_find (\<lambda>key. map_of descriptors key = Some VAbsent) execution_keys of
                  Some key \<Rightarrow> invalidInput (''/'' @ key) ''shape.type''
                | None \<Rightarrow>
                    parse_parts pf es (the (map_of descriptors ''plan'')) (the (map_of descriptors ''request''))
                      (the (map_of descriptors ''base_snapshot'')) (the (map_of descriptors ''config_fingerprint''))))"

fun analyzerFor :: "analyzer_argument \<Rightarrow> (analyzer_request \<Rightarrow> analyzer_outcome) run" where
  "analyzerFor NoAnalyzerObject = invalidInput ''/analyzer'' ''shape.type''"
| "analyzerFor NoAnalyzeFunction = invalidInput ''/analyzer/analyze'' ''shape.type''"
| "analyzerFor (Analyzer analyze) = Inr analyze"

section \<open>Agreement of plan, base and request\<close>

definition agrees :: "json \<Rightarrow> json \<Rightarrow> bool" where
  "agrees left right = (canonicalJson left = canonicalJson right)"

definition isContainedManifestPath :: "string \<Rightarrow> string \<Rightarrow> bool" where
  "isContainedManifestPath serviceRoot path =
     (normalized_project_path path \<and> path \<noteq> ''.'' \<and> (serviceRoot = ''.'' \<or> starts_with path (serviceRoot @ ''/'')))"

definition documentProfiles :: "string list" where
  "documentProfiles = [''nodejs-swagger2-document@0.15.0'', ''openapi3-document@0.2.0'', ''openapi31-document@0.1.0'']"

definition isDocumentProfile :: "analyzer_request \<Rightarrow> bool" where
  "isDocumentProfile request =
     (aq_ir_version request = ''1.1.0''
      \<and> an_analyzer_id (aq_analyzer request) @ ''@'' @ an_analyzer_version (aq_analyzer request) \<in> set documentProfiles)"

definition full_analysis_modes :: "execution_input \<Rightarrow> bool" where
  "full_analysis_modes i \<longleftrightarrow>
     pc_action (xi_plan i) = AnalyzeFullService \<and> pc_extraction_mode (xi_plan i) = Some FallbackFullService
     \<and> aq_extraction_mode (xi_request i) = FallbackMode"

definition inputs_mismatch :: "string \<Rightarrow> 'a run" where
  "inputs_mismatch path = mismatch UPDATE_SCOPE_MISMATCH path ''semantic.scope_mismatch''"

text \<open>The loop over the manifests after the source tree; \<open>seen\<close> holds the keys met so far.\<close>

fun manifest_inputs :: "string \<Rightarrow> nat \<Rightarrow> string list \<Rightarrow> analysis_input list \<Rightarrow> unit run" where
  "manifest_inputs root index seen [] = Inr ()"
| "manifest_inputs root index seen (candidate # rest) =
     (case candidate of
        PathInput TypeManifest path digest \<Rightarrow>
          if \<not> isContainedManifestPath root path \<or> \<not> canonicalSha256 digest
            \<or> (''type_manifest'' @ [CHR 0x00] @ path) \<in> set seen
          then inputs_mismatch (at ''/request/resolution_inputs'' index)
          else manifest_inputs root (index + 1) (set_add (''type_manifest'' @ [CHR 0x00] @ path) seen) rest
      | _ \<Rightarrow> inputs_mismatch (at ''/request/resolution_inputs'' index))"

definition document_input :: "execution_input \<Rightarrow> analysis_input list \<Rightarrow> bool" where
  "document_input i inputs \<longleftrightarrow>
     (case inputs of
        [PathInput TypeManifest path digest] \<Rightarrow>
          isContainedManifestPath (ps_service_root (pc_service (xi_plan i))) path \<and> canonicalSha256 digest
          \<and> digest = ps_target_source_digest (pc_service (xi_plan i))
          \<and> list_all (\<lambda>changed. changed = path) (pc_changed_paths (xi_plan i)) \<and> full_analysis_modes i
      | _ \<Rightarrow> False)"

definition validateResolutionInputs :: "execution_input \<Rightarrow> unit run" where
  "validateResolutionInputs i =
     (let service = pc_service (xi_plan i); inputs = aq_resolution_inputs (xi_request i) in
      if isDocumentProfile (xi_request i)
      then if document_input i inputs then Inr () else inputs_mismatch ''/request/resolution_inputs''
      else if take 1 inputs \<noteq> [PathInput SourceTree (ps_service_root service) (ps_target_source_digest service)]
      then inputs_mismatch ''/request/resolution_inputs''
      else if length inputs = 1 then Inr ()
      else if 17 < length inputs \<or> \<not> full_analysis_modes i then inputs_mismatch ''/request/resolution_inputs''
      else manifest_inputs (ps_service_root service) 1 [''source_tree'' @ [CHR 0x00] @ ps_service_root service] (tl inputs))"


text \<open>\<open>validateBaseAgreement\<close>: the checks on the scope in their order, then the analysis.\<close>

definition scope_checks :: "plan_service \<Rightarrow> contract_snapshot \<Rightarrow> (string \<times> bool) list" where
  "scope_checks service base =
     [(''/base_snapshot/snapshot_id'', cs_snapshot_id base = ps_base_snapshot_id service),
      (''/base_snapshot/service/repository_id'', sv_repository_id (cs_service base) = ps_repository_id service),
      (''/base_snapshot/service/service_id'', sv_service_id (cs_service base) = ps_service_id service),
      (''/base_snapshot/service/root'', sv_root (cs_service base) = ps_service_root service),
      (''/base_snapshot/source/immutable_revision'', sr_immutable_revision (cs_source base) = ps_base_revision service),
      (''/base_snapshot/source/source_digest'', sr_source_digest (cs_source base) = ps_base_source_digest service)]"

definition validateBaseAgreement :: "execution_input \<Rightarrow> unit run" where
  "validateBaseAgreement i =
     (let plan = xi_plan i; base = xi_base_snapshot i in
      case list_find (\<lambda>(path, holds). \<not> holds) (scope_checks (pc_service plan) base) of
        Some (path, _) \<Rightarrow> mismatch UPDATE_SCOPE_MISMATCH path ''semantic.scope_mismatch''
      | None \<Rightarrow>
          if \<not> agrees (snapshot_analysis_json base) (recorded_analysis_json (pc_analysis_base plan))
          then mismatch UPDATE_ANALYSIS_MISMATCH ''/base_snapshot'' ''semantic.analysis_mismatch''
          else Inr ())"

definition source_scope_json :: "analyzer_source \<Rightarrow> json" where
  "source_scope_json s = JObj
     [(''repository_id'', JStr (src_repository_id s)), (''service_id'', JStr (src_service_id s)),
      (''service_root'', JStr (src_service_root s)), (''immutable_revision'', JStr (src_immutable_revision s)),
      (''source_digest'', JStr (src_source_digest s))]"

definition planned_scope_json :: "plan_service \<Rightarrow> json" where
  "planned_scope_json s = JObj
     [(''repository_id'', JStr (ps_repository_id s)), (''service_id'', JStr (ps_service_id s)),
      (''service_root'', JStr (ps_service_root s)), (''immutable_revision'', JStr (ps_target_revision s)),
      (''source_digest'', JStr (ps_target_source_digest s))]"

definition validateRequestAgreement :: "execution_input \<Rightarrow> unit run" where
  "validateRequestAgreement i =
     (let plan = xi_plan i; request = xi_request i; target = pc_analysis_target plan in
      if \<not> agrees (source_scope_json (aq_source request)) (planned_scope_json (pc_service plan))
      then mismatch UPDATE_SCOPE_MISMATCH ''/request/source'' ''semantic.scope_mismatch''
      else and_then (validateResolutionInputs i) (\<lambda>_.
        if \<not> agrees (analyzer_json (aq_analyzer request)) (analyzer_json (ak_analyzer target))
          \<or> aq_exchange_version request \<noteq> ak_analyzer_exchange_version target
          \<or> aq_ir_version request \<noteq> ak_ir_version target
          \<or> ak_identity_version target \<noteq> IDENTITY_VERSION
          \<or> ak_config_version target \<noteq> CONFIG_VERSION
          \<or> xi_config_fingerprint i \<noteq> ak_config_fingerprint target
        then mismatch UPDATE_ANALYSIS_MISMATCH ''/request'' ''semantic.analysis_mismatch''
        else if \<not> agrees (strings_json (aq_changed_paths request)) (strings_json (pc_changed_paths plan))
        then mismatch UPDATE_ANALYSIS_MISMATCH ''/request/changed_paths'' ''semantic.analysis_mismatch''
        else if pc_action plan = AnalyzeFullService
          \<and> (pc_extraction_mode plan \<noteq> Some FallbackFullService \<or> aq_extraction_mode request \<noteq> FallbackMode)
        then mismatch UPDATE_ANALYSIS_MISMATCH ''/request/extraction_mode'' ''semantic.action_mode_mismatch''
        else Inr ()))"

section \<open>The analyzer's result\<close>

definition analyzer_source_json :: "analyzer_source \<Rightarrow> json" where
  "analyzer_source_json s = JObj
     [(''repository_id'', JStr (src_repository_id s)), (''service_id'', JStr (src_service_id s)),
      (''service_root'', JStr (src_service_root s)), (''immutable_revision'', JStr (src_immutable_revision s)),
      (''source_digest'', JStr (src_source_digest s)), (''access_label'', JStr (src_access_label s))]"

definition executionExpectation :: "execution_input \<Rightarrow> execution_expectation" where
  "executionExpectation i =
     (let service = pc_service (xi_plan i); target = pc_analysis_target (xi_plan i) in
      \<lparr>xe_requestId = aq_request_id (xi_request i),
       xe_source = \<lparr>src_repository_id = ps_repository_id service, src_service_id = ps_service_id service,
         src_service_root = ps_service_root service, src_immutable_revision = ps_target_revision service,
         src_source_digest = ps_target_source_digest service,
         src_access_label = src_access_label (aq_source (xi_request i))\<rparr>,
       xe_analyzer = ak_analyzer target, xe_exchangeVersion = ak_analyzer_exchange_version target,
       xe_irVersion = ak_ir_version target, xe_identityVersion = ak_identity_version target,
       xe_configVersion = ak_config_version target, xe_configFingerprint = ak_config_fingerprint target\<rparr>)"

definition validateResultAgreement :: "analyzer_result \<Rightarrow> execution_expectation \<Rightarrow> unit run" where
  "validateResultAgreement result expected =
     (if ar_status result = ResultFailed
      then executionFailure ''/analyzer_result/status'' ''semantic.ineligible_evidence''
      else if ar_request_id result \<noteq> xe_requestId expected
      then executionFailure ''/analyzer_result/request_id'' ''semantic.analysis_mismatch''
      else if \<not> agrees (analyzer_json (ar_analyzer result)) (analyzer_json (xe_analyzer expected))
        \<or> ar_exchange_version result \<noteq> xe_exchangeVersion expected
        \<or> ar_ir_version result \<noteq> xe_irVersion expected
        \<or> ar_identity_version result \<noteq> xe_identityVersion expected
      then executionFailure ''/analyzer_result'' ''semantic.analysis_mismatch''
      else if \<not> agrees (analyzer_source_json (ar_source result)) (analyzer_source_json (xe_source expected))
      then executionFailure ''/analyzer_result/source'' ''semantic.scope_mismatch''
      else Inr ())"

definition parsedAnalyzerResult ::
  "platform \<Rightarrow> 'a execution_shapes_scheme \<Rightarrow> jsval \<Rightarrow> analyzer_result run" where
  "parsedAnalyzerResult pf es value =
     (case es_result es value of
        None \<Rightarrow> executionFailure ''/analyzer_result'' ''shape.invalid_json_value''
      | Some shaped \<Rightarrow>
          (case parserFor (\<lambda>_. shaped) (validateAnalyzerResultSemantics pf) () of
             Inl issues \<Rightarrow> failed_part ''/analyzer_result'' issues
           | Inr result \<Rightarrow> detachedJson value result))"

definition parsedTargetSnapshot ::
  "platform \<Rightarrow> 'a execution_shapes_scheme \<Rightarrow> contract_snapshot \<Rightarrow> contract_snapshot run" where
  "parsedTargetSnapshot pf es snapshot =
     (case parserFor (checked_shape (xs_snapshot_shape es)) (validateContractSnapshotSemantics pf) snapshot of
        Inl issues \<Rightarrow> failed_part ''/target_snapshot'' issues
      | Inr target \<Rightarrow> Inr target)"

text \<open>The snapshot of the result; an error of the catalog becomes an execution error.\<close>

definition target_snapshot_of ::
  "platform \<Rightarrow> 'a execution_shapes_scheme \<Rightarrow> analyzer_result \<Rightarrow> string \<Rightarrow> contract_snapshot run" where
  "target_snapshot_of pf es result configFingerprint =
     (case contractSnapshotFromAnalyzerResult pf (exchange_shapes.truncate es) result configFingerprint of
        Inl _ \<Rightarrow> Inl (Throws (ThrownUpdate updateExecutionError))
      | Inr converted \<Rightarrow> parsedTargetSnapshot pf es (cn_snapshot converted))"

definition target_agrees :: "contract_snapshot \<Rightarrow> execution_expectation \<Rightarrow> bool" where
  "target_agrees target expected \<longleftrightarrow>
     agrees (analyzer_json (cs_analyzer target)) (analyzer_json (xe_analyzer expected))
     \<and> cs_ir_version target = xe_irVersion expected
     \<and> cs_identity_version target = xe_identityVersion expected
     \<and> sv_repository_id (cs_service target) = src_repository_id (xe_source expected)
     \<and> sv_service_id (cs_service target) = src_service_id (xe_source expected)
     \<and> sv_root (cs_service target) = src_service_root (xe_source expected)
     \<and> sr_immutable_revision (cs_source target) = src_immutable_revision (xe_source expected)
     \<and> sr_source_digest (cs_source target) = src_source_digest (xe_source expected)
     \<and> cs_config_version target = xe_configVersion expected
     \<and> cs_config_fingerprint target = xe_configFingerprint expected"

section \<open>Execution\<close>

definition empty_content :: "contract_snapshot \<Rightarrow> difference_set_content" where
  "empty_content snapshot =
     \<lparr>dc_contract_difference_version = CONTRACT_DIFFERENCE_VERSION,
      dc_service_id = sv_service_id (cs_service snapshot),
      dc_base = snapshot_reference_of snapshot, dc_target = snapshot_reference_of snapshot,
      dc_comparison_status = ComparisonComplete, dc_incomplete_reason_codes = [], dc_differences = []\<rparr>"

definition emptyDifferenceSet :: "platform \<Rightarrow> 'a execution_shapes_scheme \<Rightarrow> contract_snapshot \<Rightarrow> difference_set run" where
  "emptyDifferenceSet pf es snapshot =
     (case parseContractDifferenceSet pf (es_differences es) (with_set_id pf (empty_content snapshot)) of
        Inl _ \<Rightarrow> executionFailure ''/differences'' ''semantic.identity_mismatch''
      | Inr dset \<Rightarrow> Inr dset)"

text \<open>The request the analyzer is called with.\<close>

definition sent_request :: "execution_input \<Rightarrow> analyzer_request" where
  "sent_request i =
     (xi_request i)\<lparr>aq_changed_paths := pc_changed_paths (xi_plan i), aq_extraction_mode := FallbackMode\<rparr>"

fun await_analyzer :: "analyzer_outcome \<Rightarrow> jsval run" where
  "await_analyzer (AnalyzerReturns v) = Inr v"
| "await_analyzer (AnalyzerThrows _) = Inl (Throws (ThrownUpdate updateExecutionError))"
| "await_analyzer AnalyzerPends = Inl NeverReturns"

definition execute_reuse ::
  "platform \<Rightarrow> 'a execution_shapes_scheme \<Rightarrow> execution_input \<Rightarrow> execution_result run" where
  "execute_reuse pf es i =
     (let base = xi_base_snapshot i in
      if coverage_incomplete (cs_coverage base)
      then mismatch UPDATE_ANALYSIS_MISMATCH ''/plan/action'' ''semantic.action_mode_mismatch''
      else and_then (emptyDifferenceSet pf es base) (\<lambda>differences. Inr
        \<lparr>xr_plan = xi_plan i, xr_analyzer_result = None, xr_target_snapshot = base, xr_differences = differences\<rparr>))"

definition execute_analysis ::
  "platform \<Rightarrow> 'a execution_shapes_scheme \<Rightarrow> (analyzer_request \<Rightarrow> analyzer_outcome) \<Rightarrow> execution_input \<Rightarrow>
   execution_result run" where
  "execute_analysis pf es analyze i =
     (let expected = executionExpectation i in
      and_then (await_analyzer (analyze (sent_request i))) (\<lambda>rawResult.
      and_then (parsedAnalyzerResult pf es rawResult) (\<lambda>result.
      and_then (validateResultAgreement result expected) (\<lambda>_.
      and_then (target_snapshot_of pf es result (xi_config_fingerprint i)) (\<lambda>target.
      if \<not> target_agrees target expected
      then executionFailure ''/target_snapshot/config'' ''semantic.analysis_mismatch''
      else and_then (compareContractSnapshots pf (comparison_shapes es) (xi_base_snapshot i) target) (\<lambda>differences. Inr
        \<lparr>xr_plan = xi_plan i, xr_analyzer_result = Some result, xr_target_snapshot = target,
         xr_differences = differences\<rparr>))))))"

definition executeUpdate ::
  "platform \<Rightarrow> 'a execution_shapes_scheme \<Rightarrow> own_properties \<Rightarrow> analyzer_argument \<Rightarrow> execution_result run" where
  "executeUpdate pf es value analyzerValue =
     and_then (parseExecutionInput pf es value) (\<lambda>i.
     and_then (analyzerFor analyzerValue) (\<lambda>analyze.
     and_then (validateBaseAgreement i) (\<lambda>_.
     and_then (validateRequestAgreement i) (\<lambda>_.
     case pc_action (xi_plan i) of
       ReuseBaseSnapshot \<Rightarrow> execute_reuse pf es i
     | AnalyzeFullService \<Rightarrow> execute_analysis pf es analyze i))))"


section \<open>Agreement\<close>

lemma json_get_agree:
  assumes "agrees a b" "wf_json a" "wf_json b" "is_object a" "is_object b"
  shows "map_option json_normal (jget k a) = map_option json_normal (jget k b)"
  by (rule canonicalJson_get [OF assms(1) [unfolded agrees_def] assms(2-5)])

lemma agrees_analyzer [simp]: "agrees (analyzer_json a) (analyzer_json b) \<longleftrightarrow> a = b"
proof
  assume "agrees (analyzer_json a) (analyzer_json b)"
  then have "json_normal (analyzer_json a) = json_normal (analyzer_json b)"
    unfolding agrees_def by (subst (asm) canonicalJson_eq_iff) (simp_all add: analyzer_json_def)
  then show "a = b" by (simp add: analyzer_json_eq)
qed (simp add: agrees_def)

lemma agrees_strings [simp]: "agrees (strings_json xs) (strings_json ys) \<longleftrightarrow> xs = ys"
  by (simp add: agrees_def)

lemma agrees_recorded [simp]: "agrees (snapshot_analysis_json s) (recorded_analysis_json k) \<longleftrightarrow> recorded_agrees s k"
  by (simp add: agrees_def recorded_analysis_eq)

lemma agrees_scope [simp]:
  "agrees (source_scope_json s) (planned_scope_json p) \<longleftrightarrow>
     src_repository_id s = ps_repository_id p \<and> src_service_id s = ps_service_id p \<and> src_service_root s = ps_service_root p
     \<and> src_immutable_revision s = ps_target_revision p \<and> src_source_digest s = ps_target_source_digest p"
proof
  assume eq: "agrees (source_scope_json s) (planned_scope_json p)"
  note get = json_get_agree [OF eq]
  have "wf_json (source_scope_json s)" "wf_json (planned_scope_json p)" "is_object (source_scope_json s)"
    "is_object (planned_scope_json p)" by (simp_all add: source_scope_json_def planned_scope_json_def)
  note get = get [OF this]
  from get [of "''repository_id''"] get [of "''service_id''"] get [of "''service_root''"] get [of "''immutable_revision''"]
    get [of "''source_digest''"]
  show "src_repository_id s = ps_repository_id p \<and> src_service_id s = ps_service_id p \<and> src_service_root s = ps_service_root p
     \<and> src_immutable_revision s = ps_target_revision p \<and> src_source_digest s = ps_target_source_digest p"
    by (simp add: source_scope_json_def planned_scope_json_def)
qed (simp add: agrees_def source_scope_json_def planned_scope_json_def)

lemma agrees_source [simp]: "agrees (analyzer_source_json a) (analyzer_source_json b) \<longleftrightarrow> a = b"
proof
  assume eq: "agrees (analyzer_source_json a) (analyzer_source_json b)"
  have "wf_json (analyzer_source_json s)" "is_object (analyzer_source_json s)" for s
    by (simp_all add: analyzer_source_json_def)
  note get = json_get_agree [OF eq this(1,1,2,2)]
  from get [of "''repository_id''"] get [of "''service_id''"] get [of "''service_root''"] get [of "''immutable_revision''"]
    get [of "''source_digest''"] get [of "''access_label''"]
  show "a = b" by (cases a; cases b) (simp add: analyzer_source_json_def)
qed (simp add: agrees_def)

text \<open>What the two validations let through.\<close>

lemmas refusals = mismatch_def inputs_mismatch_def executionFailure_def invalidInput_def throws_at_def
  invalid_part_def failed_part_def

definition base_agrees :: "update_plan \<Rightarrow> contract_snapshot \<Rightarrow> bool" where
  "base_agrees plan base \<longleftrightarrow>
     cs_snapshot_id base = ps_base_snapshot_id (pc_service plan)
     \<and> sv_repository_id (cs_service base) = ps_repository_id (pc_service plan)
     \<and> sv_service_id (cs_service base) = ps_service_id (pc_service plan)
     \<and> sv_root (cs_service base) = ps_service_root (pc_service plan)
     \<and> sr_immutable_revision (cs_source base) = ps_base_revision (pc_service plan)
     \<and> sr_source_digest (cs_source base) = ps_base_source_digest (pc_service plan)
     \<and> recorded_agrees base (pc_analysis_base plan)"

lemma validateBaseAgreement_Inr:
  "validateBaseAgreement i = Inr () \<longleftrightarrow> base_agrees (xi_plan i) (xi_base_snapshot i)"
  by (auto simp: validateBaseAgreement_def Let_def scope_checks_def base_agrees_def refusals)

lemma validateRequestAgreement_Inr:
  "validateRequestAgreement i = Inr () \<longleftrightarrow>
     agrees (source_scope_json (aq_source (xi_request i))) (planned_scope_json (pc_service (xi_plan i)))
     \<and> validateResolutionInputs i = Inr ()
     \<and> aq_analyzer (xi_request i) = ak_analyzer (pc_analysis_target (xi_plan i))
     \<and> aq_exchange_version (xi_request i) = ak_analyzer_exchange_version (pc_analysis_target (xi_plan i))
     \<and> aq_ir_version (xi_request i) = ak_ir_version (pc_analysis_target (xi_plan i))
     \<and> ak_identity_version (pc_analysis_target (xi_plan i)) = IDENTITY_VERSION
     \<and> ak_config_version (pc_analysis_target (xi_plan i)) = CONFIG_VERSION
     \<and> xi_config_fingerprint i = ak_config_fingerprint (pc_analysis_target (xi_plan i))
     \<and> aq_changed_paths (xi_request i) = pc_changed_paths (xi_plan i)
     \<and> (pc_action (xi_plan i) = AnalyzeFullService \<longrightarrow> full_analysis_modes i)"
  by (auto simp: validateRequestAgreement_def Let_def and_then_Inr_iff full_analysis_modes_def refusals
      simp del: agrees_scope split: if_splits)

lemma validateResultAgreement_Inr:
  "validateResultAgreement r (executionExpectation i) = Inr () \<longleftrightarrow>
     ar_status r \<noteq> ResultFailed \<and> ar_request_id r = aq_request_id (xi_request i)
     \<and> ar_analyzer r = ak_analyzer (pc_analysis_target (xi_plan i))
     \<and> ar_exchange_version r = ak_analyzer_exchange_version (pc_analysis_target (xi_plan i))
     \<and> ar_ir_version r = ak_ir_version (pc_analysis_target (xi_plan i))
     \<and> ar_identity_version r = ak_identity_version (pc_analysis_target (xi_plan i))
     \<and> ar_source r = xe_source (executionExpectation i)"
  by (auto simp: validateResultAgreement_def executionExpectation_def Let_def refusals split: if_splits)


lemma empty_set_valid:
  "parseContractDifferenceSet pf dv (with_set_id pf (empty_content s)) = Inr d \<longleftrightarrow>
     dv_set_shape dv (with_set_id pf (empty_content s)) = [] \<and> d = with_set_id pf (empty_content s)"
proof -
  let ?d = "with_set_id pf (empty_content s)"
  have parts: "dc_differences ?d = []" "dc_incomplete_reason_codes ?d = []" "dc_comparison_status ?d = ComparisonComplete"
    "dc_difference_set_id ?d = difference_set_id_of pf (empty_content s)"
    by (simp_all add: with_set_id_def empty_content_def difference_set_content.defs)
  have "difference_set_id_of pf ?d = difference_set_id_of pf (empty_content s)"
    by (simp add: difference_set_id_of_def with_set_id_def difference_set_json_def difference_set_content.defs)
  then have "validateDifferenceSetSemantics pf (dv_projection dv) ?d = Some []"
    by (simp add: validateDifferenceSetSemantics_def setHeaderIssues_def append_opt_def parts isCanonicalBy_def)
  then show ?thesis by (auto simp: parseContractDifferenceSet_Inr)
qed

lemma emptyDifferenceSet_Inr:
  "emptyDifferenceSet pf es s = Inr d \<longleftrightarrow>
     dv_set_shape (es_differences es) (with_set_id pf (empty_content s)) = [] \<and> d = with_set_id pf (empty_content s)"
  unfolding empty_set_valid [symmetric] by (auto simp: emptyDifferenceSet_def refusals split: sum.splits)


section \<open>A comparison of a snapshot with itself\<close>

lemma continuous_with_itself: "discontinuousEndpointIds s s = []"
proof -
  have "map_get (keyed ep_endpoint_id (cs_endpoints s)) i = Some e" if "(i, e) \<in> set (keyed ep_endpoint_id (cs_endpoints s))" for i e
    using that by simp
  then show ?thesis by (auto simp: discontinuousEndpointIds_def Let_def filter_empty_conv split: option.splits)
qed

lemma same_contract_refl: "same_contract s s"
proof -
  have "same_endpoint s s e e" for e by (simp add: same_endpoint_def)
  then have "rel_option (same_endpoint s s) x x" for x by (cases x) auto
  moreover have "claim_trace [] ''base'' = claim_trace [] ''target''"
    by (intro ext) (simp add: claim_trace_def claim_group_key_def split: option.split)
  ultimately show ?thesis
    unfolding same_contract_def claim_traces_def continuous_with_itself by simp
qed

text \<open>
  C6: Reuse takes no short cut: whenever comparing a snapshot of complete coverage with itself
  returns at all, it returns exactly the empty difference set that the executor builds for a
  reused snapshot, identifier included, and the executor returns it.
\<close>

theorem reuse_is_comparison_with_itself:
  assumes "compareContractSnapshots pf (comparison_shapes es) base base = Inr differences"
    and "\<not> coverage_incomplete (cs_coverage base)"
  shows "emptyDifferenceSet pf es base = Inr differences \<and> dc_differences differences = []"
proof -
  obtain b t drafts where steps: "validateSnapshot pf (comparison_shapes es) base ''/base_snapshot'' = Inr b"
      "validateSnapshot pf (comparison_shapes es) base ''/target_snapshot'' = Inr t" "comparison_drafts b t = Inr drafts"
    and parsed': "parseContractDifferenceSet pf (difference_validators.truncate (comparison_shapes es))
      (with_set_id pf (set_content pf b t drafts)) = Inr differences"
    using assms(1) by (auto simp: compareContractSnapshots_def and_then_Inr_iff reject_or_return split: if_split_asm)
  have "b = base" "t = base" using steps(1,2) validateSnapshot_Inr by metis+
  then have drafts: "comparison_drafts base base = Inr drafts"
    and parsed: "parseContractDifferenceSet pf (difference_validators.truncate (comparison_shapes es))
      (with_set_id pf (set_content pf base base drafts)) = Inr differences"
    using steps(3) parsed' by simp_all
  have nil: "drafts = []" using comparison_drafts_Nil [OF drafts] same_contract_refl by blast
  have "set_content pf base base [] = empty_content base"
    using assms(2) by (simp add: set_content_def empty_content_def incompleteReasons_def sortDifferences_def js_sort_def)
  moreover have "difference_validators.truncate (comparison_shapes es) = es_differences es"
    by (simp add: comparison_shapes_def difference_validators.defs)
  ultimately show ?thesis
    using parsed empty_set_valid [of pf "es_differences es" base differences]
    unfolding nil by (simp add: emptyDifferenceSet_def) (simp add: with_set_id_def empty_content_def difference_set_content.defs)
qed

section \<open>Properties of an execution\<close>

lemma target_snapshot_of_Inr:
  "target_snapshot_of pf es r fingerprint = Inr target \<Longrightarrow>
     target = result_snapshot r fingerprint \<and> validateContractSnapshotSemantics pf target = []"
  by (auto simp: target_snapshot_of_def parsedTargetSnapshot_def checked_parser_Inr contractSnapshot_Inr refusals
      split: sum.splits)

lemma executeUpdate_Inr:
  assumes "executeUpdate pf es value analyzer = Inr r"
  obtains i analyze where "parseExecutionInput pf es value = Inr i" "analyzer = Analyzer analyze"
    "base_agrees (xi_plan i) (xi_base_snapshot i)" "validateRequestAgreement i = Inr ()"
    "if pc_action (xi_plan i) = ReuseBaseSnapshot then execute_reuse pf es i = Inr r else execute_analysis pf es analyze i = Inr r"
proof -
  obtain i analyze where "parseExecutionInput pf es value = Inr i" "analyzerFor analyzer = Inr analyze"
    "validateBaseAgreement i = Inr ()" "validateRequestAgreement i = Inr ()"
    "(case pc_action (xi_plan i) of ReuseBaseSnapshot \<Rightarrow> execute_reuse pf es i
      | AnalyzeFullService \<Rightarrow> execute_analysis pf es analyze i) = Inr r"
    using assms by (auto simp: executeUpdate_def and_then_Inr_iff)
  then show ?thesis
    by (intro that [of i analyze])
      (auto simp: validateBaseAgreement_Inr refusals elim: analyzerFor.elims split: plan_action.splits)
qed

lemma parsed_plan_valid:
  "parseExecutionInput pf es value = Inr i \<Longrightarrow> validatePlanSemantics pf (xi_plan i) = []
    \<and> validateContractSnapshotSemantics pf (xi_base_snapshot i) = []"
  by (auto simp: parseExecutionInput_def parse_parts_def parserFor_Inr_iff and_then_Inr_iff detachedJson_def refusals
      dest!: safeParserFor_Inr
      split: own_properties.splits if_splits option.splits sum.splits jsval.splits)

text \<open>A plan that reuses says that source and analysis did not change.\<close>

lemma reuse_plan_unchanged:
  "validatePlanSemantics pf plan = [] \<Longrightarrow> pc_action plan = ReuseBaseSnapshot \<Longrightarrow>
    ps_base_source_digest (pc_service plan) = ps_target_source_digest (pc_service plan)
    \<and> pc_analysis_base plan = pc_analysis_target plan"
  by (auto simp: validatePlanSemantics_def reuseIssues_def split: if_splits)


lemma execute_reuse_Inr:
  "execute_reuse pf es i = Inr r \<longleftrightarrow>
     \<not> coverage_incomplete (cs_coverage (xi_base_snapshot i))
     \<and> dv_set_shape (es_differences es) (with_set_id pf (empty_content (xi_base_snapshot i))) = []
     \<and> r = \<lparr>xr_plan = xi_plan i, xr_analyzer_result = None, xr_target_snapshot = xi_base_snapshot i,
            xr_differences = with_set_id pf (empty_content (xi_base_snapshot i))\<rparr>"
  by (auto simp: execute_reuse_def Let_def and_then_Inr_iff emptyDifferenceSet_Inr refusals)

lemma execute_analysis_Inr:
  assumes "execute_analysis pf es analyze i = Inr r"
  obtains raw result differences where "analyze (sent_request i) = AnalyzerReturns raw"
    "parsedAnalyzerResult pf es raw = Inr result" "validateResultAgreement result (executionExpectation i) = Inr ()"
    "target_agrees (result_snapshot result (xi_config_fingerprint i)) (executionExpectation i)"
    "validateContractSnapshotSemantics pf (result_snapshot result (xi_config_fingerprint i)) = []"
    "compareContractSnapshots pf (comparison_shapes es) (xi_base_snapshot i)
       (result_snapshot result (xi_config_fingerprint i)) = Inr differences"
    "r = \<lparr>xr_plan = xi_plan i, xr_analyzer_result = Some result,
       xr_target_snapshot = result_snapshot result (xi_config_fingerprint i), xr_differences = differences\<rparr>"
proof -
  have await: "await_analyzer out = Inr raw \<longleftrightarrow> out = AnalyzerReturns raw" for out raw by (cases out) auto
  obtain raw result target differences where run: "analyze (sent_request i) = AnalyzerReturns raw"
    "parsedAnalyzerResult pf es raw = Inr result" "validateResultAgreement result (executionExpectation i) = Inr ()"
    "target_snapshot_of pf es result (xi_config_fingerprint i) = Inr target"
    "target_agrees target (executionExpectation i)"
    "compareContractSnapshots pf (comparison_shapes es) (xi_base_snapshot i) target = Inr differences"
    "r = \<lparr>xr_plan = xi_plan i, xr_analyzer_result = Some result, xr_target_snapshot = target, xr_differences = differences\<rparr>"
    using assms by (auto simp: execute_analysis_def Let_def and_then_Inr_iff await refusals split: if_split_asm)
  with target_snapshot_of_Inr [OF run(4)] that show ?thesis by blast
qed

text \<open>The target is what the plan was made for.\<close>

definition planned_target :: "update_plan \<Rightarrow> contract_snapshot \<Rightarrow> bool" where
  "planned_target plan target \<longleftrightarrow>
     sv_repository_id (cs_service target) = ps_repository_id (pc_service plan)
     \<and> sv_service_id (cs_service target) = ps_service_id (pc_service plan)
     \<and> sv_root (cs_service target) = ps_service_root (pc_service plan)
     \<and> sr_source_digest (cs_source target) = ps_target_source_digest (pc_service plan)
     \<and> recorded_agrees target (pc_analysis_target plan)"

text \<open>
  C4: An executed update is the planned one. The base is the snapshot the plan was made for; the
  target is a valid snapshot of the planned service, source digest and analysis; a reuse returns
  the base itself, of complete coverage, with no difference and without an analyzer; a full
  analysis returns what the analyzer answered to the planned request, at the planned revision,
  not failed and for this request, and the differences are those of the two snapshots.
\<close>

theorem executed_update_is_planned:
  assumes "executeUpdate pf es value analyzer = Inr r"
  shows "\<exists>i. parseExecutionInput pf es value = Inr i \<and> xr_plan r = xi_plan i
    \<and> base_agrees (xr_plan r) (xi_base_snapshot i) \<and> planned_target (xr_plan r) (xr_target_snapshot r)
    \<and> validateContractSnapshotSemantics pf (xr_target_snapshot r) = []
    \<and> (pc_action (xr_plan r) = ReuseBaseSnapshot \<longrightarrow>
         xr_target_snapshot r = xi_base_snapshot i \<and> xr_analyzer_result r = None
         \<and> dc_differences (xr_differences r) = [] \<and> \<not> coverage_incomplete (cs_coverage (xi_base_snapshot i)))
    \<and> (pc_action (xr_plan r) = AnalyzeFullService \<longrightarrow>
         (\<exists>analyze raw result. analyzer = Analyzer analyze \<and> analyze (sent_request i) = AnalyzerReturns raw
            \<and> parsedAnalyzerResult pf es raw = Inr result \<and> xr_analyzer_result r = Some result
            \<and> ar_status result \<noteq> ResultFailed \<and> ar_request_id result = aq_request_id (xi_request i)
            \<and> sr_immutable_revision (cs_source (xr_target_snapshot r)) = ps_target_revision (pc_service (xr_plan r))
            \<and> compareContractSnapshots pf (comparison_shapes es) (xi_base_snapshot i) (xr_target_snapshot r) =
                Inr (xr_differences r)))"
proof -
  obtain i analyze where i: "parseExecutionInput pf es value = Inr i" "analyzer = Analyzer analyze"
    "base_agrees (xi_plan i) (xi_base_snapshot i)"
    "if pc_action (xi_plan i) = ReuseBaseSnapshot then execute_reuse pf es i = Inr r else execute_analysis pf es analyze i = Inr r"
    by (rule executeUpdate_Inr [OF assms])
  note valid = parsed_plan_valid [OF i(1)]
  show ?thesis
  proof (cases "pc_action (xi_plan i)")
    case ReuseBaseSnapshot
    then have "execute_reuse pf es i = Inr r" using i(4) by simp
    then show ?thesis
      using i(1,3) valid reuse_plan_unchanged [OF valid [THEN conjunct1] ReuseBaseSnapshot] ReuseBaseSnapshot
      by (auto simp: execute_reuse_Inr base_agrees_def planned_target_def with_set_id_def empty_content_def
          difference_set_content.defs)
  next
    case AnalyzeFullService
    then have "execute_analysis pf es analyze i = Inr r" using i(4) by simp
    then show ?thesis
    proof (rule execute_analysis_Inr)
      fix raw result differences
      assume run: "analyze (sent_request i) = AnalyzerReturns raw" "parsedAnalyzerResult pf es raw = Inr result"
        "validateResultAgreement result (executionExpectation i) = Inr ()"
        "target_agrees (result_snapshot result (xi_config_fingerprint i)) (executionExpectation i)"
        "validateContractSnapshotSemantics pf (result_snapshot result (xi_config_fingerprint i)) = []"
        "compareContractSnapshots pf (comparison_shapes es) (xi_base_snapshot i)
           (result_snapshot result (xi_config_fingerprint i)) = Inr differences"
        "r = \<lparr>xr_plan = xi_plan i, xr_analyzer_result = Some result,
           xr_target_snapshot = result_snapshot result (xi_config_fingerprint i), xr_differences = differences\<rparr>"
      have target: "planned_target (xi_plan i) (xr_target_snapshot r)"
        "sr_immutable_revision (cs_source (xr_target_snapshot r)) = ps_target_revision (pc_service (xi_plan i))"
        using run(4,7) by (auto simp: target_agrees_def planned_target_def executionExpectation_def Let_def recorded_agrees_def)
      have result: "ar_status result \<noteq> ResultFailed" "ar_request_id result = aq_request_id (xi_request i)"
        using run(3) by (simp_all add: validateResultAgreement_Inr)
      show ?thesis
        using i(1,2,3) run(1,2,5,6,7) target result AnalyzeFullService
        by (intro exI [of _ i] conjI) simp_all
    qed
  qed
qed


text \<open>The request the caller of the planner is expected to make for a planning input.\<close>

definition planned_request :: "planning_input \<Rightarrow> analyzer_request \<Rightarrow> bool" where
  "planned_request i request \<longleftrightarrow>
     (let target = pi_target i; key = pt_analysis_key (pi_target i) in
      src_repository_id (aq_source request) = pt_repository_id target
      \<and> src_service_id (aq_source request) = pt_service_id target
      \<and> src_service_root (aq_source request) = pt_service_root target
      \<and> src_immutable_revision (aq_source request) = pt_immutable_revision target
      \<and> src_source_digest (aq_source request) = pt_source_digest target
      \<and> aq_resolution_inputs request = [PathInput SourceTree (pt_service_root target) (pt_source_digest target)]
      \<and> aq_analyzer request = ak_analyzer key \<and> aq_exchange_version request = ak_analyzer_exchange_version key
      \<and> aq_ir_version request = ak_ir_version key \<and> aq_changed_paths request = pi_changed_paths i
      \<and> aq_extraction_mode request = FallbackMode \<and> \<not> isDocumentProfile request)"

lemma planned_content:
  assumes "planUpdate pf ajv u = Inr plan" "validateUpdatePlanningInput pf ajv u = Inr i"
  shows "pc_service plan = planService i" "pc_analysis_base plan = pi_base_analysis_key i"
    "pc_analysis_target plan = pt_analysis_key (pi_target i)" "pc_changed_paths plan = pi_changed_paths i"
    "pc_action plan = ReuseBaseSnapshot \<longleftrightarrow> mayReuse i"
    "pc_action plan = AnalyzeFullService \<Longrightarrow> pc_extraction_mode plan = Some FallbackFullService"
  using assms
  by (rule planUpdate_cases; simp add: with_plan_id_def reuseContent_def fullAnalysisContent_def plan_content.defs)+

text \<open>The planner's plan passes the checks of the executor.\<close>

lemma planned_checks:
  assumes "planUpdate pf ajv u = Inr plan" "validateUpdatePlanningInput pf ajv u = Inr i"
    and x: "xi_plan x = plan" "xi_base_snapshot x = pi_base_snapshot i"
      "xi_config_fingerprint x = ak_config_fingerprint (pt_analysis_key (pi_target i))"
    and "planned_request i (xi_request x)"
    and "ak_identity_version (pt_analysis_key (pi_target i)) = IDENTITY_VERSION"
      "ak_config_version (pt_analysis_key (pi_target i)) = CONFIG_VERSION"
  shows "validateBaseAgreement x = Inr ()" "validateRequestAgreement x = Inr ()"
proof -
  note content = planned_content [OF assms(1,2)]
  have valid: "planning_input_valid pf i"
    using assms(2) by (simp add: validateUpdatePlanningInput_Inr parseUpdatePlanningInput_Inr)
  then show "validateBaseAgreement x = Inr ()"
    by (simp add: validateBaseAgreement_Inr base_agrees_def x content planService_def planning_input_valid_def)
  have inputs: "validateResolutionInputs x = Inr ()"
    using assms(6) by (simp add: validateResolutionInputs_def x content planService_def planned_request_def Let_def)
  have "pc_action plan = AnalyzeFullService \<longrightarrow> full_analysis_modes x"
    using assms(6) content(6) by (simp add: full_analysis_modes_def x planned_request_def Let_def)
  then show "validateRequestAgreement x = Inr ()"
    using assms(6-8) inputs
    by (simp add: validateRequestAgreement_Inr x content(1,3,4) planService_def planned_request_def Let_def)
qed



section \<open>Failures\<close>

text \<open>A failure of the executor's own: retryable exactly when the execution failed.\<close>

definition plain_failure :: "bool \<Rightarrow> abort \<Rightarrow> bool" where
  "plain_failure accepted failure \<longleftrightarrow>
     (\<exists>e. failure = Throws (ThrownUpdate e) \<and> (ue_retryable e \<longleftrightarrow> ue_code e = UPDATE_EXECUTION_FAILED)
        \<and> (ue_code e = UPDATE_EXECUTION_FAILED \<longrightarrow> accepted))"

lemma plain_failures:
  "invalidInput path code = Inl f \<Longrightarrow> plain_failure b f" "inputs_mismatch path = Inl f \<Longrightarrow> plain_failure b f"
  "c \<noteq> UPDATE_EXECUTION_FAILED \<Longrightarrow> mismatch c path code = Inl f \<Longrightarrow> plain_failure b f"
  "invalid_part path issues = Inl f \<Longrightarrow> plain_failure b f" "f = input_error \<Longrightarrow> plain_failure b f"
  "executionFailure path code = Inl f \<Longrightarrow> plain_failure True f" "failed_part path issues = Inl f \<Longrightarrow> plain_failure True f"
  by (auto simp: plain_failure_def refusals updateError_def updateValidationError_def input_error_def)

lemma opaque_failure: "plain_failure True (Throws (ThrownUpdate updateExecutionError))"
  by (simp add: plain_failure_def updateExecutionError_def updateError_def)

lemma detachedJson_failure: "detachedJson v x = Inl f \<Longrightarrow> plain_failure b f"
  using serializeCanonical_cases [of v input_error] plain_failures(5)
  by (auto simp: detachedJson_def split: sum.splits)

lemma parse_failure: "parseExecutionInput pf es value = Inl f \<Longrightarrow> plain_failure b f"
  by (auto simp: parseExecutionInput_def parse_parts_def and_then_Inl_iff
      intro: plain_failures(1,4) detachedJson_failure
      split: own_properties.splits if_splits option.splits sum.splits jsval.splits)

lemma manifest_failure: "manifest_inputs root n seen inputs = Inl f \<Longrightarrow> plain_failure b f"
  by (induction root n seen inputs rule: manifest_inputs.induct)
    (auto intro: plain_failures(2) split: analysis_input.splits input_kind.splits if_splits)

lemma agreement_failure:
  "validateBaseAgreement i = Inl f \<Longrightarrow> plain_failure b f" "validateRequestAgreement i = Inl f \<Longrightarrow> plain_failure b f"
proof -
  show "validateBaseAgreement i = Inl f \<Longrightarrow> plain_failure b f"
    by (auto simp: validateBaseAgreement_def Let_def intro: plain_failures(3) split: option.splits if_splits)
  have "validateResolutionInputs i = Inl f \<Longrightarrow> plain_failure b f"
    by (auto simp: validateResolutionInputs_def Let_def intro: plain_failures(2) manifest_failure split: if_splits)
  then show "validateRequestAgreement i = Inl f \<Longrightarrow> plain_failure b f"
    by (auto simp: validateRequestAgreement_def Let_def and_then_Inl_iff intro: plain_failures(3) split: if_splits)
qed

lemma result_failure:
  "parsedAnalyzerResult pf es v = Inl f \<Longrightarrow> plain_failure True f"
  "validateResultAgreement r expected = Inl f \<Longrightarrow> plain_failure True f"
  "target_snapshot_of pf es r fingerprint = Inl f \<Longrightarrow> plain_failure True f"
proof -
  show "parsedAnalyzerResult pf es v = Inl f \<Longrightarrow> plain_failure True f"
    by (auto simp: parsedAnalyzerResult_def intro: plain_failures(6,7) detachedJson_failure split: option.splits sum.splits)
  show "validateResultAgreement r expected = Inl f \<Longrightarrow> plain_failure True f"
    by (auto simp: validateResultAgreement_def intro: plain_failures(6) split: if_splits)
  show "target_snapshot_of pf es r fingerprint = Inl f \<Longrightarrow> plain_failure True f"
    by (auto simp: target_snapshot_of_def parsedTargetSnapshot_def intro: plain_failures(7) opaque_failure split: sum.splits)
qed

text \<open>
  C7: Every failure of an execution is accounted for. It is a failure of the comparison of the
  base with a target; or the analyzer never settles; or it is an \<open>UpdateError\<close>, retryable exactly
  when its code says that the execution failed, and then the input was accepted, so a caller never
  retries an update that the executor refused. What the analyzer throws never shows.
\<close>

theorem execution_failures:
  assumes "executeUpdate pf es value analyzer = Inl failure"
  shows "(\<exists>i target. parseExecutionInput pf es value = Inr i
            \<and> compareContractSnapshots pf (comparison_shapes es) (xi_base_snapshot i) target = Inl failure)
    \<or> (failure = NeverReturns \<and> (\<exists>i analyze. parseExecutionInput pf es value = Inr i \<and> analyzer = Analyzer analyze
          \<and> analyze (sent_request i) = AnalyzerPends))
    \<or> plain_failure (\<exists>i. parseExecutionInput pf es value = Inr i \<and> base_agrees (xi_plan i) (xi_base_snapshot i)
          \<and> validateRequestAgreement i = Inr ()) failure"
proof (cases "parseExecutionInput pf es value")
  case (Inl f)
  then show ?thesis using assms parse_failure by (auto simp: executeUpdate_def)
next
  case (Inr i)
  have analyzer: "analyzerFor analyzer = Inl f \<Longrightarrow> plain_failure b f" for f b
    by (cases analyzer) (auto intro: plain_failures(1))
  show ?thesis
  proof (cases "\<exists>analyze. analyzer = Analyzer analyze \<and> validateBaseAgreement i = Inr () \<and> validateRequestAgreement i = Inr ()")
    case False
    then have "plain_failure b failure" for b
      using assms Inr analyzer agreement_failure
      by (cases analyzer) (auto simp: executeUpdate_def and_then_Inl_iff refusals)
    then show ?thesis by blast
  next
    case True
    then obtain analyze where a: "analyzer = Analyzer analyze" "validateBaseAgreement i = Inr ()" "validateRequestAgreement i = Inr ()"
      by blast
    then have accepted: "(\<exists>i. parseExecutionInput pf es value = Inr i \<and> base_agrees (xi_plan i) (xi_base_snapshot i)
        \<and> validateRequestAgreement i = Inr ()) = True" using Inr by (auto simp: validateBaseAgreement_Inr)
    show ?thesis
    proof (cases "pc_action (xi_plan i)")
      case ReuseBaseSnapshot
      then have "execute_reuse pf es i = Inl failure" using assms Inr a by (simp add: executeUpdate_def)
      then have "plain_failure True failure"
        by (auto simp: execute_reuse_def Let_def and_then_Inl_iff emptyDifferenceSet_def intro: plain_failures(3,6)
            split: if_splits sum.splits)
      then show ?thesis unfolding accepted by blast
    next
      case AnalyzeFullService
      then have "execute_analysis pf es analyze i = Inl failure" using assms Inr a by (simp add: executeUpdate_def)
      then consider "await_analyzer (analyze (sent_request i)) = Inl failure" | "plain_failure True failure"
        | target where "compareContractSnapshots pf (comparison_shapes es) (xi_base_snapshot i) target = Inl failure"
        by (auto simp: execute_analysis_def Let_def and_then_Inl_iff intro: result_failure plain_failures(6) split: if_splits)
      then show ?thesis
      proof cases
        case 1
        then show ?thesis unfolding accepted
          using Inr a(1) by (cases "analyze (sent_request i)") (auto simp: opaque_failure)
      qed (use accepted Inr in auto)
    qed
  qed
qed


section \<open>A sample execution\<close>

definition sample_analyzer_request :: analyzer_request where
  "sample_analyzer_request =
     \<lparr>aq_exchange_version = ak_analyzer_exchange_version sample_key, aq_ir_version = ak_ir_version sample_key,
      aq_request_id = ''q'', aq_analyzer = ak_analyzer sample_key,
      aq_source = \<lparr>src_repository_id = ''repo'', src_service_id = ''svc'', src_service_root = ''.'',
        src_immutable_revision = ''0123456789ab'', src_source_digest = sample_digest (CHR ''a''), src_access_label = ''open''\<rparr>,
      aq_resolution_inputs = [PathInput SourceTree ''.'' (sample_digest (CHR ''a''))], aq_prior_dependencies = [],
      aq_changed_paths = [], aq_extraction_mode = FallbackMode,
      aq_limits = \<lparr>al_timeout_ms = 1, al_max_files = 1, al_max_output_bytes = 1\<rparr>\<rparr>"

definition sample_execution_shapes :: execution_shapes where
  "sample_execution_shapes =
     \<lparr>xs_result_shape = \<lambda>_. [], xs_snapshot_shape = \<lambda>_. [], es_plan = \<lambda>_. Inr sample_reuse_plan,
      es_request = \<lambda>_. Some (Inr sample_analyzer_request), es_base = \<lambda>_. Some (Inr sample_base),
      es_result = \<lambda>_. None, es_differences = \<lparr>dv_projection = \<lambda>_ _. True, dv_set_shape = \<lambda>_. []\<rparr>\<rparr>"

definition sample_execution :: own_properties where
  "sample_execution =
     OwnProperties [(''plan'', VNull), (''request'', VNull), (''base_snapshot'', VNull), (''config_fingerprint'', VString ''f'')]"

lemma sample_execution_parsed:
  "parseExecutionInput sample_platform sample_execution_shapes sample_execution =
     Inr \<lparr>xi_plan = sample_reuse_plan, xi_request = sample_analyzer_request, xi_base_snapshot = sample_base,
       xi_config_fingerprint = ''f''\<rparr>"
proof -
  have "validatePlanSemantics sample_platform sample_reuse_plan = []" by code_simp
  moreover have "exactKeys [(''plan'', VNull), (''request'', VNull), (''base_snapshot'', VNull), (''config_fingerprint'', VString ''f'')]
      execution_keys" by code_simp
  ultimately show ?thesis
    by (simp add: parseExecutionInput_def sample_execution_def execution_keys_def parse_parts_def safeParserFor_def
        parserFor_def sample_execution_shapes_def sample_base_valid detachedJson_def)
qed

lemma sample_unchanged_parts:
  "pi_base_snapshot sample_unchanged = sample_base" "pt_analysis_key (pi_target sample_unchanged) = sample_key"
  "ak_config_fingerprint sample_key = ''f''" "mayReuse sample_unchanged"
  by code_simp+


lemma sample_reuse_run:
  "executeUpdate sample_platform sample_execution_shapes sample_execution (Analyzer analyze) =
     Inr \<lparr>xr_plan = sample_reuse_plan, xr_analyzer_result = None, xr_target_snapshot = sample_base,
       xr_differences = with_set_id sample_platform (empty_content sample_base)\<rparr>"
proof -
  let ?i = "\<lparr>xi_plan = sample_reuse_plan, xi_request = sample_analyzer_request, xi_base_snapshot = sample_base,
       xi_config_fingerprint = ''f''\<rparr>"
  have "planned_request sample_unchanged (xi_request ?i)"
    "ak_identity_version (pt_analysis_key (pi_target sample_unchanged)) = IDENTITY_VERSION"
    "ak_config_version (pt_analysis_key (pi_target sample_unchanged)) = CONFIG_VERSION"
    "\<not> coverage_incomplete (cs_coverage sample_base)" by code_simp+
  moreover from this planned_checks [OF sample_reuse_result sample_unchanged_accepted, of ?i]
  have "validateBaseAgreement ?i = Inr ()" "validateRequestAgreement ?i = Inr ()"
    by (simp_all add: sample_unchanged_parts)
  moreover have "pc_action sample_reuse_plan = ReuseBaseSnapshot"
    using planned_content(5) [OF sample_reuse_result sample_unchanged_accepted] sample_unchanged_parts by simp
  ultimately show ?thesis
    by (simp add: executeUpdate_def sample_execution_parsed execute_reuse_Inr) (simp add: sample_execution_shapes_def)
qed

theorem executed_update_is_planned_witness:
  "planned_target sample_reuse_plan sample_base"
  using executed_update_is_planned [OF sample_reuse_run] by auto

theorem execution_failures_witness:
  "\<exists>e. executeUpdate sample_platform sample_execution_shapes NoObject NoAnalyzerObject = Inl (Throws (ThrownUpdate e))
     \<and> \<not> ue_retryable e"
proof -
  obtain failure where run: "executeUpdate sample_platform sample_execution_shapes NoObject NoAnalyzerObject = Inl failure"
    and nothing: "\<And>i. parseExecutionInput sample_platform sample_execution_shapes NoObject \<noteq> Inr i"
    by (simp add: executeUpdate_def parseExecutionInput_def refusals)
  with execution_failures [OF run] show ?thesis by (auto simp: plain_failure_def)
qed

lemma sample_self_comparison:
  obtains d where "compareContractSnapshots sample_platform (comparison_shapes sample_execution_shapes) sample_base sample_base = Inr d"
proof -
  have closed: "closed_snapshot sample_base" using validated_closed sample_base_valid by blast
  obtain ix where ix: "buildEndpointOwnershipIndex sample_base = Some ix"
    using index.build_defined [OF closed] by blast
  have "canonicalStrings (map_keys (cs_schemas sample_base) @ map_keys (cs_schemas sample_base)) = [''User'']" by code_simp
  moreover have "schema_id_drafts sample_base sample_base ix ix ''User'' = Inr []"
    by (simp add: schema_id_drafts_def sample_base_def sample_snapshot_def object_lookup_def schema_drafts_def Let_def
        schema_comparison_def schemaProjection_def canonical_member_def)
  ultimately have "schemaDrafts sample_base sample_base = Inr []" using ix by (simp add: schemaDrafts_def)
  moreover have "endpointDrafts sample_base sample_base = Inr []" by code_simp
  ultimately obtain drafts where drafts: "comparison_drafts sample_base sample_base = Inr drafts"
    by (simp add: comparison_drafts_def)
  then have "drafts = []" using comparison_drafts_Nil same_contract_refl by blast
  moreover have "cs_identity_version sample_base = IDENTITY_VERSION" "incompatibilities sample_base sample_base = []"
    "set_content sample_platform sample_base sample_base [] = empty_content sample_base" by code_simp+
  ultimately have "compareContractSnapshots sample_platform (comparison_shapes sample_execution_shapes) sample_base sample_base =
      Inr (with_set_id sample_platform (empty_content sample_base))"
    using drafts empty_set_valid [of sample_platform "es_differences sample_execution_shapes" sample_base,
        THEN iffD2, OF conjI, OF _ refl]
    by (simp add: compareContractSnapshots_def validateSnapshot_def snapshot_issues_def comparison_shapes_def
        sample_execution_shapes_def sample_base_valid difference_validators.defs)
  then show ?thesis by (rule that)
qed

theorem reuse_is_comparison_with_itself_witness:
  "\<exists>d. emptyDifferenceSet sample_platform sample_execution_shapes sample_base = Inr d"
proof -
  obtain d where "compareContractSnapshots sample_platform (comparison_shapes sample_execution_shapes) sample_base sample_base = Inr d"
    by (rule sample_self_comparison)
  moreover have "\<not> coverage_incomplete (cs_coverage sample_base)" by code_simp
  ultimately show ?thesis using reuse_is_comparison_with_itself by blast
qed

end
