(* ===== verification/OrchBase.thy ===== *)
theory OrchBase
  imports JsonParse UpdTypes
begin

text \<open>
  What the orchestration components share: the error codes of
  \<open>packages/orchestration/src/types.ts\<close>, the construction of an \<open>OrchestrationError\<close> in
  \<open>errors.ts\<close>, and the way its reducers detach an unknown input: \<open>canonicalOrchestrationJson\<close>
  and \<open>JSON.parse\<close>, so that what they read is data and nothing else.
\<close>

section \<open>Errors\<close>

datatype orchestration_error_code =
    INVALID_ORCHESTRATION_INPUT
  | EVENT_UNAUTHORIZED
  | EVENT_ID_CONFLICT
  | EVENT_SUBJECT_MISMATCH
  | CONFIGURATION_NOT_FOUND
  | CONFIGURATION_CONFLICT
  | CONFIGURATION_UNAUTHORIZED
  | EVENT_ORDER_CONFLICT
  | REVISION_ASSOCIATION_CONFLICT
  | JOB_NOT_FOUND_OR_DENIED
  | WORKER_UNAUTHORIZED
  | JOB_LEASE_CONFLICT
  | JOB_CANCELLED
  | JOB_SUPERSEDED
  | JOB_DEPENDENCY_FAILED
  | JOB_EXECUTION_FAILED
  | RECONCILIATION_FAILED
  | OUTBOX_LEASE_CONFLICT
  | OUTBOX_DELIVERY_FAILED
  | PROMOTION_INELIGIBLE
  | ORCHESTRATION_STORAGE_ERROR

fun orchestration_error_message :: "orchestration_error_code \<Rightarrow> string" where
  "orchestration_error_message INVALID_ORCHESTRATION_INPUT = ''Orchestration input is invalid''"
| "orchestration_error_message EVENT_UNAUTHORIZED = ''Event is not authorized''"
| "orchestration_error_message EVENT_ID_CONFLICT = ''Event identity conflicts with stored content''"
| "orchestration_error_message EVENT_SUBJECT_MISMATCH = ''Event subjects do not match authorized configuration''"
| "orchestration_error_message CONFIGURATION_NOT_FOUND = ''Configuration was not found''"
| "orchestration_error_message CONFIGURATION_CONFLICT = ''Configuration conflicts with stored content''"
| "orchestration_error_message CONFIGURATION_UNAUTHORIZED = ''Configuration operation is not authorized''"
| "orchestration_error_message EVENT_ORDER_CONFLICT = ''Event order conflicts with current state''"
| "orchestration_error_message REVISION_ASSOCIATION_CONFLICT = ''Revision association conflicts with stored content''"
| "orchestration_error_message JOB_NOT_FOUND_OR_DENIED = ''Job was not found or access was denied''"
| "orchestration_error_message WORKER_UNAUTHORIZED = ''Worker is not authorized''"
| "orchestration_error_message JOB_LEASE_CONFLICT = ''Job lease conflicts with current state''"
| "orchestration_error_message JOB_CANCELLED = ''Job was cancelled''"
| "orchestration_error_message JOB_SUPERSEDED = ''Job was superseded''"
| "orchestration_error_message JOB_DEPENDENCY_FAILED = ''Job dependency failed''"
| "orchestration_error_message JOB_EXECUTION_FAILED = ''Job execution failed''"
| "orchestration_error_message RECONCILIATION_FAILED = ''Reconciliation failed''"
| "orchestration_error_message OUTBOX_LEASE_CONFLICT = ''Outbox lease conflicts with current state''"
| "orchestration_error_message OUTBOX_DELIVERY_FAILED = ''Outbox delivery failed''"
| "orchestration_error_message PROMOTION_INELIGIBLE = ''Branch promotion is not eligible''"
| "orchestration_error_message ORCHESTRATION_STORAGE_ERROR = ''Orchestration storage operation failed''"

definition safeSegments :: "string list" where
  "safeSegments =
     [''adapterId'', ''allowedEventTypes'', ''allowedRepositories'', ''allowedServices'', ''attemptCount'',
      ''capabilities'', ''checkpointVersion'', ''configuration'', ''deploymentAuthorityGrants'', ''document'',
      ''environment'', ''event'', ''event_type'', ''fingerprint'', ''instanceId'', ''maxAttempts'', ''payload'',
      ''principalId'', ''producer'', ''producerId'', ''repository_id'', ''repositoryId'', ''safeErrorCode'',
      ''service_ids'', ''serviceId'', ''source'', ''subjects'', ''tenantId'', ''workerId'']"

definition safeCodes :: "string list" where
  "safeCodes =
     [''shape.additionalProperties'', ''shape.anyOf'', ''shape.const'', ''shape.enum'', ''shape.format'',
      ''shape.invalid_json_value'', ''shape.maxItems'', ''shape.maxLength'', ''shape.minItems'', ''shape.minimum'',
      ''shape.minLength'', ''shape.oneOf'', ''shape.pattern'', ''shape.required'', ''shape.type'', ''shape.uniqueItems'',
      ''semantic.noncanonical_order'', ''semantic.scope_mismatch'', ''validation.invalid'']"

definition sanitize_orchestration_segment :: "string \<Rightarrow> string" where
  "sanitize_orchestration_segment segment =
     (if index_segment segment \<or> segment \<in> set safeSegments then segment else ''*'')"

definition sanitizeOrchestrationIssuePath :: "string \<Rightarrow> string" where
  "sanitizeOrchestrationIssuePath candidate =
     (if candidate = ''/'' \<or> \<not> starts_with candidate ''/'' then ''/''
      else ''/'' @ join_with ''/'' (map sanitize_orchestration_segment (tl (split_char (CHR ''/'') candidate))))"

record orchestration_issue =
  oi_path :: string
  oi_code :: string

record orchestration_error =
  oe_code :: orchestration_error_code
  oe_retryable :: bool
  oe_issues :: "orchestration_issue list option"

text \<open>A candidate issue is seen through its own property descriptors, as for update errors.\<close>

fun sanitize_orchestration_issue :: "issue_candidate \<Rightarrow> orchestration_issue" where
  "sanitize_orchestration_issue Hostile = \<lparr>oi_path = ''/'', oi_code = ''validation.invalid''\<rparr>"
| "sanitize_orchestration_issue (Candidate path code) =
     \<lparr>oi_path = (case path of None \<Rightarrow> ''/'' | Some p \<Rightarrow> sanitizeOrchestrationIssuePath p),
      oi_code = (case code of
                   None \<Rightarrow> ''validation.invalid''
                 | Some c \<Rightarrow> if c \<in> set safeCodes then c else ''validation.invalid'')\<rparr>"

definition orchestrationError ::
  "orchestration_error_code \<Rightarrow> bool option \<Rightarrow> issue_candidate list option \<Rightarrow> orchestration_error" where
  "orchestrationError code retryable issues =
     \<lparr>oe_code = code,
      oe_retryable =
        (case retryable of
           Some r \<Rightarrow> r
         | None \<Rightarrow> code \<in> {JOB_EXECUTION_FAILED, RECONCILIATION_FAILED, OUTBOX_DELIVERY_FAILED,
                            ORCHESTRATION_STORAGE_ERROR}),
      oe_issues = map_option (map sanitize_orchestration_issue) issues\<rparr>"

definition orchestrationValidationError :: "validation_issue list \<Rightarrow> orchestration_error" where
  "orchestrationValidationError issues =
     orchestrationError INVALID_ORCHESTRATION_INPUT None
       (Some (map (\<lambda>i. Candidate (Some (vi_path i)) (Some (vi_code i))) issues))"

definition orchestrationStorageError :: orchestration_error where
  "orchestrationStorageError = orchestrationError ORCHESTRATION_STORAGE_ERROR (Some True) None"

text \<open>\<open>throw new OrchestrationError(code)\<close>.\<close>

type_synonym 'a orch = "(orchestration_error, 'a) result"

definition orch_error :: "orchestration_error_code \<Rightarrow> orchestration_error" where
  "orch_error code = orchestrationError code None None"

abbreviation throw :: "orchestration_error_code \<Rightarrow> 'a orch" where
  "throw code \<equiv> Inl (orch_error code)"

lemma orch_error_code [simp]: "oe_code (orch_error code) = code"
  by (simp add: orch_error_def orchestrationError_def)

lemma orch_error_inj [simp]: "orch_error a = orch_error b \<longleftrightarrow> a = b"
  by (metis orch_error_code)

text \<open>
  Code that may also throw a \<open>TypeError\<close>, as \<open>Buffer.from(undefined)\<close> and a read from
  \<open>undefined\<close> do, ends in a \<open>failure\<close>.
\<close>

datatype failure = Rejected orchestration_error | TypeErrorThrown

fun lift :: "'a orch \<Rightarrow> (failure, 'a) result" where
  "lift (Inl err) = Inl (Rejected err)"
| "lift (Inr a) = Inr a"

abbreviation reject :: "orchestration_error_code \<Rightarrow> (failure, 'a) result" where
  "reject code \<equiv> Inl (Rejected (orch_error code))"

lemma lift_Inr [simp]: "lift r = Inr a \<longleftrightarrow> r = Inr a"
  by (cases r) auto

lemma lift_TypeError [simp]: "lift r \<noteq> Inl TypeErrorThrown"
  by (cases r) auto

section \<open>Detached inputs\<close>

definition canonicalOrchestrationJson :: "jsval \<Rightarrow> string orch" where
  "canonicalOrchestrationJson value = serializeCanonical (orch_error INVALID_ORCHESTRATION_INPUT) value"

definition detached :: "jsval \<Rightarrow> json orch" where
  "detached input =
     (case canonicalOrchestrationJson input of
        Inl _ \<Rightarrow> throw INVALID_ORCHESTRATION_INPUT
      | Inr text \<Rightarrow> (case JSON_parse text of None \<Rightarrow> throw INVALID_ORCHESTRATION_INPUT | Some value \<Rightarrow> Inr value))"

definition detachedRecord :: "jsval \<Rightarrow> (string \<times> json) list orch" where
  "detachedRecord input =
     (case detached input of
        Inl err \<Rightarrow> Inl err
      | Inr value \<Rightarrow> (case value of JObj members \<Rightarrow> Inr members | _ \<Rightarrow> throw INVALID_ORCHESTRATION_INPUT))"

lemma detached_json: "wf_json j \<Longrightarrow> detached (to_jsval j) = Inr (json_normal j)"
  by (simp add: detached_def canonicalOrchestrationJson_def serializeCanonical_to_jsval JSON_parse_canonical)

text \<open>What is read from a JSON object is the object itself, whatever the order of its members.\<close>

lemma detachedRecord_object:
  "wf_json (JObj kvs) \<Longrightarrow>
   detachedRecord (to_jsval (JObj kvs)) = Inr (sort_key fst (map (\<lambda>(k, v). (k, json_normal v)) kvs))"
  by (simp only: detachedRecord_def detached_json) simp

lemma detached_member:
  "distinct (map fst kvs) \<Longrightarrow>
   map_of (sort_key fst (map (\<lambda>(k, v). (k, json_normal v)) kvs)) k = map_option json_normal (map_of kvs k)"
  using map_of_map [of json_normal kvs]
  by (simp add: map_of_sort_key case_prod_unfold comp_def)

lemma detached_keys:
  "fst ` set (sort_key fst (map (\<lambda>(k, v). (k, json_normal v)) kvs)) = fst ` set kvs"
  "length (sort_key fst (map (\<lambda>(k, v). (k, json_normal v)) kvs)) = length kvs"
  by (auto simp: image_image case_prod_unfold)

lemma detached_rejects: "\<not> json_like v \<Longrightarrow> detachedRecord v = throw INVALID_ORCHESTRATION_INPUT"
  using serializeCanonical_cases [of v "orch_error INVALID_ORCHESTRATION_INPUT"]
  by (simp add: detachedRecord_def detached_def canonicalOrchestrationJson_def)

lemma detached_error: "detachedRecord v = Inl err \<Longrightarrow> err = orch_error INVALID_ORCHESTRATION_INPUT"
  by (auto simp: detachedRecord_def detached_def split: sum.splits option.splits json.splits)

end
