(* ===== verification/OrchState.thy ===== *)
theory OrchState
  imports OrchBase "HOL-Library.Log_Nat"
begin

text \<open>
  The reducers of \<open>packages/orchestration/src/state.ts\<close>: the life of a job and of an outbox
  message, and the delay before a retry. The reducers take unknown inputs, so the model takes
  arbitrary JavaScript values and parses them as the code does. Three relations state what the
  reducers promise: \<open>job_step\<close> and \<open>outbox_step\<close> are the step relations, and \<open>phase_step\<close> is the
  abstract life of a job (waiting, running, ended), which the reducer refines.
\<close>

section \<open>Jobs\<close>

datatype job_state = Queued | Leased | RetryWait | Succeeded | Failed | Cancelled | Superseded

fun job_state_text :: "job_state \<Rightarrow> string" where
  "job_state_text Queued = ''queued''"
| "job_state_text Leased = ''leased''"
| "job_state_text RetryWait = ''retry_wait''"
| "job_state_text Succeeded = ''succeeded''"
| "job_state_text Failed = ''failed''"
| "job_state_text Cancelled = ''cancelled''"
| "job_state_text Superseded = ''superseded''"

definition JOB_STATES :: "job_state list" where
  "JOB_STATES = [Queued, Leased, RetryWait, Succeeded, Failed, Cancelled, Superseded]"

definition terminal :: "job_state \<Rightarrow> bool" where
  "terminal s \<longleftrightarrow> s \<in> {Succeeded, Failed, Cancelled, Superseded}"

datatype job_error = DependencyFailed | ExecutionFailed

fun job_error_text :: "job_error \<Rightarrow> string" where
  "job_error_text DependencyFailed = ''JOB_DEPENDENCY_FAILED''"
| "job_error_text ExecutionFailed = ''JOB_EXECUTION_FAILED''"

record reduced_job =
  rj_state :: job_state
  rj_errorCode :: "job_error option"
  rj_supersedingJobId :: "string option"

datatype job_transition =
    TLease
  | TSucceed
  | TRetry
  | TFail
  | TCancel
  | TSupersede string
  | TDependencyFailed (cancellation_requested: "bool option") (superseded_by: "string option")

text \<open>An optional member: absent, acceptable, or something else.\<close>

definition optional_member :: "(json \<Rightarrow> 'a option) \<Rightarrow> json option \<Rightarrow> 'a option option" where
  "optional_member read member =
     (case member of None \<Rightarrow> Some None | Some j \<Rightarrow> (case read j of None \<Rightarrow> None | Some a \<Rightarrow> Some (Some a)))"

fun nonempty_text :: "json \<Rightarrow> string option" where
  "nonempty_text (JStr s) = (if s = [] then None else Some s)"
| "nonempty_text _ = None"

fun read_state :: "json \<Rightarrow> job_state option" where
  "read_state (JStr s) = list_find (\<lambda>st. job_state_text st = s) JOB_STATES"
| "read_state _ = None"

fun read_job_error :: "json \<Rightarrow> job_error option" where
  "read_job_error (JStr s) =
     (if s = ''JOB_DEPENDENCY_FAILED'' then Some DependencyFailed
      else if s = ''JOB_EXECUTION_FAILED'' then Some ExecutionFailed else None)"
| "read_job_error _ = None"

fun read_boolean :: "json \<Rightarrow> bool option" where
  "read_boolean (JBool b) = Some b"
| "read_boolean _ = None"

definition only_keys :: "string list \<Rightarrow> (string \<times> json) list \<Rightarrow> bool" where
  "only_keys allowed members = list_all (\<lambda>key. key \<in> set allowed) (map fst members)"

definition parseReducedJob :: "jsval \<Rightarrow> reduced_job orch" where
  "parseReducedJob input =
     and_then (detachedRecord input) (\<lambda>members.
       if \<not> only_keys [''state'', ''errorCode'', ''supersedingJobId''] members
       then throw INVALID_ORCHESTRATION_INPUT
       else case Option.bind (map_of members ''state'') read_state of
              None \<Rightarrow> throw INVALID_ORCHESTRATION_INPUT
            | Some state \<Rightarrow>
                (case optional_member read_job_error (map_of members ''errorCode'') of
                   None \<Rightarrow> throw INVALID_ORCHESTRATION_INPUT
                 | Some code \<Rightarrow>
                     (case optional_member nonempty_text (map_of members ''supersedingJobId'') of
                        None \<Rightarrow> throw INVALID_ORCHESTRATION_INPUT
                      | Some superseding \<Rightarrow>
                          Inr \<lparr>rj_state = state, rj_errorCode = code, rj_supersedingJobId = superseding\<rparr>)))"

definition plain_transitions :: "(string \<times> job_transition) list" where
  "plain_transitions =
     [(''lease'', TLease), (''succeed'', TSucceed), (''retry'', TRetry), (''fail'', TFail), (''cancel'', TCancel)]"

definition parseTransition :: "jsval \<Rightarrow> job_transition orch" where
  "parseTransition input =
     and_then (detachedRecord input) (\<lambda>members.
       case map_of members ''kind'' of
         Some (JStr kind) \<Rightarrow>
           (case (if length members = 1 then map_of plain_transitions kind else None) of
              Some t \<Rightarrow> Inr t
            | None \<Rightarrow>
                (case (if kind = ''supersede'' \<and> length members = 2
                       then Option.bind (map_of members ''supersedingJobId'') nonempty_text else None) of
                   Some job \<Rightarrow> Inr (TSupersede job)
                 | None \<Rightarrow>
                     if kind = ''dependency_failed''
                       \<and> only_keys [''kind'', ''cancellationRequested'', ''supersedingJobId''] members
                     then (case (optional_member read_boolean (map_of members ''cancellationRequested''),
                                 optional_member nonempty_text (map_of members ''supersedingJobId'')) of
                             (Some cancellation, Some superseding) \<Rightarrow> Inr (TDependencyFailed cancellation superseding)
                           | _ \<Rightarrow> throw INVALID_ORCHESTRATION_INPUT)
                     else throw INVALID_ORCHESTRATION_INPUT))
       | _ \<Rightarrow> throw INVALID_ORCHESTRATION_INPUT)"

definition in_state :: "job_state \<Rightarrow> reduced_job" where
  "in_state s = \<lparr>rj_state = s, rj_errorCode = None, rj_supersedingJobId = None\<rparr>"

definition failed_with :: "job_error \<Rightarrow> reduced_job" where
  "failed_with code = \<lparr>rj_state = Failed, rj_errorCode = Some code, rj_supersedingJobId = None\<rparr>"

definition supersededBy :: "string \<Rightarrow> reduced_job" where
  "supersededBy job = \<lparr>rj_state = Superseded, rj_errorCode = None, rj_supersedingJobId = Some job\<rparr>"

definition apply_transition :: "reduced_job \<Rightarrow> job_transition \<Rightarrow> reduced_job orch" where
  "apply_transition current transition =
     (let waiting = (rj_state current = Queued \<or> rj_state current = RetryWait)
      in if terminal (rj_state current) then Inr current
         else case transition of
           TDependencyFailed cancellation superseding \<Rightarrow>
             (case superseding of
                Some job \<Rightarrow> Inr (supersededBy job)
              | None \<Rightarrow>
                  if cancellation = Some True then Inr (in_state Cancelled)
                  else if waiting then Inr (failed_with DependencyFailed)
                  else throw JOB_LEASE_CONFLICT)
         | TCancel \<Rightarrow> Inr (in_state Cancelled)
         | TSupersede job \<Rightarrow> Inr (supersededBy job)
         | TLease \<Rightarrow> if waiting then Inr (in_state Leased) else throw JOB_LEASE_CONFLICT
         | TSucceed \<Rightarrow> if rj_state current = Leased then Inr (in_state Succeeded) else throw JOB_LEASE_CONFLICT
         | TRetry \<Rightarrow> if rj_state current = Leased then Inr (in_state RetryWait) else throw JOB_LEASE_CONFLICT
         | TFail \<Rightarrow>
             if rj_state current = Leased then Inr (failed_with ExecutionFailed) else throw JOB_LEASE_CONFLICT)"

definition reduceJobState :: "jsval \<Rightarrow> jsval \<Rightarrow> reduced_job orch" where
  "reduceJobState currentInput transitionInput =
     and_then (parseReducedJob currentInput) (\<lambda>current.
       and_then (parseTransition transitionInput) (\<lambda>transition.
         apply_transition current transition))"

text \<open>The JSON objects the callers pass.\<close>

definition member_if :: "string \<Rightarrow> ('a \<Rightarrow> json) \<Rightarrow> 'a option \<Rightarrow> (string \<times> json) list" where
  "member_if k f m = (case m of None \<Rightarrow> [] | Some a \<Rightarrow> [(k, f a)])"

definition job_value :: "reduced_job \<Rightarrow> json" where
  "job_value job =
     JObj ([(''state'', JStr (job_state_text (rj_state job)))]
       @ member_if ''errorCode'' (JStr \<circ> job_error_text) (rj_errorCode job)
       @ member_if ''supersedingJobId'' JStr (rj_supersedingJobId job))"

fun transition_value :: "job_transition \<Rightarrow> json" where
  "transition_value TLease = JObj [(''kind'', JStr ''lease'')]"
| "transition_value TSucceed = JObj [(''kind'', JStr ''succeed'')]"
| "transition_value TRetry = JObj [(''kind'', JStr ''retry'')]"
| "transition_value TFail = JObj [(''kind'', JStr ''fail'')]"
| "transition_value TCancel = JObj [(''kind'', JStr ''cancel'')]"
| "transition_value (TSupersede job) = JObj [(''kind'', JStr ''supersede''), (''supersedingJobId'', JStr job)]"
| "transition_value (TDependencyFailed cancellation superseding) =
     JObj ([(''kind'', JStr ''dependency_failed'')]
       @ member_if ''cancellationRequested'' JBool cancellation
       @ member_if ''supersedingJobId'' JStr superseding)"

text \<open>An identifier that is present is not empty.\<close>

definition job_shape :: "reduced_job \<Rightarrow> bool" where
  "job_shape job \<longleftrightarrow> rj_supersedingJobId job \<noteq> Some []"

fun transition_shape :: "job_transition \<Rightarrow> bool" where
  "transition_shape (TSupersede job) = (job \<noteq> [])"
| "transition_shape (TDependencyFailed _ superseding) = (superseding \<noteq> Some [])"
| "transition_shape _ = True"


section \<open>Parsing what the callers pass\<close>

lemma job_value_wf: "wf_json (job_value job)"
  by (simp add: job_value_def member_if_def split: option.splits)

lemma transition_value_wf: "wf_json (transition_value t)"
  by (cases t rule: transition_value.cases) (simp_all add: member_if_def split: option.splits)

lemmas detached_simps = detached_member detached_keys map_of_sort_key only_keys_def list_all_iff

lemma read_state_text [simp]: "read_state (JStr (job_state_text s)) = Some s"
  by (cases s) (simp_all add: JOB_STATES_def)

lemma read_job_error_text [simp]: "read_job_error (JStr (job_error_text e)) = Some e"
  by (cases e) simp_all

declare read_state.simps [simp del] read_job_error.simps [simp del]

lemma optional_member_simps [simp]:
  "optional_member r None = Some None"
  "optional_member r (Some j) = map_option Some (r j)"
  by (simp_all add: optional_member_def split: option.splits)

lemma parseReducedJob_value:
  assumes "job_shape job"
  shows "parseReducedJob (to_jsval (job_value job)) = Inr job"
proof -
  obtain st code sup where job: "job = \<lparr>rj_state = st, rj_errorCode = code, rj_supersedingJobId = sup\<rparr>"
    by (cases job) auto
  obtain kvs where kvs: "job_value job = JObj kvs"
    "kvs = [(''state'', JStr (job_state_text st))]
       @ member_if ''errorCode'' (JStr \<circ> job_error_text) code @ member_if ''supersedingJobId'' JStr sup"
    by (simp add: job_value_def job)
  have d: "distinct (map fst kvs)" using job_value_wf [of job] kvs(1) by simp
  have "sup \<noteq> Some []" using assms by (simp add: job job_shape_def)
  then show ?thesis
    using job_value_wf [of job] d
    unfolding kvs(1) parseReducedJob_def
    by (simp only: detachedRecord_object and_then.simps detached_member only_keys_def list_all_iff
          set_map detached_keys)
      (auto simp: job kvs(2) member_if_def comp_def split: option.splits)
qed

lemma parseTransition_value:
  assumes "transition_shape t"
  shows "parseTransition (to_jsval (transition_value t)) = Inr t"
proof -
  obtain kvs where kvs: "transition_value t = JObj kvs"
    by (cases t rule: transition_value.cases) auto
  have d: "distinct (map fst kvs)" using transition_value_wf [of t] kvs by simp
  have members: "detachedRecord (to_jsval (transition_value t)) =
      Inr (sort_key fst (map (\<lambda>(k, v). (k, json_normal v)) kvs))"
    using transition_value_wf [of t] by (simp only: kvs detachedRecord_object)
  note parse = parseTransition_def members and_then.simps detached_member [OF d] only_keys_def
    list_all_iff set_map detached_keys
  show ?thesis
  proof (cases t rule: transition_value.cases)
    case (6 job)
    then have "kvs = [(''kind'', JStr ''supersede''), (''supersedingJobId'', JStr job)]" using kvs by simp
    then show ?thesis
      unfolding parse using 6 assms by (simp add: plain_transitions_def)
  next
    case (7 cancellation superseding)
    then have k: "kvs = [(''kind'', JStr ''dependency_failed'')]
       @ member_if ''cancellationRequested'' JBool cancellation
       @ member_if ''supersedingJobId'' JStr superseding" using kvs by simp
    show ?thesis
      unfolding parse using 7 assms
      by (cases cancellation; cases superseding) (simp_all add: k plain_transitions_def member_if_def)
  qed (unfold parse, (use kvs [symmetric] in \<open>simp add: plain_transitions_def\<close>)+)
qed

lemma nonempty_text_Some: "nonempty_text j = Some s \<longleftrightarrow> j = JStr s \<and> s \<noteq> []"
  by (cases j) auto

lemma plain_transition_shape: "map_of plain_transitions kind = Some t \<Longrightarrow> transition_shape t"
  by (auto simp: plain_transitions_def split: if_splits)

lemma optional_string: "optional_member nonempty_text m = Some s \<Longrightarrow> s \<noteq> Some []"
  by (auto simp: optional_member_def nonempty_text_Some split: option.splits)

lemma parseTransition_shape:
  assumes "parseTransition input = Inr t"
  shows "transition_shape t"
proof -
  obtain members where members: "detachedRecord input = Inr members"
    using assms unfolding parseTransition_def and_then_Inr_iff by blast
  note parsed = assms [unfolded parseTransition_def members and_then.simps]
  obtain kind where kind: "map_of members ''kind'' = Some (JStr kind)"
    using parsed by (cases "map_of members ''kind''"; cases "the (map_of members ''kind'')") simp_all
  show ?thesis
    using parsed [unfolded kind option.case json.case]
    by (auto simp: bind_eq_Some_conv nonempty_text_Some dest: plain_transition_shape optional_string
        split: option.split_asm if_split_asm)
qed

lemma parse_errors:
  "parseReducedJob input = Inl err \<Longrightarrow> err = orch_error INVALID_ORCHESTRATION_INPUT"
  "parseTransition input = Inl err \<Longrightarrow> err = orch_error INVALID_ORCHESTRATION_INPUT"
   apply (cases "detachedRecord input";
      auto simp: parseReducedJob_def dest: detached_error split: if_splits option.splits)
  apply (cases "detachedRecord input";
      auto simp: parseTransition_def dest: detached_error split: if_splits option.splits json.splits)
  done

section \<open>The step relation of a job\<close>

inductive job_step :: "reduced_job \<Rightarrow> job_transition \<Rightarrow> reduced_job \<Rightarrow> bool" where
  settled: "terminal (rj_state job) \<Longrightarrow> job_step job t job"
| lease: "rj_state job \<in> {Queued, RetryWait} \<Longrightarrow> job_step job TLease (in_state Leased)"
| succeed: "rj_state job = Leased \<Longrightarrow> job_step job TSucceed (in_state Succeeded)"
| retry: "rj_state job = Leased \<Longrightarrow> job_step job TRetry (in_state RetryWait)"
| fail: "rj_state job = Leased \<Longrightarrow> job_step job TFail (failed_with ExecutionFailed)"
| cancel: "\<not> terminal (rj_state job) \<Longrightarrow> job_step job TCancel (in_state Cancelled)"
| supersede: "\<not> terminal (rj_state job) \<Longrightarrow> job_step job (TSupersede other) (supersededBy other)"
| dependency_superseded:
    "\<not> terminal (rj_state job) \<Longrightarrow> job_step job (TDependencyFailed c (Some other)) (supersededBy other)"
| dependency_cancelled:
    "\<not> terminal (rj_state job) \<Longrightarrow> job_step job (TDependencyFailed (Some True) None) (in_state Cancelled)"
| dependency_failed:
    "rj_state job \<in> {Queued, RetryWait} \<Longrightarrow> c \<noteq> Some True \<Longrightarrow>
     job_step job (TDependencyFailed c None) (failed_with DependencyFailed)"

code_pred job_step .

inductive_cases job_stepE: "job_step job t job'"

lemma terminal_simps [simp]:
  "\<not> terminal Queued" "\<not> terminal Leased" "\<not> terminal RetryWait"
  "terminal Succeeded" "terminal Failed" "terminal Cancelled" "terminal Superseded"
  by (simp_all add: terminal_def)

lemma not_terminal: "\<not> terminal s \<longleftrightarrow> s = Queued \<or> s = Leased \<or> s = RetryWait"
  by (cases s) auto

lemma job_parts [simp]:
  "rj_state (in_state s) = s" "rj_errorCode (in_state s) = None" "rj_supersedingJobId (in_state s) = None"
  "rj_state (failed_with e) = Failed" "rj_errorCode (failed_with e) = Some e"
  "rj_supersedingJobId (failed_with e) = None"
  "rj_state (supersededBy j) = Superseded" "rj_errorCode (supersededBy j) = None"
  "rj_supersedingJobId (supersededBy j) = Some j"
  by (simp_all add: in_state_def failed_with_def supersededBy_def)

lemma apply_transition_step: "apply_transition job t = Inr job' \<longleftrightarrow> job_step job t job'"
proof
  assume "apply_transition job t = Inr job'"
  then show "job_step job t job'"
    by (cases t)
      (auto simp: apply_transition_def Let_def intro: job_step.intros split: if_splits option.splits)
next
  assume "job_step job t job'"
  then show "apply_transition job t = Inr job'"
    by cases (auto simp: apply_transition_def Let_def terminal_def)
qed

lemma apply_transition_conflict:
  "(\<forall>job'. \<not> job_step job t job') \<Longrightarrow> apply_transition job t = throw JOB_LEASE_CONFLICT"
  unfolding apply_transition_step [symmetric]
  by (cases t) (auto simp: apply_transition_def Let_def split: if_splits option.splits)

lemma reduceJobState_values:
  "job_shape job \<Longrightarrow> transition_shape t \<Longrightarrow>
   reduceJobState (to_jsval (job_value job)) (to_jsval (transition_value t)) = apply_transition job t"
  by (simp add: reduceJobState_def parseReducedJob_value parseTransition_value)

lemma job_step_shape: "job_step job t job' \<Longrightarrow> job_shape job \<Longrightarrow> transition_shape t \<Longrightarrow> job_shape job'"
  by (auto elim!: job_stepE simp: job_shape_def)

section \<open>The abstract life of a job\<close>

datatype phase = Waiting | Running | Ended job_state

definition phase_of :: "reduced_job \<Rightarrow> phase" where
  "phase_of job =
     (if terminal (rj_state job) then Ended (rj_state job)
      else if rj_state job = Leased then Running else Waiting)"

text \<open>A job waits, runs, waits again or ends; what ended stays; only a running job succeeds.\<close>

inductive phase_step :: "phase \<Rightarrow> phase \<Rightarrow> bool" where
  start: "phase_step Waiting Running"
| again: "phase_step Running Waiting"
| complete: "phase_step Running (Ended Succeeded)"
| give_up: "s \<in> {Failed, Cancelled, Superseded} \<Longrightarrow> p \<in> {Waiting, Running} \<Longrightarrow> phase_step p (Ended s)"
| stay: "phase_step (Ended s) (Ended s)"

lemma job_step_phase: "job_step job t job' \<Longrightarrow> phase_step (phase_of job) (phase_of job')"
  by (erule job_stepE) (auto simp: phase_of_def not_terminal intro: phase_step.intros)

text \<open>
  The history of a job: the transitions that changed it, from its creation. Each is parsed from
  whatever value a caller passed, against the stored job.
\<close>

inductive job_history :: "job_transition list \<Rightarrow> reduced_job \<Rightarrow> bool" where
  created: "job_history [] (in_state Queued)"
| changed: "job_history ts job \<Longrightarrow> \<not> terminal (rj_state job) \<Longrightarrow> parseTransition input = Inr t \<Longrightarrow>
    reduceJobState (to_jsval (job_value job)) input = Inr job' \<Longrightarrow> job_history (ts @ [t]) job'"

definition attempts :: "nat \<Rightarrow> job_transition list" where
  "attempts n = concat (replicate n [TLease, TRetry])"

lemma attempts_Suc: "attempts (Suc n) = attempts n @ [TLease, TRetry]"
  by (simp add: attempts_def replicate_append_same [symmetric])

text \<open>What the members of a job say, in every state.\<close>

definition job_wf :: "reduced_job \<Rightarrow> bool" where
  "job_wf job \<longleftrightarrow>
     (rj_errorCode job \<noteq> None) = (rj_state job = Failed)
     \<and> (rj_supersedingJobId job \<noteq> None) = (rj_state job = Superseded)
     \<and> rj_supersedingJobId job \<noteq> Some []"

lemma job_wf_shape: "job_wf job \<Longrightarrow> job_shape job"
  by (simp add: job_wf_def job_shape_def)

lemma job_step_wf: "job_step job t job' \<Longrightarrow> job_wf job \<Longrightarrow> transition_shape t \<Longrightarrow> job_wf job'"
  by (auto elim!: job_stepE simp: job_wf_def)

lemma history_step:
  assumes "job_shape job" "parseTransition input = Inr t"
    "reduceJobState (to_jsval (job_value job)) input = Inr job'"
  shows "job_step job t job'"
  using assms by (simp add: reduceJobState_def parseReducedJob_value apply_transition_step)

lemma job_history_wf: "job_history ts job \<Longrightarrow> job_wf job"
proof (induction rule: job_history.induct)
  case created
  show ?case by (simp add: job_wf_def)
next
  case (changed ts job input t job')
  then show ?case using history_step job_wf_shape job_step_wf parseTransition_shape by blast
qed

text \<open>The transitions behind each state.\<close>

fun state_history :: "job_state \<Rightarrow> job_error option \<Rightarrow> nat \<Rightarrow> job_transition list \<Rightarrow> bool" where
  "state_history Queued _ n ts = (n = 0 \<and> ts = [])"
| "state_history RetryWait _ n ts = (0 < n \<and> ts = attempts n)"
| "state_history Leased _ n ts = (ts = attempts n @ [TLease])"
| "state_history Succeeded _ n ts = (ts = attempts n @ [TLease, TSucceed])"
| "state_history Failed code n ts =
     (if code = Some ExecutionFailed then ts = attempts n @ [TLease, TFail]
      else \<exists>c. c \<noteq> Some True \<and> ts = attempts n @ [TDependencyFailed c None])"
| "state_history _ _ n ts = (\<exists>t. ts = attempts n @ [t] \<or> ts = attempts n @ [TLease, t])"

lemma attempts_0 [simp]: "attempts 0 = []"
  by (simp add: attempts_def)

lemma waiting_history:
  assumes "rj_state job \<in> {Queued, RetryWait}" "\<exists>n. state_history (rj_state job) code n ts"
  shows "\<exists>n. ts = attempts n"
  using assms by (cases "rj_state job") (auto intro: exI [of _ 0])

lemma job_history_pattern:
  "job_history ts job \<Longrightarrow> \<exists>n. state_history (rj_state job) (rj_errorCode job) n ts"
proof (induction rule: job_history.induct)
  case created
  show ?case by simp
next
  case (changed ts job input t job')
  have step: "job_step job t job'"
    using changed job_history_wf job_wf_shape history_step by blast
  consider n where "rj_state job = Leased" "ts = attempts n @ [TLease]"
    | n where "rj_state job \<in> {Queued, RetryWait}" "ts = attempts n"
    using changed(2,5) waiting_history [of job] by (auto simp: not_terminal)
  then show ?case
  proof cases
    case (1 n)
    with step changed(2) show ?thesis
      by (auto elim!: job_stepE simp: attempts_Suc intro: exI [of _ n] exI [of _ "Suc n"])
  next
    case (2 n)
    with step changed(2) show ?thesis
      by (auto elim!: job_stepE intro: exI [of _ n])
  qed
qed

section \<open>The delay before a retry\<close>

text \<open>
  A JavaScript number is a double: \<open>js_round\<close> keeps the 53 leading bits of a magnitude, rounding
  to the nearest and to even on a tie. It is the value of a product below 2^1024.
\<close>

definition round_bits :: "nat \<Rightarrow> nat" where
  "round_bits n =
     (let e = floorlog 2 n - 53; q = n div 2 ^ e; r = n mod 2 ^ e
      in (if 2 ^ e < 2 * r \<or> 2 ^ e = 2 * r \<and> odd q then q + 1 else q) * 2 ^ e)"

definition js_round :: "int \<Rightarrow> int" where
  "js_round i = (if i < 0 then - int (round_bits (nat (- i))) else int (round_bits (nat i)))"

definition js_times :: "int \<Rightarrow> int \<Rightarrow> int" where
  "js_times a b = js_round (a * b)"

definition safe_integer :: "int \<Rightarrow> bool" where
  "safe_integer i = (- 9007199254740991 \<le> i \<and> i \<le> 9007199254740991)"

definition computeRetryDelayMs :: "jsval \<Rightarrow> int orch" where
  "computeRetryDelayMs input =
     and_then (detachedRecord input) (\<lambda>members.
       if \<not> only_keys [''attempt'', ''baseDelayMs'', ''maxDelayMs''] members
       then throw INVALID_ORCHESTRATION_INPUT
       else case (map_of members ''attempt'', map_of members ''baseDelayMs'', map_of members ''maxDelayMs'') of
              (Some (JNum attempt), Some (JNum baseDelayMs), Some (JNum maxDelayMs)) \<Rightarrow>
                if \<not> safe_integer attempt \<or> attempt < 1 \<or> \<not> safe_integer baseDelayMs \<or> baseDelayMs < 1
                  \<or> \<not> safe_integer maxDelayMs \<or> maxDelayMs < baseDelayMs
                then throw INVALID_ORCHESTRATION_INPUT
                else if 53 < attempt then Inr maxDelayMs
                else Inr (min maxDelayMs (js_times baseDelayMs (2 ^ nat (attempt - 1))))
            | _ \<Rightarrow> throw INVALID_ORCHESTRATION_INPUT)"

definition retry_value :: "int \<Rightarrow> int \<Rightarrow> int \<Rightarrow> json" where
  "retry_value attempt base limit =
     JObj [(''attempt'', JNum attempt), (''baseDelayMs'', JNum base), (''maxDelayMs'', JNum limit)]"

text \<open>The exponential backoff the code means, over unbounded integers.\<close>

definition backoff :: "int \<Rightarrow> int \<Rightarrow> int \<Rightarrow> int" where
  "backoff attempt base limit = min limit (base * 2 ^ nat (attempt - 1))"

definition retry_bounds :: "int \<Rightarrow> int \<Rightarrow> int \<Rightarrow> bool" where
  "retry_bounds attempt base limit \<longleftrightarrow>
     1 \<le> attempt \<and> safe_integer attempt \<and> 1 \<le> base \<and> base \<le> limit \<and> safe_integer limit"

lemma round_bits_exact:
  assumes "m < 2 ^ 53"
  shows "round_bits (m * 2 ^ k) = m * 2 ^ k"
proof (cases "m = 0")
  case False
  define e where "e = floorlog 2 (m * 2 ^ k) - 53"
  have "floorlog 2 m \<le> 53" using assms by (intro floorlog_leI) auto
  then have "e \<le> k" using False by (simp add: e_def)
  then have "2 ^ e dvd m * 2 ^ k" by (simp add: le_imp_power_dvd)
  then show ?thesis by (simp add: round_bits_def e_def [symmetric] Let_def mod_eq_0_iff_dvd)
qed (simp add: round_bits_def)

lemma js_times_power:
  assumes "0 \<le> b" "b < 2 ^ 53"
  shows "js_times b (2 ^ k) = b * 2 ^ k"
proof -
  have "nat (b * 2 ^ k) = nat b * 2 ^ k" using assms by (simp add: nat_mult_distrib nat_power_eq)
  moreover have "nat b < 2 ^ 53" using assms by (simp add: nat_less_iff)
  moreover have "\<not> b * 2 ^ k < 0" using assms by (simp add: not_less)
  ultimately show ?thesis
    using assms round_bits_exact [of "nat b" k]
    unfolding js_times_def js_round_def by (simp only: if_False)
qed

lemma computeRetryDelayMs_value:
  "computeRetryDelayMs (to_jsval (retry_value attempt base limit)) =
     (if retry_bounds attempt base limit then Inr (backoff attempt base limit)
      else throw INVALID_ORCHESTRATION_INPUT)"
proof -
  have "limit \<le> base * 2 ^ nat (attempt - 1)" if "53 < attempt" "1 \<le> base" "limit < 2 ^ 53"
  proof -
    have "(2 :: int) ^ 53 \<le> 2 ^ nat (attempt - 1)" using that by (intro power_increasing) auto
    also have "\<dots> \<le> base * 2 ^ nat (attempt - 1)" using that by simp
    finally show ?thesis using that by linarith
  qed
  then have big: "53 < attempt \<Longrightarrow> 1 \<le> base \<Longrightarrow> safe_integer limit \<Longrightarrow> backoff attempt base limit = limit"
    by (simp add: backoff_def safe_integer_def)
  have small: "1 \<le> base \<Longrightarrow> base \<le> limit \<Longrightarrow> safe_integer limit \<Longrightarrow>
      js_times base (2 ^ nat (attempt - 1)) = base * 2 ^ nat (attempt - 1)"
    by (rule js_times_power) (auto simp: safe_integer_def)
  obtain kvs where kvs: "retry_value attempt base limit = JObj kvs"
    "kvs = [(''attempt'', JNum attempt), (''baseDelayMs'', JNum base), (''maxDelayMs'', JNum limit)]"
    by (simp add: retry_value_def)
  have wf: "wf_json (JObj kvs)" and d: "distinct (map fst kvs)" by (simp_all add: kvs(2))
  show ?thesis
    unfolding kvs(1) computeRetryDelayMs_def detachedRecord_object [OF wf] and_then.simps
      detached_member [OF d] only_keys_def list_all_iff set_map detached_keys
    using big small by (auto simp: kvs(2) retry_bounds_def backoff_def safe_integer_def)
qed

section \<open>The outbox\<close>

datatype outbox_state = OPending | OLeased | ORetryWait | ODelivered | OExhausted
datatype outbox_transition = OLease | ODeliver | ORetry | OExhaust

fun outbox_state_text :: "outbox_state \<Rightarrow> string" where
  "outbox_state_text OPending = ''pending''"
| "outbox_state_text OLeased = ''leased''"
| "outbox_state_text ORetryWait = ''retry_wait''"
| "outbox_state_text ODelivered = ''delivered''"
| "outbox_state_text OExhausted = ''exhausted''"

fun outbox_transition_text :: "outbox_transition \<Rightarrow> string" where
  "outbox_transition_text OLease = ''lease''"
| "outbox_transition_text ODeliver = ''deliver''"
| "outbox_transition_text ORetry = ''retry''"
| "outbox_transition_text OExhaust = ''exhaust''"

fun read_outbox_state :: "jsval \<Rightarrow> outbox_state option" where
  "read_outbox_state (VString s) =
     list_find (\<lambda>st. outbox_state_text st = s) [OPending, OLeased, ORetryWait, ODelivered, OExhausted]"
| "read_outbox_state _ = None"

fun read_outbox_transition :: "jsval \<Rightarrow> outbox_transition option" where
  "read_outbox_transition (VString s) =
     list_find (\<lambda>t. outbox_transition_text t = s) [OLease, ODeliver, ORetry, OExhaust]"
| "read_outbox_transition _ = None"

definition reduceOutboxState :: "jsval \<Rightarrow> jsval \<Rightarrow> outbox_state orch" where
  "reduceOutboxState stateInput transitionInput =
     (case (read_outbox_state stateInput, read_outbox_transition transitionInput) of
        (Some state, Some transition) \<Rightarrow>
          if state = ODelivered \<or> state = OExhausted then Inr state
          else if transition = OLease \<and> (state = OPending \<or> state = ORetryWait) then Inr OLeased
          else if state = OLeased \<and> transition = ODeliver then Inr ODelivered
          else if state = OLeased \<and> transition = ORetry then Inr ORetryWait
          else if state = OLeased \<and> transition = OExhaust then Inr OExhausted
          else throw OUTBOX_LEASE_CONFLICT
      | _ \<Rightarrow> throw INVALID_ORCHESTRATION_INPUT)"

inductive outbox_step :: "outbox_state \<Rightarrow> outbox_transition \<Rightarrow> outbox_state \<Rightarrow> bool" where
  outbox_settled: "s \<in> {ODelivered, OExhausted} \<Longrightarrow> outbox_step s t s"
| outbox_lease: "s \<in> {OPending, ORetryWait} \<Longrightarrow> outbox_step s OLease OLeased"
| outbox_deliver: "outbox_step OLeased ODeliver ODelivered"
| outbox_retry: "outbox_step OLeased ORetry ORetryWait"
| outbox_exhaust: "outbox_step OLeased OExhaust OExhausted"

code_pred outbox_step .

inductive_simps outbox_step_simps: "outbox_step s t s'"

lemma read_outbox_text [simp]:
  "read_outbox_state (VString (outbox_state_text s)) = Some s"
  "read_outbox_transition (VString (outbox_transition_text t)) = Some t"
   apply (cases s; simp)
  apply (cases t; simp)
  done

declare read_outbox_state.simps [simp del] read_outbox_transition.simps [simp del]

text \<open>A message that reaches a state along the transitions that moved it.\<close>

inductive outbox_history :: "outbox_transition list \<Rightarrow> outbox_state \<Rightarrow> bool" where
  enqueued: "outbox_history [] OPending"
| moved: "outbox_history ts s \<Longrightarrow> s \<notin> {ODelivered, OExhausted} \<Longrightarrow>
    reduceOutboxState (VString (outbox_state_text s)) (VString (outbox_transition_text t)) = Inr s' \<Longrightarrow>
    outbox_history (ts @ [t]) s'"

lemma reduceOutboxState_step:
  "reduceOutboxState (VString (outbox_state_text s)) (VString (outbox_transition_text t)) = Inr s' \<longleftrightarrow>
   outbox_step s t s'"
  unfolding outbox_step_simps reduceOutboxState_def read_outbox_text prod.case option.case
  by (cases s; cases t) auto

section \<open>Properties\<close>

text \<open>
  C10: The job reducer refines the abstract life of a job, in both directions. Whatever value is
  passed as transition, when the reducer accepts it on a well-formed job the result is a
  well-formed job one abstract step on (and the job itself once it has ended); and every
  abstract step of the job is reached by some transition value.
\<close>

theorem job_reducer_refines_life:
  assumes "job_wf job"
  shows "(\<forall>input job'. reduceJobState (to_jsval (job_value job)) input = Inr job' \<longrightarrow>
            job_wf job' \<and> phase_step (phase_of job) (phase_of job') \<and> (terminal (rj_state job) \<longrightarrow> job' = job))
       \<and> (\<forall>p. phase_step (phase_of job) p \<longrightarrow>
            (\<exists>input job'. reduceJobState (to_jsval (job_value job)) input = Inr job' \<and> phase_of job' = p))"
proof (intro conjI allI impI)
  fix input job'
  assume reduced: "reduceJobState (to_jsval (job_value job)) input = Inr job'"
  then obtain t where t: "parseTransition input = Inr t"
    by (auto simp: reduceJobState_def and_then_Inr_iff)
  then have step: "job_step job t job'" using assms reduced job_wf_shape history_step by blast
  then show "job_wf job'" using assms t job_step_wf parseTransition_shape by blast
  show "phase_step (phase_of job) (phase_of job')" using step by (rule job_step_phase)
  show "job' = job" if "terminal (rj_state job)" using step that by (auto elim!: job_stepE)
next
  fix p
  assume p: "phase_step (phase_of job) p"
  have "\<exists>t job'. transition_shape t \<and> job_step job t job' \<and> phase_of job' = p"
  proof (cases "terminal (rj_state job)")
    case True
    then have "p = phase_of job" using p by (auto simp: phase_of_def elim: phase_step.cases)
    then show ?thesis using True job_step.settled [of job TLease] by (intro exI [of _ TLease]) auto
  next
    case False
    let ?reach = "\<lambda>t job'. transition_shape t \<and> job_step job t job' \<and> phase_of job' = p"
    have "?reach TLease (in_state Leased) \<or> ?reach TRetry (in_state RetryWait)
        \<or> ?reach TSucceed (in_state Succeeded) \<or> ?reach TFail (failed_with ExecutionFailed)
        \<or> ?reach (TDependencyFailed None None) (failed_with DependencyFailed)
        \<or> ?reach TCancel (in_state Cancelled) \<or> ?reach (TSupersede ''x'') (supersededBy ''x'')"
      using p False
      by (cases rule: phase_step.cases)
        (auto simp: phase_of_def not_terminal job_step.intros split: if_split_asm)
    then show ?thesis by blast
  qed
  then show "\<exists>input job'. reduceJobState (to_jsval (job_value job)) input = Inr job' \<and> phase_of job' = p"
    using assms job_wf_shape reduceJobState_values apply_transition_step by metis
qed

lemma leased_wf: "job_wf (in_state Leased)"
  by (simp add: job_wf_def)

theorem job_reducer_refines_life_witness:
  "\<exists>input job'. reduceJobState (to_jsval (job_value (in_state Leased))) input = Inr job' \<and>
     phase_of job' = Ended Succeeded"
  using job_reducer_refines_life [OF leased_wf] phase_step.complete by (simp add: phase_of_def)


lemma sample_history: "job_history [TLease, TRetry, TLease, TSucceed] (in_state Succeeded)"
proof -
  have step: "job_history (ts @ [t]) job'"
    if "job_history ts job" "\<not> terminal (rj_state job)" "transition_shape t" "job_step job t job'" for ts job t job'
    using that job_history_wf [of ts job] job_wf_shape
    by (intro job_history.changed [where input = "to_jsval (transition_value t)"])
      (auto simp: parseTransition_value reduceJobState_values apply_transition_step)
  have "job_history ([] @ [TLease]) (in_state Leased)"
    by (rule step [OF job_history.created]) (auto intro: job_step.intros)
  then have "job_history (([] @ [TLease]) @ [TRetry]) (in_state RetryWait)"
    by (rule step) (auto intro: job_step.intros)
  then have "job_history ((([] @ [TLease]) @ [TRetry]) @ [TLease]) (in_state Leased)"
    by (rule step) (auto intro: job_step.intros)
  then have "job_history (((([] @ [TLease]) @ [TRetry]) @ [TLease]) @ [TSucceed]) (in_state Succeeded)"
    by (rule step) (auto intro: job_step.intros)
  then show ?thesis by simp
qed


text \<open>
  On any two values the job reducer returns a job, or rejects a value it can not read, or
  reports a lease conflict; the conflict means that both values were read and that no step
  leads from the job by the transition.
\<close>

theorem job_reducer_errors:
  "reduceJobState current input = Inl err \<longleftrightarrow>
     (case parseReducedJob current of
        Inl _ \<Rightarrow> err = orch_error INVALID_ORCHESTRATION_INPUT
      | Inr job \<Rightarrow>
          (case parseTransition input of
             Inl _ \<Rightarrow> err = orch_error INVALID_ORCHESTRATION_INPUT
           | Inr t \<Rightarrow> err = orch_error JOB_LEASE_CONFLICT \<and> (\<forall>job'. \<not> job_step job t job')))"
proof -
  have "apply_transition job t = Inl err \<longleftrightarrow>
      err = orch_error JOB_LEASE_CONFLICT \<and> (\<forall>job'. \<not> job_step job t job')" for job t
    using apply_transition_conflict [of job t] apply_transition_step [of job t]
    by (cases "apply_transition job t") auto
  then show ?thesis
    by (auto simp: reduceJobState_def split: sum.splits dest: parse_errors)
qed

text \<open>
  C22: On every request the retry delay is the exponential backoff over unbounded integers,
  although the code computes it in doubles and cuts it off at attempt 53; it is rejected
  exactly when a bound is violated. The delay stays between the base and the limit and never
  falls with the attempts.
\<close>

theorem retry_delay_bounds:
  "case computeRetryDelayMs (to_jsval (retry_value attempt base limit)) of
     Inr delay \<Rightarrow>
       retry_bounds attempt base limit \<and> delay = min limit (base * 2 ^ nat (attempt - 1))
       \<and> base \<le> delay \<and> delay \<le> limit \<and> delay \<le> backoff (attempt + 1) base limit
   | Inl err \<Rightarrow> \<not> retry_bounds attempt base limit \<and> err = orch_error INVALID_ORCHESTRATION_INPUT"
proof -
  have "base * 1 \<le> base * 2 ^ nat (attempt - 1)" if "1 \<le> base"
    using that by (intro mult_left_mono) auto
  moreover have "base * 2 ^ nat (attempt - 1) \<le> base * 2 ^ nat (attempt + 1 - 1)" if "1 \<le> base"
    using that by (intro mult_left_mono power_increasing) auto
  ultimately show ?thesis
    by (auto simp: computeRetryDelayMs_value retry_bounds_def backoff_def min_le_iff_disj
        simp del: mult_le_cancel_left_pos)
qed

text \<open>
  A message is delivered or exhausted only straight after a lease, every retry follows a
  lease, and the reducer moves a message exactly along the step relation, so that a settled
  message keeps its state.
\<close>

theorem outbox_delivery_follows_lease:
  assumes "outbox_history ts s"
  shows "(\<exists>n. ts = concat (replicate n [OLease, ORetry]) @
            (case s of
               OPending \<Rightarrow> [] | ORetryWait \<Rightarrow> [] | OLeased \<Rightarrow> [OLease]
             | ODelivered \<Rightarrow> [OLease, ODeliver] | OExhausted \<Rightarrow> [OLease, OExhaust]))
       \<and> (\<forall>t s'. reduceOutboxState (VString (outbox_state_text s)) (VString (outbox_transition_text t)) = Inr s'
            \<longleftrightarrow> outbox_step s t s')"
proof (intro conjI allI)
  have again: "concat (replicate n [OLease, ORetry]) @ [OLease, ORetry] = concat (replicate (Suc n) [OLease, ORetry])" for n
    by (simp add: replicate_append_same [symmetric])
  show "\<exists>n. ts = concat (replicate n [OLease, ORetry]) @
            (case s of
               OPending \<Rightarrow> [] | ORetryWait \<Rightarrow> [] | OLeased \<Rightarrow> [OLease]
             | ODelivered \<Rightarrow> [OLease, ODeliver] | OExhausted \<Rightarrow> [OLease, OExhaust])"
    using assms
  proof (induction rule: outbox_history.induct)
    case enqueued
    show ?case by (auto intro: exI [of _ 0])
  next
    case (moved ts s t s')
    then obtain n where n: "ts = concat (replicate n [OLease, ORetry]) @
        (case s of OPending \<Rightarrow> [] | ORetryWait \<Rightarrow> [] | OLeased \<Rightarrow> [OLease]
         | ODelivered \<Rightarrow> [OLease, ODeliver] | OExhausted \<Rightarrow> [OLease, OExhaust])" by blast
    have "outbox_step s t s'" using moved.hyps reduceOutboxState_step by simp
    then show ?case
      using n again [of n] moved.hyps(2) unfolding outbox_step_simps
      by (auto intro: exI [of _ n] exI [of _ "Suc n"])
  qed
qed (rule reduceOutboxState_step)

theorem outbox_delivery_follows_lease_witness:
  "\<exists>n. [OLease] = concat (replicate n [OLease, ORetry]) @ [OLease]"
proof -
  have "outbox_history ([] @ [OLease]) OLeased"
    by (rule outbox_history.moved [OF outbox_history.enqueued])
      (simp_all only: reduceOutboxState_step outbox_step_simps, simp_all)
  from outbox_delivery_follows_lease [OF this] show ?thesis by simp
qed

end
