(* ===== verification/OrchLocking.thy ===== *)
theory OrchLocking
  imports OrchBase "HOL-Library.Product_Lexorder"
begin

text \<open>
  Advisory locks: \<open>packages/orchestration/src/locking.ts\<close>, the branch key of
  \<open>packages/catalog/src/repository.ts\<close> and the restarting transaction of
  \<open>packages/orchestration/src/database.ts\<close>. A lock has a namespace with a rank and an identity
  text; every transaction requests its locks in the order of \<open>canonicalAdvisoryLocks\<close>. The
  database is a step relation on sessions: a lock is granted when no other session holds it.
\<close>

section \<open>Locks\<close>

definition LOCK_NAMESPACES :: "string list" where
  "LOCK_NAMESPACES =
     [''configuration.tenant'', ''capacity.global'', ''capacity.repository'', ''capacity.service'',
      ''subject.branch'', ''subject.pr'', ''reconciliation.branch'', ''reconciliation.pr'',
      ''analysis.checkpoint'', ''catalog.branch'']"

record lock_key =
  lk_namespace :: string
  lk_parts :: "string list"
  lk_advisoryIdentity :: "string option"

text \<open>\<open>namespaceRank\<close> maps a namespace to its index.\<close>

definition namespaceRank :: "(string, nat) jmap" where
  "namespaceRank = js_map (zip LOCK_NAMESPACES [0..<length LOCK_NAMESPACES])"

definition rank_of :: "lock_key \<Rightarrow> nat" where
  "rank_of lock = map_get_or 0 namespaceRank (lk_namespace lock)"

definition validatedLock :: "lock_key \<Rightarrow> (failure, lock_key) result" where
  "validatedLock input =
     (if lk_namespace input \<notin> set (map_keys namespaceRank) \<or> lk_parts input = []
        \<or> list_ex (\<lambda>part. part = []) (lk_parts input)
      then Inl (Rejected (orch_error INVALID_ORCHESTRATION_INPUT))
      else if lk_advisoryIdentity input \<noteq> None
        \<and> (lk_namespace input \<noteq> ''catalog.branch'' \<or> lk_advisoryIdentity input = Some [])
      then Inl (Rejected (orch_error INVALID_ORCHESTRATION_INPUT))
      else Inr input)"

text \<open>The identity of a catalog lock without \<open>advisoryIdentity\<close> is \<open>undefined\<close>: \<open>None\<close>.\<close>

definition lock_identity :: "lock_key \<Rightarrow> string option" where
  "lock_identity lock =
     (if lk_namespace lock = ''catalog.branch'' then lk_advisoryIdentity lock
      else Some (canonicalJson (JArr (JStr (lk_namespace lock) # map JStr (lk_parts lock)))))"

definition advisoryLockIdentity :: "lock_key \<Rightarrow> (failure, string option) result" where
  "advisoryLockIdentity input = and_then (validatedLock input) (\<lambda>lock. Inr (lock_identity lock))"

definition compare_locks :: "lock_key \<Rightarrow> lock_key \<Rightarrow> int" where
  "compare_locks left right =
     (let rank = int (rank_of left) - int (rank_of right)
      in if rank \<noteq> 0 then rank
         else compareUtf8 (the (lock_identity left)) (the (lock_identity right)))"

text \<open>
  \<open>canonicalAdvisoryLocks\<close>. Sorting compares every element with some other element of its rank
  when there is one, so a lock without identity makes the sort throw as soon as a second
  catalog lock is present.
\<close>

definition canonicalAdvisoryLocks :: "lock_key list \<Rightarrow> (failure, lock_key list) result" where
  "canonicalAdvisoryLocks inputs =
     and_then (traverse (\<lambda>input. and_then (validatedLock input) (\<lambda>lock. Inr (lock_identity lock, lock))) inputs)
       (\<lambda>pairs.
          let unique = js_map pairs
          in if None \<in> set (map_keys unique)
               \<and> 1 < length (filter (\<lambda>lock. lk_namespace lock = ''catalog.branch'') (map_values unique))
             then Inl TypeErrorThrown
             else Inr (js_sort compare_locks (map_values unique)))"

text \<open>\<open>acquireAdvisoryLocks\<close>: the lock requests sent to the database, in order, and the set returned.\<close>

definition acquireAdvisoryLocks ::
  "lock_key list \<Rightarrow> (failure, string option list \<times> string option list) result" where
  "acquireAdvisoryLocks inputs =
     and_then (canonicalAdvisoryLocks inputs) (\<lambda>locks.
       and_then (traverse advisoryLockIdentity locks) (\<lambda>identities.
         Inr (identities, foldl (\<lambda>acquired identity. set_add identity acquired) [] identities)))"

text \<open>\<open>requireDiscoveredLocks\<close>: the locks of the restart it throws, or nothing.\<close>

definition requireDiscoveredLocks ::
  "string option list \<Rightarrow> lock_key list \<Rightarrow> (failure, lock_key list option) result" where
  "requireDiscoveredLocks acquired required =
     and_then (canonicalAdvisoryLocks required) (\<lambda>locks.
       let missing = filter (\<lambda>lock. lock_identity lock \<notin> set acquired) locks
       in if missing = [] then Inr None
          else and_then (canonicalAdvisoryLocks missing) (\<lambda>missingLocks. Inr (Some missingLocks)))"

section \<open>The locks the code takes\<close>

definition plain_lock :: "string \<Rightarrow> string list \<Rightarrow> lock_key" where
  "plain_lock namespace parts =
     \<lparr>lk_namespace = namespace, lk_parts = parts, lk_advisoryIdentity = None\<rparr>"

definition configurationLock :: "string \<Rightarrow> lock_key" where
  "configurationLock tenantId = plain_lock ''configuration.tenant'' [tenantId]"

definition capacityGlobalLock :: "string \<Rightarrow> lock_key" where
  "capacityGlobalLock tenantId = plain_lock ''capacity.global'' [tenantId]"

definition capacityRepositoryLock :: "string \<Rightarrow> string \<Rightarrow> lock_key" where
  "capacityRepositoryLock tenantId repositoryId = plain_lock ''capacity.repository'' [tenantId, repositoryId]"

definition capacityServiceLock :: "string \<Rightarrow> string \<Rightarrow> string \<Rightarrow> lock_key" where
  "capacityServiceLock tenantId repositoryId serviceId =
     plain_lock ''capacity.service'' [tenantId, repositoryId, serviceId]"

definition branchLock :: "string \<Rightarrow> string \<Rightarrow> string \<Rightarrow> string \<Rightarrow> lock_key" where
  "branchLock tenantId repositoryId serviceId branch =
     plain_lock ''subject.branch'' [tenantId, repositoryId, serviceId, branch]"

definition pullRequestLock :: "string \<Rightarrow> string \<Rightarrow> string \<Rightarrow> string \<Rightarrow> lock_key" where
  "pullRequestLock tenantId repositoryId serviceId pullRequestId =
     plain_lock ''subject.pr'' [tenantId, repositoryId, serviceId, pullRequestId]"

definition reconciliationBranchLock :: "string \<Rightarrow> string \<Rightarrow> string \<Rightarrow> string \<Rightarrow> lock_key" where
  "reconciliationBranchLock tenantId repositoryId serviceId branch =
     plain_lock ''reconciliation.branch'' [tenantId, repositoryId, serviceId, branch]"

definition reconciliationPullRequestLock :: "string \<Rightarrow> string \<Rightarrow> string \<Rightarrow> string \<Rightarrow> lock_key" where
  "reconciliationPullRequestLock tenantId repositoryId serviceId pullRequestId =
     plain_lock ''reconciliation.pr'' [tenantId, repositoryId, serviceId, pullRequestId]"

definition analysisCheckpointLock :: "string \<Rightarrow> string \<Rightarrow> string \<Rightarrow> string \<Rightarrow> lock_key" where
  "analysisCheckpointLock tenantId repositoryId serviceId identity =
     plain_lock ''analysis.checkpoint'' [tenantId, repositoryId, serviceId, identity]"

text \<open>\<open>catalogBranchAdvisoryKey\<close>: netstrings; \<open>None\<close> is the thrown \<open>CatalogError\<close>.\<close>

definition byte_length :: "string \<Rightarrow> nat" where
  "byte_length s = length (utf8_points (code_points s))"

definition netstring :: "string \<Rightarrow> string" where
  "netstring s = nat_text (byte_length s) @ '':'' @ s"

definition catalogBranchAdvisoryKey :: "string \<Rightarrow> string \<Rightarrow> string \<Rightarrow> string \<Rightarrow> string option" where
  "catalogBranchAdvisoryKey tenantId repositoryId serviceId branch =
     (if [] \<in> set [tenantId, repositoryId, serviceId, branch] then None
      else Some (concat_map netstring [tenantId, repositoryId, serviceId, branch]))"

definition catalogBranchLock :: "string \<Rightarrow> string \<Rightarrow> string \<Rightarrow> string \<Rightarrow> lock_key option" where
  "catalogBranchLock tenantId repositoryId serviceId branch =
     (case catalogBranchAdvisoryKey tenantId repositoryId serviceId branch of
        None \<Rightarrow> None
      | Some key \<Rightarrow>
          Some \<lparr>lk_namespace = ''catalog.branch'', lk_parts = [tenantId, repositoryId, serviceId, branch],
            lk_advisoryIdentity = Some key\<rparr>)"

section \<open>Restarting transactions\<close>

text \<open>
  One attempt of a transaction, as its caller sees it: committed with a value, rolled back for a
  restart with the missing locks, or rolled back with an error.
\<close>

datatype 'a attempt = Committed 'a | Restart "lock_key list" | RolledBack orchestration_error

text \<open>
  \<open>withRestartingOrchestrationTransaction\<close>: at most four attempts, the \<open>n\<close>th seeing the
  database as it is then; the locks a restart asks for are carried along.
\<close>

fun restart_loop ::
  "nat \<Rightarrow> nat \<Rightarrow> (nat \<Rightarrow> lock_key list \<Rightarrow> 'a attempt) \<Rightarrow> lock_key list \<Rightarrow> 'a orch" where
  "restart_loop 0 n operation locks = Inl (orchestrationError ORCHESTRATION_STORAGE_ERROR (Some True) None)"
| "restart_loop (Suc left) n operation locks =
     (case operation n locks of
        Committed value \<Rightarrow> Inr value
      | RolledBack err \<Rightarrow> Inl err
      | Restart missing \<Rightarrow> restart_loop left (Suc n) operation (locks @ missing))"

definition withRestartingOrchestrationTransaction ::
  "lock_key list \<Rightarrow> (nat \<Rightarrow> lock_key list \<Rightarrow> 'a attempt) \<Rightarrow> 'a orch" where
  "withRestartingOrchestrationTransaction initialLocks operation = restart_loop 4 0 operation initialLocks"

section \<open>The order of locks\<close>

type_synonym lock_place = "nat \<times> string"

definition lock_position :: "lock_key \<Rightarrow> lock_place" where
  "lock_position lock = (rank_of lock, the (lock_identity lock))"

definition lock_valid :: "lock_key \<Rightarrow> bool" where
  "lock_valid lock \<longleftrightarrow> validatedLock lock = Inr lock"

lemma validatedLock_cases:
  "validatedLock lock = (if lock_valid lock then Inr lock
     else Inl (Rejected (orch_error INVALID_ORCHESTRATION_INPUT)))"
  by (simp add: lock_valid_def validatedLock_def)

lemma compare_locks_le: "compare_locks a b \<le> 0 \<longleftrightarrow> lock_position a \<le> lock_position b"
  by (auto simp: compare_locks_def lock_position_def Let_def less_eq_prod_def)

interpretation lock_order: collation compare_locks
  by unfold_locales (auto simp: compare_locks_le)

lemma js_sort_locks: "js_sort compare_locks = sort_key lock_position"
  by (rule ext, rule js_sort_key) (rule compare_locks_le)

lemma traverse_locks:
  "traverse (\<lambda>input. and_then (validatedLock input) (\<lambda>lock. Inr (f lock))) inputs =
     (if list_all lock_valid inputs then Inr (map f inputs)
      else Inl (Rejected (orch_error INVALID_ORCHESTRATION_INPUT)))"
  by (induction inputs) (auto simp: validatedLock_cases)

text \<open>The locks the constructors build.\<close>

definition built_lock :: "lock_key \<Rightarrow> bool" where
  "built_lock lock \<longleftrightarrow>
     lock_valid lock \<and>
     (if lk_namespace lock = ''catalog.branch''
      then lk_advisoryIdentity lock = Some (concat_map netstring (lk_parts lock))
      else lk_advisoryIdentity lock = None)"

text \<open>A netstring can be read back, so the keys of two branches are equal only for equal branches.\<close>

lemma byte_length_append: "byte_length (s @ t) = byte_length s + byte_length t"
  by (simp add: byte_length_def code_points_def utf8_points_def concat_map_def)

lemma byte_length_0: "byte_length s = 0 \<longleftrightarrow> s = []"
proof (cases s)
  case (Cons c cs)
  obtain b bs where "utf8_point (of_char c) = b # bs" using utf8_point_nonempty by blast
  with Cons show ?thesis by (simp add: byte_length_def code_points_def utf8_points_def)
qed (simp add: byte_length_def code_points_def utf8_points_def)

lemma same_length_prefix:
  assumes "s @ r = t @ u" "byte_length s = byte_length t"
  shows "s = t \<and> r = u"
  using assms by (auto simp: append_eq_append_conv2 byte_length_append byte_length_0)

lemma netstring_inj: "netstring s @ r = netstring t @ u \<Longrightarrow> s = t \<and> r = u"
proof -
  assume eq: "netstring s @ r = netstring t @ u"
  have "parse_nat (netstring w @ v) = Some (byte_length w, '':'' @ w @ v)" for w v
    by (simp add: netstring_def parse_nat_text stops_def digit_def)
  then have "byte_length s = byte_length t \<and> s @ r = t @ u"
    using eq by (metis append_Cons append_Nil list.inject option.inject prod.inject)
  then show ?thesis using same_length_prefix by blast
qed

lemma netstring_start: "\<exists>c cs. netstring s = c # cs \<and> digit c"
  using nat_text_start [of "byte_length s"] by (auto simp: netstring_def)

lemma netstrings_inj: "concat_map netstring ss = concat_map netstring ts \<Longrightarrow> ss = ts"
proof (induction ss arbitrary: ts)
  case Nil
  then show ?case using netstring_start [of "hd ts"] by (cases ts) auto
next
  case (Cons s ss)
  then show ?case using netstring_start [of s] by (cases ts) (auto dest: netstring_inj)
qed

lemma lock_text_inj:
  "canonicalJson (JArr (JStr n # map JStr ps)) = canonicalJson (JArr (JStr m # map JStr qs)) \<longleftrightarrow> n = m \<and> ps = qs"
proof -
  have "json_normal \<circ> JStr = JStr" by (rule ext) simp
  moreover have "map JStr ps = map JStr qs \<longleftrightarrow> ps = qs" by (rule inj_map_eq_map) (simp add: inj_def)
  ultimately show ?thesis by (subst canonicalJson_eq_iff) (auto simp: list_all_iff)
qed

lemma built_identity: "built_lock lock \<Longrightarrow> lock_identity lock \<noteq> None"
  by (auto simp: built_lock_def lock_identity_def split: if_splits)

lemma built_lock_eq:
  assumes "built_lock a" "built_lock b" "lock_identity a = lock_identity b"
  shows "a = b"
proof -
  have "lk_parts l \<noteq> []" if "built_lock l" for l
    using that by (auto simp: built_lock_def lock_valid_def validatedLock_def split: if_splits)
  then have first: "\<exists>c cs. concat_map netstring (lk_parts l) = c # cs \<and> digit c" if "built_lock l" for l
    using that netstring_start [of "hd (lk_parts l)"] by (cases "lk_parts l") auto
  have bracket: "concat_map netstring (lk_parts x) \<noteq> CHR ''['' # s" if "built_lock x" for x s
    using first [OF that] by (auto simp: digit_def)
  show ?thesis
    using assms bracket [OF assms(1)] bracket [OF assms(2)] lock_text_inj
    by (cases a; cases b)
      (auto simp: built_lock_def lock_identity_def dest: netstrings_inj split: if_splits
        simp del: canonicalJson.simps(5) intro: sym simp: canonicalJson.simps(5) [where vs = "_ # _"])
qed

section \<open>Canonical lock lists\<close>

lemma canonicalAdvisoryLocks_eq:
  assumes "list_all lock_valid inputs" "\<forall>lock \<in> set inputs. lock_identity lock \<noteq> None"
  shows "canonicalAdvisoryLocks inputs =
    Inr (sort_key lock_position (map_values (keyed lock_identity inputs)))"
proof -
  have "None \<notin> fst ` set (keyed lock_identity inputs)" using assms(2) unfolding keys_keyed by (metis imageE)
  then show ?thesis
    using assms(1)
    by (simp add: canonicalAdvisoryLocks_def traverse_locks keyed_def [symmetric] js_sort_locks Let_def
        image_image)
qed

lemma position_identity:
  "lock_position a = lock_position b \<Longrightarrow> lock_identity a \<noteq> None \<Longrightarrow> lock_identity b \<noteq> None \<Longrightarrow>
   lock_identity a = lock_identity b"
  by (cases "lock_identity a"; cases "lock_identity b") (simp_all add: lock_position_def)

lemma positions_strict:
  assumes "distinct (map lock_identity locks)" "\<forall>lock \<in> set locks. lock_identity lock \<noteq> None"
  shows "sorted_wrt (<) (map lock_position (sort_key lock_position locks))"
proof -
  have "inj_on lock_position (set locks)"
    using assms position_identity unfolding distinct_map inj_on_def by blast
  then have "distinct (map lock_position locks)" using assms(1) by (simp add: distinct_map)
  then have "distinct (map lock_position (sort_key lock_position locks))"
    by (simp add: distinct_map)
  then show ?thesis by (simp add: strict_sorted_iff)
qed

lemma keyed_identities:
  "map lock_identity (map_values (keyed lock_identity inputs)) = map_keys (keyed lock_identity inputs)"
  by (auto intro!: map_cong dest: keyed_mem simp: comp_def)

lemma set_add_distinct: "distinct (acc @ xs) \<Longrightarrow> foldl (\<lambda>s x. set_add x s) acc xs = acc @ xs"
  by (induction xs arbitrary: acc) (auto simp: set_add_def)

text \<open>What every caller relies on.\<close>

lemma canonical_locks:
  assumes "list_all lock_valid inputs" "\<forall>lock \<in> set inputs. lock_identity lock \<noteq> None"
  obtains locks where "canonicalAdvisoryLocks inputs = Inr locks"
    and "sorted_wrt (<) (map lock_position locks)"
    and "set locks \<subseteq> set inputs" and "lock_identity ` set locks = lock_identity ` set inputs"
    and "acquireAdvisoryLocks inputs = Inr (map lock_identity locks, map lock_identity locks)"
proof -
  let ?u = "map_values (keyed lock_identity inputs)"
  let ?locks = "sort_key lock_position ?u"
  have sub: "set ?locks \<subseteq> set inputs" by (auto dest: keyed_mem)
  have ids: "distinct (map lock_identity ?u)" unfolding keyed_identities by (rule distinct_keyed)
  have all: "lock_identity ` set ?u = lock_identity ` set inputs"
    using keyed_identities [of inputs] by (metis keys_keyed set_map)
  have valid: "list_all lock_valid ?locks" using assms(1) sub unfolding list_all_iff by blast
  have strict: "sorted_wrt (<) (map lock_position ?locks)"
    using ids assms(2) sub by (intro positions_strict) (auto dest: keyed_mem)
  have "distinct (map lock_identity ?locks)" using ids unfolding distinct_map by (simp add: distinct_map)
  then have "foldl (\<lambda>s x. set_add x s) [] (map lock_identity ?locks) = map lock_identity ?locks"
    using set_add_distinct [of "[]"] by simp
  moreover have "traverse advisoryLockIdentity ?locks = Inr (map lock_identity ?locks)"
  proof (rule traverse_Inr_map)
    fix lock assume "lock \<in> set ?locks"
    then have "lock_valid lock" using valid unfolding list_all_iff by blast
    then show "advisoryLockIdentity lock = Inr (lock_identity lock)"
      by (simp add: advisoryLockIdentity_def validatedLock_cases)
  qed
  ultimately have "acquireAdvisoryLocks inputs = Inr (map lock_identity ?locks, map lock_identity ?locks)"
    using assms by (simp add: acquireAdvisoryLocks_def canonicalAdvisoryLocks_eq)
  then show ?thesis
    using that [of ?locks] assms strict sub all by (simp add: canonicalAdvisoryLocks_eq)
qed

lemma built_valid: "list_all built_lock inputs \<Longrightarrow> list_all lock_valid inputs"
  "list_all built_lock inputs \<Longrightarrow> \<forall>lock \<in> set inputs. lock_identity lock \<noteq> None"
  using built_identity by (auto simp: list_all_iff built_lock_def)

lemma built_identities_inj: "list_all built_lock inputs \<Longrightarrow> inj_on lock_identity (set inputs)"
  by (auto simp: inj_on_def list_all_iff intro: built_lock_eq)

lemma set_keyed_values: "inj_on key (set xs) \<Longrightarrow> set (map_values (keyed key xs)) = set xs"
  by (simp add: set_keyed image_image)

lemma built_canonical:
  assumes "list_all built_lock inputs"
  obtains locks where "canonicalAdvisoryLocks inputs = Inr locks"
    and "sorted_wrt (<) (map lock_position locks)" and "set locks = set inputs"
    and "acquireAdvisoryLocks inputs = Inr (map lock_identity locks, map lock_identity locks)"
proof -
  obtain locks where locks: "canonicalAdvisoryLocks inputs = Inr locks"
    "sorted_wrt (<) (map lock_position locks)"
    "acquireAdvisoryLocks inputs = Inr (map lock_identity locks, map lock_identity locks)"
    using canonical_locks [OF built_valid [OF assms]] by metis
  moreover have "set locks = set (map_values (keyed lock_identity inputs))"
    using locks(1) canonicalAdvisoryLocks_eq [OF built_valid [OF assms]] by force
  ultimately show ?thesis
    using that set_keyed_values [OF built_identities_inj [OF assms]] by simp
qed

lemma built_canonical_unique:
  assumes "list_all built_lock xs" "list_all built_lock ys" "set xs = set ys"
  shows "canonicalAdvisoryLocks xs = canonicalAdvisoryLocks ys"
proof -
  obtain ls where ls: "canonicalAdvisoryLocks xs = Inr ls" "sorted_wrt (<) (map lock_position ls)" "set ls = set xs"
    using built_canonical [OF assms(1)] by metis
  obtain ms where ms: "canonicalAdvisoryLocks ys = Inr ms" "sorted_wrt (<) (map lock_position ms)" "set ms = set ys"
    using built_canonical [OF assms(2)] by metis
  have "map lock_position ls = map lock_position ms"
    using ls ms assms(3) by (intro sorted_wrt_less_unique) auto
  moreover have "inj_on lock_position (set ls \<union> set ms)"
    using ls ms assms built_lock_eq position_identity built_valid(2) [OF assms(1)]
    unfolding inj_on_def list_all_iff by (metis Un_absorb)
  ultimately have "ls = ms" using map_inj_on by blast
  then show ?thesis using ls ms by simp
qed

section \<open>Sessions that wait for each other\<close>

text \<open>
  A session holds the locks granted so far and has the rest of its requests pending. The
  database locks the hash of an identity, so a request waits while another session holds a lock
  of the same hash. A session whose requests are all granted commits and releases its locks; at
  any point it may abort instead.
\<close>

type_synonym session = "lock_place list \<times> lock_place list"

definition session_of :: "lock_key list \<Rightarrow> session" where
  "session_of inputs =
     (case canonicalAdvisoryLocks inputs of Inl _ \<Rightarrow> ([], []) | Inr locks \<Rightarrow> ([], map lock_position locks))"

definition free_for :: "(string \<Rightarrow> 'h) \<Rightarrow> session list \<Rightarrow> nat \<Rightarrow> lock_place \<Rightarrow> bool" where
  "free_for hash ss i p \<longleftrightarrow>
     (\<forall>j < length ss. j \<noteq> i \<longrightarrow> (\<forall>q \<in> set (fst (ss ! j)). hash (snd q) \<noteq> hash (snd p)))"

inductive lock_step :: "(string \<Rightarrow> 'h) \<Rightarrow> session list \<Rightarrow> session list \<Rightarrow> bool" for hash where
  grant: "i < length ss \<Longrightarrow> ss ! i = (held, p # ps) \<Longrightarrow> free_for hash ss i p \<Longrightarrow>
    lock_step hash ss (ss[i := (held @ [p], ps)])"
| commit: "i < length ss \<Longrightarrow> ss ! i = (held, []) \<Longrightarrow> held \<noteq> [] \<Longrightarrow> lock_step hash ss (ss[i := ([], [])])"

inductive lock_run :: "(string \<Rightarrow> 'h) \<Rightarrow> session list \<Rightarrow> session list \<Rightarrow> bool" for hash ss where
  begin_run: "lock_run hash ss ss"
| proceed: "lock_run hash ss ss' \<Longrightarrow> lock_step hash ss' ss'' \<Longrightarrow> lock_run hash ss ss''"
| abort: "lock_run hash ss ss' \<Longrightarrow> i < length ss' \<Longrightarrow> lock_run hash ss (ss'[i := ([], [])])"

definition session_work :: "session \<Rightarrow> nat" where
  "session_work s = 2 * length (snd s) + (if fst s = [] then 0 else 1)"

definition work :: "session list \<Rightarrow> nat" where
  "work ss = sum_list (map session_work ss)"

definition ordered_session :: "lock_place set \<Rightarrow> session \<Rightarrow> bool" where
  "ordered_session u s \<longleftrightarrow> sorted_wrt (<) (fst s @ snd s) \<and> set (fst s @ snd s) \<subseteq> u"

lemma work_update:
  "i < length ss \<Longrightarrow> session_work s < session_work (ss ! i) \<Longrightarrow> work (ss[i := s]) < work ss"
proof -
  assume i: "i < length ss" and less: "session_work s < session_work (ss ! i)"
  have "work (ss[i := s]) + session_work (ss ! i) = work ss + session_work s"
    if "i < length ss" for ss i
    using that by (induction ss arbitrary: i) (auto simp: work_def nth_Cons split: nat.splits)
  with i less show ?thesis by fastforce
qed

lemma lock_step_work: "lock_step hash ss ss' \<Longrightarrow> work ss' < work ss"
  by (induction rule: lock_step.induct) (auto intro!: work_update simp: session_work_def)

lemma all_update: "\<forall>s \<in> set ss. P s \<Longrightarrow> P x \<Longrightarrow> \<forall>s \<in> set (ss[i := x]). P s"
  using set_update_subset_insert [of ss i x] by blast

lemma lock_run_ordered:
  assumes "lock_run hash ss ss'" "\<forall>s \<in> set ss. ordered_session u s"
  shows "\<forall>s \<in> set ss'. ordered_session u s"
  using assms
proof (induction rule: lock_run.induct)
  case (proceed ss' ss'')
  have idle: "ordered_session u ([], [])" by (simp add: ordered_session_def)
  have all: "\<forall>s \<in> set ss'. ordered_session u s" using proceed by blast
  from proceed.hyps(2) show ?case
  proof cases
    case (grant i held p ps)
    then have "ordered_session u (held, p # ps)" using all nth_mem by metis
    then have "ordered_session u (held @ [p], ps)" by (simp add: ordered_session_def)
    from all_update [OF all this] show ?thesis by (simp add: grant(1))
  next
    case (commit i held)
    from all_update [OF all idle] show ?thesis by (simp add: commit(1))
  qed
next
  case (abort ss' i)
  moreover have "ordered_session u ([], [])" by (simp add: ordered_session_def)
  ultimately show ?case by (intro all_update) blast+
qed

lemma ordered_progress:
  assumes all: "\<forall>s \<in> set ss. ordered_session u s" and inj: "inj_on (\<lambda>p. hash (snd p)) u"
    and busy: "i < length ss" "ss ! i \<noteq> ([], [])"
  shows "\<exists>ss'. lock_step hash ss ss'"
proof (cases "\<exists>j < length ss. ss ! j \<noteq> ([], []) \<and> snd (ss ! j) = []")
  case True
  then obtain j where "j < length ss" "ss ! j = (fst (ss ! j), [])" "fst (ss ! j) \<noteq> []"
    by (metis prod.collapse)
  then show ?thesis using lock_step.commit by blast
next
  case False
  define wanting where "wanting = {j. j < length ss \<and> snd (ss ! j) \<noteq> []}"
  have busy_wants: "j \<in> wanting" if "j < length ss" "ss ! j \<noteq> ([], [])" for j
    using that False by (auto simp: wanting_def)
  have fin: "finite ((\<lambda>j. hd (snd (ss ! j))) ` wanting)" by (simp add: wanting_def)
  have "(\<lambda>j. hd (snd (ss ! j))) ` wanting \<noteq> {}" using busy busy_wants by blast
  from Max_in [OF fin this] obtain k where k: "k \<in> wanting"
    and m: "Max ((\<lambda>j. hd (snd (ss ! j))) ` wanting) = hd (snd (ss ! k))"
    by (rule imageE)
  have most: "hd (snd (ss ! j)) \<le> hd (snd (ss ! k))" if "j \<in> wanting" for j
    using Max_ge [OF fin imageI [OF that]] m by simp
  obtain held p ps where s: "ss ! k = (held, p # ps)"
    using k by (metis (mono_tags, lifting) list.exhaust mem_Collect_eq prod.collapse wanting_def)
  have "free_for hash ss k p"
    unfolding free_for_def
  proof (intro allI impI ballI notI)
    fix j q
    assume j: "j < length ss" "j \<noteq> k" and q: "q \<in> set (fst (ss ! j))" and same: "hash (snd q) = hash (snd p)"
    have "ordered_session u (ss ! k)" using all k by (simp add: wanting_def)
    then have "p \<in> u" by (simp add: s ordered_session_def)
    have o: "ordered_session u (ss ! j)" using all j by simp
    then have "q \<in> u" using q by (auto simp: ordered_session_def)
    then have "q = p" using same inj \<open>p \<in> u\<close> by (auto dest: inj_onD)
    have w: "j \<in> wanting" using busy_wants [OF j(1)] q by (metis empty_iff fst_conv list.set(1))
    then have "hd (snd (ss ! j)) \<in> set (snd (ss ! j))" by (simp add: wanting_def)
    then have "q < hd (snd (ss ! j))" using o q by (simp add: ordered_session_def sorted_wrt_append)
    with most [OF w] \<open>q = p\<close> show False by (simp add: s)
  qed
  then show ?thesis using lock_step.grant [OF _ s] k unfolding wanting_def by blast
qed

text \<open>
  C3: Transactions that take the locks the code builds never deadlock: in every state a set of
  sessions can reach, aborts included, as long as one of them is not finished some session can
  proceed, and every step leaves less to do. The hypothesis says that the database's hash
  separates the identities in use.
\<close>

theorem lock_sessions_never_deadlock:
  assumes "\<forall>inputs \<in> set transactions. list_all built_lock inputs"
    and "inj_on hash {identity. \<exists>inputs \<in> set transactions. \<exists>lock \<in> set inputs. lock_identity lock = Some identity}"
    and "lock_run hash (map session_of transactions) ss"
    and "i < length ss" "ss ! i \<noteq> ([], [])"
  shows "(\<exists>ss'. lock_step hash ss ss') \<and> (\<forall>ss'. lock_step hash ss ss' \<longrightarrow> work ss' < work ss)"
proof (intro conjI allI impI)
  define u where "u = lock_position ` (\<Union>inputs \<in> set transactions. set inputs)"
  have start: "\<forall>s \<in> set (map session_of transactions). ordered_session u s"
  proof
    fix s assume "s \<in> set (map session_of transactions)"
    then obtain inputs where inputs: "inputs \<in> set transactions" "s = session_of inputs" by auto
    then have "list_all built_lock inputs" using assms(1) by blast
    then obtain locks where "canonicalAdvisoryLocks inputs = Inr locks"
      "sorted_wrt (<) (map lock_position locks)" "set locks = set inputs"
      by (rule built_canonical)
    with inputs show "ordered_session u s" by (auto simp: session_of_def ordered_session_def u_def)
  qed
  have "inj_on (\<lambda>p. hash (snd p)) u"
  proof (rule inj_onI)
    fix p q assume p: "p \<in> u" and q: "q \<in> u" and same: "hash (snd p) = hash (snd q)"
    obtain a where a: "p = lock_position a" "built_lock a" "\<exists>inputs \<in> set transactions. a \<in> set inputs"
      using p assms(1) by (auto simp: u_def list_all_iff)
    obtain b where b: "q = lock_position b" "built_lock b" "\<exists>inputs \<in> set transactions. b \<in> set inputs"
      using q assms(1) by (auto simp: u_def list_all_iff)
    obtain x y where "lock_identity a = Some x" "lock_identity b = Some y"
      using a(2) b(2) built_identity by blast
    moreover from this have "x = y"
      using assms(2) same a(1,3) b(1,3) by (auto simp: lock_position_def dest: inj_onD)
    ultimately have "a = b" using a(2) b(2) built_lock_eq by simp
    then show "p = q" using a b by simp
  qed
  then show "\<exists>ss'. lock_step hash ss ss'"
    using ordered_progress lock_run_ordered [OF assms(3) start] assms(4,5) by blast
qed (rule lock_step_work)

lemma sample_locks_built:
  "list_all built_lock [branchLock ''t'' ''r'' ''s'' ''main'', configurationLock ''t'']"
  by (simp add: built_lock_def lock_valid_def validatedLock_def branchLock_def configurationLock_def
      plain_lock_def namespaceRank_def LOCK_NAMESPACES_def js_map_def upt_rec)

theorem lock_sessions_never_deadlock_witness:
  "\<exists>ss'. lock_step (\<lambda>s. s) (map session_of [[branchLock ''t'' ''r'' ''s'' ''main'', configurationLock ''t''],
     [configurationLock ''t'', branchLock ''t'' ''r'' ''s'' ''main'']]) ss'"
proof -
  let ?ts = "[[branchLock ''t'' ''r'' ''s'' ''main'', configurationLock ''t''],
     [configurationLock ''t'', branchLock ''t'' ''r'' ''s'' ''main'']]"
  have built: "\<forall>inputs \<in> set ?ts. list_all built_lock inputs" using sample_locks_built by simp
  have b: "list_all built_lock (?ts ! 0)" using sample_locks_built by simp
  obtain locks where locks: "canonicalAdvisoryLocks (?ts ! 0) = Inr locks" "set locks = set (?ts ! 0)"
    by (rule built_canonical [OF b])
  then have "locks \<noteq> []" by force
  then have "map session_of ?ts ! 0 \<noteq> ([], [])" using locks by (simp add: session_of_def)
  moreover have "0 < length (map session_of ?ts)" by simp
  ultimately show ?thesis
    using lock_sessions_never_deadlock [OF built inj_on_id2 lock_run.begin_run] by blast
qed

section \<open>Order independence\<close>

text \<open>
  C36: What is locked depends on the set of locks alone: two lists with the same locks, in any
  order and with any repetitions, send the same requests, one for each lock, in ascending order
  of rank and identity; and requiring any of these locks afterwards asks for no restart.
\<close>

theorem lock_requests_canonical:
  assumes "list_all built_lock inputs" "set inputs = set others"
  shows "\<exists>locks. acquireAdvisoryLocks inputs = Inr (map lock_identity locks, map lock_identity locks)
     \<and> acquireAdvisoryLocks others = acquireAdvisoryLocks inputs
     \<and> set locks = set inputs \<and> sorted_wrt (<) (map lock_position locks)
     \<and> requireDiscoveredLocks (map lock_identity locks) others = Inr None"
proof -
  obtain locks where locks: "canonicalAdvisoryLocks inputs = Inr locks"
    "sorted_wrt (<) (map lock_position locks)" "set locks = set inputs"
    "acquireAdvisoryLocks inputs = Inr (map lock_identity locks, map lock_identity locks)"
    by (rule built_canonical [OF assms(1)])
  have "list_all built_lock others" using assms by (simp add: list_all_iff)
  then have same: "canonicalAdvisoryLocks others = Inr locks"
    using built_canonical_unique [OF assms(1) _ assms(2)] locks(1) by simp
  then have "acquireAdvisoryLocks others = acquireAdvisoryLocks inputs"
    using locks(1) by (simp add: acquireAdvisoryLocks_def)
  moreover have "requireDiscoveredLocks (map lock_identity locks) others = Inr None"
    using same by (auto simp: requireDiscoveredLocks_def filter_empty_conv)
  ultimately show ?thesis using locks by blast
qed

theorem lock_requests_canonical_witness:
  "requireDiscoveredLocks
     (case acquireAdvisoryLocks [branchLock ''t'' ''r'' ''s'' ''main'', configurationLock ''t''] of
        Inr (_, acquired) \<Rightarrow> acquired | Inl _ \<Rightarrow> [])
     [branchLock ''t'' ''r'' ''s'' ''main'', configurationLock ''t''] = Inr None"
  using lock_requests_canonical [OF sample_locks_built refl] by (auto simp del: map_map)

section \<open>A catalog lock without identity\<close>

text \<open>
  C40: \<open>validatedLock\<close> lets a \<open>catalog.branch\<close> lock through that has no \<open>advisoryIdentity\<close>. Alone
  it is requested with the identity \<open>undefined\<close>, on which the database locks nothing; together
  with another catalog lock the sort throws a \<open>TypeError\<close> instead of a rejection.
\<close>

theorem catalog_lock_without_identity:
  assumes "parts \<noteq> []" "\<forall>part \<in> set parts. part \<noteq> []" "key \<noteq> []"
  shows "acquireAdvisoryLocks [plain_lock ''catalog.branch'' parts] = Inr ([None], [None])
     \<and> canonicalAdvisoryLocks [plain_lock ''catalog.branch'' parts,
         \<lparr>lk_namespace = ''catalog.branch'', lk_parts = parts, lk_advisoryIdentity = Some key\<rparr>] = Inl TypeErrorThrown"
proof -
  have known: "''catalog.branch'' \<in> set (map_keys namespaceRank)"
    by (simp add: namespaceRank_def LOCK_NAMESPACES_def js_map_def upt_rec)
  let ?a = "plain_lock ''catalog.branch'' parts"
  let ?b = "\<lparr>lk_namespace = ''catalog.branch'', lk_parts = parts, lk_advisoryIdentity = Some key\<rparr>"
  have valid: "lock_valid ?a" "lock_valid ?b"
    using assms known by (auto simp: lock_valid_def validatedLock_def plain_lock_def list_ex_iff)
  have ids: "lock_identity ?a = None" "lock_identity ?b = Some key"
    by (simp_all add: lock_identity_def plain_lock_def)
  have ns: "lk_namespace ?a = ''catalog.branch''" by (simp add: plain_lock_def)
  have "canonicalAdvisoryLocks [?a] = Inr [?a]"
    using valid ids by (simp add: canonicalAdvisoryLocks_def traverse_locks js_map_def js_sort_def)
  then have "acquireAdvisoryLocks [?a] = Inr ([None], [None])"
    using valid ids by (simp add: acquireAdvisoryLocks_def advisoryLockIdentity_def validatedLock_cases set_add_def)
  moreover have "canonicalAdvisoryLocks [?a, ?b] = Inl TypeErrorThrown"
    using valid ids ns by (simp add: canonicalAdvisoryLocks_def traverse_locks js_map_def)
  ultimately show ?thesis by blast
qed

theorem catalog_lock_without_identity_witness:
  "acquireAdvisoryLocks [plain_lock ''catalog.branch'' [''t'', ''r'', ''s'', ''b'']] = Inr ([None], [None])"
  using catalog_lock_without_identity [of "[''t'', ''r'', ''s'', ''b'']" "''k''"] by simp

section \<open>Restarts\<close>

text \<open>
  The transactions of the package: take the carried locks and those discovered before, then
  require the locks that the data read under them calls for, then do the work.
\<close>

definition locked_operation ::
  "(nat \<Rightarrow> lock_key list) \<Rightarrow> (nat \<Rightarrow> lock_key list) \<Rightarrow> (nat \<Rightarrow> 'a) \<Rightarrow> nat \<Rightarrow> lock_key list \<Rightarrow> 'a attempt" where
  "locked_operation discovered required body n carried =
     (case acquireAdvisoryLocks (carried @ discovered n) of
        Inl (Rejected err) \<Rightarrow> RolledBack err
      | Inl TypeErrorThrown \<Rightarrow> RolledBack orchestrationStorageError
      | Inr (_, acquired) \<Rightarrow>
          (case requireDiscoveredLocks acquired (required n) of
             Inl (Rejected err) \<Rightarrow> RolledBack err
           | Inl TypeErrorThrown \<Rightarrow> RolledBack orchestrationStorageError
           | Inr None \<Rightarrow> Committed (body n)
           | Inr (Some missing) \<Rightarrow> Restart missing))"

lemma require_built:
  assumes "list_all built_lock held" "list_all built_lock required"
    "acquireAdvisoryLocks held = Inr (ids, acquired)"
  shows "if set required \<subseteq> set held then requireDiscoveredLocks acquired required = Inr None
    else \<exists>missing. requireDiscoveredLocks acquired required = Inr (Some missing)
      \<and> set missing = set required - set held"
proof -
  obtain ls where ls: "set ls = set held" "acquireAdvisoryLocks held = Inr (map lock_identity ls, map lock_identity ls)"
    by (rule built_canonical [OF assms(1)])
  obtain rs where rs: "canonicalAdvisoryLocks required = Inr rs" "set rs = set required"
    by (rule built_canonical [OF assms(2)])
  have "lock_identity r \<in> set acquired \<longleftrightarrow> r \<in> set held" if "r \<in> set required" for r
    using that assms ls built_lock_eq unfolding list_all_iff by (auto, metis)
  then have missing: "set (filter (\<lambda>lock. lock_identity lock \<notin> set acquired) rs) = set required - set held"
    using rs(2) by auto
  have "list_all built_lock (filter (\<lambda>lock. lock_identity lock \<notin> set acquired) rs)"
    using assms(2) rs(2) by (simp add: list_all_iff)
  then obtain ms where "canonicalAdvisoryLocks (filter (\<lambda>lock. lock_identity lock \<notin> set acquired) rs) = Inr ms"
    "set ms = set (filter (\<lambda>lock. lock_identity lock \<notin> set acquired) rs)"
    by (rule built_canonical)
  with rs(1) missing show ?thesis
    by (auto simp: requireDiscoveredLocks_def simp flip: set_empty)
qed

lemma locked_operation_built:
  assumes "list_all built_lock (carried @ discovered n)" "list_all built_lock (required n)"
  shows "if set (required n) \<subseteq> set (carried @ discovered n)
    then locked_operation discovered required body n carried = Committed (body n)
    else \<exists>missing. locked_operation discovered required body n carried = Restart missing
      \<and> set missing = set (required n) - set (carried @ discovered n)"
proof -
  obtain ids acquired where "acquireAdvisoryLocks (carried @ discovered n) = Inr (ids, acquired)"
    by (rule built_canonical [OF assms(1)])
  with require_built [OF assms this] show ?thesis
    by (auto simp: locked_operation_def split: if_splits)
qed

lemma restart_loop_safe:
  assumes "\<And>n. list_all built_lock (discovered n)" "\<And>n. list_all built_lock (required n)"
  shows "list_all built_lock carried \<Longrightarrow>
    restart_loop k n (locked_operation discovered required body) carried = Inr v \<Longrightarrow>
    \<exists>m c. n \<le> m \<and> m < n + k \<and> v = body m \<and> set (required m) \<subseteq> set (c @ discovered m)"
proof (induction k arbitrary: n carried)
  case 0
  then show ?case by simp
next
  case (Suc k)
  note step = locked_operation_built [of carried discovered n required body]
  have built: "list_all built_lock (carried @ discovered n)" using Suc.prems(1) assms(1) by simp
  show ?case
  proof (cases "set (required n) \<subseteq> set (carried @ discovered n)")
    case True
    then have "v = body n" using step [OF built assms(2)] Suc.prems(2) by simp
    with True show ?thesis by (intro exI [of _ n] exI [of _ carried]) simp
  next
    case False
    then obtain missing where m: "locked_operation discovered required body n carried = Restart missing"
      "set missing = set (required n) - set (carried @ discovered n)"
      using step [OF built assms(2)] by auto
    then have "list_all built_lock (carried @ missing)"
      using Suc.prems(1) assms(2) [of n] by (auto simp: list_all_iff)
    moreover have "restart_loop k (Suc n) (locked_operation discovered required body) (carried @ missing) = Inr v"
      using Suc.prems(2) m(1) by simp
    ultimately show ?thesis using Suc.IH [of "carried @ missing" "Suc n"]
      by (metis Suc_leD add_Suc add_Suc_right)
  qed
qed



end
