(* ===== verification/IrEvents.thy ===== *)
theory IrEvents
  imports Snapshot JsonParse
begin

text \<open>
  Events and installation configurations: \<open>packages/ir/src/events.ts\<close> and
  \<open>packages/ir/src/config.ts\<close>. A shape with fixed members is a record, a union a datatype. The
  functions \<open>event_json\<close> and \<open>config_json\<close> write a value back as the JSON object it is, because
  the orchestration compares canonical texts. The shape validator is a parameter; \<open>same_value\<close>
  is what its documentation says of it: it returns the value it was given.
\<close>

section \<open>Objects\<close>

text \<open>An object literal in which some members are optional.\<close>

fun present :: "(string \<times> json option) list \<Rightarrow> (string \<times> json) list" where
  "present [] = []"
| "present ((k, Some j) # members) = (k, j) # present members"
| "present ((k, None) # members) = present members"

definition object_of :: "(string \<times> json option) list \<Rightarrow> json" where
  "object_of members = JObj (present members)"

definition same_value :: "('a \<Rightarrow> json) \<Rightarrow> (json \<Rightarrow> validation_issue list + 'a) \<Rightarrow> bool" where
  "same_value encode shape \<longleftrightarrow>
     (\<forall>j v. shape j = Inr v \<longrightarrow> json_normal (encode v) = json_normal j)"

section \<open>Events\<close>

record subjects =
  su_repository_id :: "string option"
  su_service_ids :: "string list"
  su_environment :: "string option"

datatype order_kind = SequenceOrder | CursorOrder | EffectiveVersionOrder

fun order_kind_text :: "order_kind \<Rightarrow> string" where
  "order_kind_text SequenceOrder = ''sequence''"
| "order_kind_text CursorOrder = ''cursor''"
| "order_kind_text EffectiveVersionOrder = ''effective_version''"

record provider_order =
  po_kind :: order_kind
  po_value :: string

record provider_evidence =
  pe_provider :: string
  pe_provider_reference :: string
  pe_order :: "provider_order option"

datatype revision_reference = KnownRevision string | UnknownRevision string

datatype attempt_state = AttemptPending | AttemptSucceeded | AttemptFailed | RollbackRequested | RolledBackAttempt

fun attempt_state_text :: "attempt_state \<Rightarrow> string" where
  "attempt_state_text AttemptPending = ''pending''"
| "attempt_state_text AttemptSucceeded = ''succeeded''"
| "attempt_state_text AttemptFailed = ''failed''"
| "attempt_state_text RollbackRequested = ''rollback_requested''"
| "attempt_state_text RolledBackAttempt = ''rolled_back''"

record deployment_attempt =
  da_deployment_id :: string
  da_environment :: string
  da_attempt_state :: attempt_state
  da_effective_order :: string
  da_artifact_id :: "string option"
  da_revision :: revision_reference
  da_target_revision :: "string option"
  da_configuration_digest :: "string option"

record observation_source =
  os_authority_id :: string
  os_reference :: string
  os_access_label :: string

datatype completeness = Complete | Incomplete | Transitional

fun completeness_text :: "completeness \<Rightarrow> string" where
  "completeness_text Complete = ''complete''"
| "completeness_text Incomplete = ''incomplete''"
| "completeness_text Transitional = ''transitional''"

record artifact_mapping =
  am_artifact_id :: string
  am_revision :: revision_reference

datatype serving_state =
    ServingKnown "artifact_mapping list"
  | ServingUnknown string "string list option"

record serving_observation =
  so_observation_id :: string
  so_environment :: string
  so_source :: observation_source
  so_completeness :: completeness
  so_effective_order :: string
  so_rollback_request_id :: "string option"
  so_serving_state :: serving_state

record pull_request_update =
  pu_pull_request_id :: string
  pu_state :: string
  pu_base_branch :: string
  pu_base_revision :: string
  pu_head_branch :: string
  pu_head_revision :: string

record branch_update =
  bu_branch :: string
  bu_prior_revision :: "string option"
  bu_new_revision :: string
  bu_reference_state :: string

record configuration_change =
  cc_config_version :: string
  cc_config_fingerprint :: string
  cc_affected_service_ids :: "string list"
  cc_affected_scope :: string

record document_change =
  dc_document_id :: string
  dc_source_version :: string
  dc_state :: string
  dc_access_label :: string

text \<open>The seven event types with their payloads; a deployment change is one of two shapes.\<close>

datatype event_payload =
    BaselineRequested string "string list"
  | PullRequestUpdated pull_request_update
  | BranchUpdated branch_update
  | DeploymentAttempted deployment_attempt
  | ServingObserved serving_observation
  | ConfigurationChanged configuration_change
  | SourceDocumentChanged document_change
  | ReconciliationRequested "string list" "string list" string

fun event_type :: "event_payload \<Rightarrow> string" where
  "event_type (BaselineRequested _ _) = ''repository.baseline_requested''"
| "event_type (PullRequestUpdated _) = ''pull_request.updated''"
| "event_type (BranchUpdated _) = ''branch.updated''"
| "event_type (DeploymentAttempted _) = ''deployment.changed''"
| "event_type (ServingObserved _) = ''deployment.changed''"
| "event_type (ConfigurationChanged _) = ''configuration.changed''"
| "event_type (SourceDocumentChanged _) = ''source_document.changed''"
| "event_type (ReconciliationRequested _ _ _) = ''reconciliation.requested''"

record event =
  ev_event_version :: string
  ev_event_id :: string
  ev_producer_id :: string
  ev_adapter_version :: string
  ev_occurred_at :: string
  ev_received_at :: string
  ev_subjects :: subjects
  ev_provider_evidence :: provider_evidence
  ev_payload :: event_payload

text \<open>\<open>validateEventSemantics\<close>, in the order the code checks.\<close>

fun payload_environment :: "event_payload \<Rightarrow> string option" where
  "payload_environment (DeploymentAttempted a) = Some (da_environment a)"
| "payload_environment (ServingObserved o') = Some (so_environment o')"
| "payload_environment _ = None"

fun inventory_scan :: "nat \<Rightarrow> string list \<Rightarrow> artifact_mapping list \<Rightarrow> validation_issue list" where
  "inventory_scan index seenArtifacts [] = []"
| "inventory_scan index seenArtifacts (mapping # rest) =
     (if am_artifact_id mapping \<in> set seenArtifacts
      then [issue (''/payload/serving_state/inventory/'' @ nat_text index @ ''/artifact_id'')
              ''semantic.conflicting_artifact_mapping''
              ''an artifact may appear only once in an authoritative inventory''] else [])
     @ inventory_scan (index + 1) (set_add (am_artifact_id mapping) seenArtifacts) rest"

definition observationIssues :: "serving_observation \<Rightarrow> validation_issue list" where
  "observationIssues observation =
     (case so_serving_state observation of
        ServingKnown inventory \<Rightarrow>
          (if inventory = [] \<and> so_completeness observation \<noteq> Complete
           then [issue ''/payload/serving_state/inventory'' ''semantic.incomplete_absence''
                   ''only a complete inventory can establish absence''] else [])
          @ inventory_scan 0 [] inventory
      | ServingUnknown reason observed \<Rightarrow>
          if so_completeness observation = Complete
          then [issue ''/payload/completeness'' ''semantic.inconsistent_completeness''
                  ''a complete observation cannot have unknown serving state''] else [])"

definition validateEventSemantics :: "event \<Rightarrow> validation_issue list" where
  "validateEventSemantics event =
     (case (payload_environment (ev_payload event), su_environment (ev_subjects event)) of
        (Some environment, Some subject) \<Rightarrow>
          if subject \<noteq> environment
          then [issue ''/payload/environment'' ''semantic.environment_mismatch''
                  ''payload environment differs from the event subject''] else []
      | _ \<Rightarrow> [])
     @ (case ev_payload event of ServingObserved observation \<Rightarrow> observationIssues observation | _ \<Rightarrow> [])"

definition parseEvent ::
  "(json \<Rightarrow> validation_issue list + event) \<Rightarrow> json \<Rightarrow> validation_issue list + event" where
  "parseEvent shape value = parserFor shape validateEventSemantics value"

section \<open>The JSON of an event\<close>

fun revision_json :: "revision_reference \<Rightarrow> json" where
  "revision_json (KnownRevision revision) =
     JObj [(''state'', JStr ''known''), (''revision'', JStr revision)]"
| "revision_json (UnknownRevision reason) =
     JObj [(''state'', JStr ''unknown''), (''reason'', JStr reason)]"

definition subjects_json :: "subjects \<Rightarrow> json" where
  "subjects_json s =
     object_of [(''repository_id'', map_option JStr (su_repository_id s)),
       (''service_ids'', Some (strings_json (su_service_ids s))),
       (''environment'', map_option JStr (su_environment s))]"

definition provider_order_json :: "provider_order \<Rightarrow> json" where
  "provider_order_json order =
     JObj [(''kind'', JStr (order_kind_text (po_kind order))), (''value'', JStr (po_value order))]"

definition provider_evidence_json :: "provider_evidence \<Rightarrow> json" where
  "provider_evidence_json evidence =
     object_of [(''provider'', Some (JStr (pe_provider evidence))),
       (''provider_reference'', Some (JStr (pe_provider_reference evidence))),
       (''order'', map_option provider_order_json (pe_order evidence))]"

definition mapping_json :: "artifact_mapping \<Rightarrow> json" where
  "mapping_json m =
     JObj [(''artifact_id'', JStr (am_artifact_id m)), (''revision'', revision_json (am_revision m))]"

fun serving_state_json :: "serving_state \<Rightarrow> json" where
  "serving_state_json (ServingKnown inventory) =
     JObj [(''status'', JStr ''known''), (''inventory'', JArr (map mapping_json inventory))]"
| "serving_state_json (ServingUnknown reason observed) =
     object_of [(''status'', Some (JStr ''unknown'')), (''reason'', Some (JStr reason)),
       (''observed_artifact_ids'', map_option strings_json observed)]"

definition source_json :: "observation_source \<Rightarrow> json" where
  "source_json s =
     JObj [(''authority_id'', JStr (os_authority_id s)), (''reference'', JStr (os_reference s)),
       (''access_label'', JStr (os_access_label s))]"

fun payload_json :: "event_payload \<Rightarrow> json" where
  "payload_json (BaselineRequested revision ids) =
     JObj [(''immutable_revision'', JStr revision), (''service_ids'', strings_json ids)]"
| "payload_json (PullRequestUpdated u) =
     JObj [(''pull_request_id'', JStr (pu_pull_request_id u)), (''state'', JStr (pu_state u)),
       (''base_branch'', JStr (pu_base_branch u)), (''base_revision'', JStr (pu_base_revision u)),
       (''head_branch'', JStr (pu_head_branch u)), (''head_revision'', JStr (pu_head_revision u))]"
| "payload_json (BranchUpdated u) =
     JObj [(''branch'', JStr (bu_branch u)),
       (''prior_revision'', case bu_prior_revision u of None \<Rightarrow> JNull | Some r \<Rightarrow> JStr r),
       (''new_revision'', JStr (bu_new_revision u)), (''reference_state'', JStr (bu_reference_state u))]"
| "payload_json (DeploymentAttempted a) =
     object_of [(''change_kind'', Some (JStr ''attempt'')), (''deployment_id'', Some (JStr (da_deployment_id a))),
       (''environment'', Some (JStr (da_environment a))),
       (''attempt_state'', Some (JStr (attempt_state_text (da_attempt_state a)))),
       (''effective_order'', Some (JStr (da_effective_order a))),
       (''artifact_id'', map_option JStr (da_artifact_id a)),
       (''revision'', Some (revision_json (da_revision a))),
       (''target_revision'', map_option JStr (da_target_revision a)),
       (''configuration_digest'', map_option JStr (da_configuration_digest a))]"
| "payload_json (ServingObserved o') =
     object_of [(''change_kind'', Some (JStr ''serving_observation'')),
       (''observation_id'', Some (JStr (so_observation_id o'))),
       (''environment'', Some (JStr (so_environment o'))), (''source'', Some (source_json (so_source o'))),
       (''completeness'', Some (JStr (completeness_text (so_completeness o')))),
       (''effective_order'', Some (JStr (so_effective_order o'))),
       (''rollback_request_id'', map_option JStr (so_rollback_request_id o')),
       (''serving_state'', Some (serving_state_json (so_serving_state o')))]"
| "payload_json (ConfigurationChanged c) =
     JObj [(''config_version'', JStr (cc_config_version c)), (''config_fingerprint'', JStr (cc_config_fingerprint c)),
       (''affected_service_ids'', strings_json (cc_affected_service_ids c)),
       (''affected_scope'', JStr (cc_affected_scope c))]"
| "payload_json (SourceDocumentChanged d) =
     JObj [(''document_id'', JStr (dc_document_id d)), (''source_version'', JStr (dc_source_version d)),
       (''state'', JStr (dc_state d)), (''access_label'', JStr (dc_access_label d))]"
| "payload_json (ReconciliationRequested ids environments reference) =
     JObj [(''scope'', JObj [(''service_ids'', strings_json ids), (''environments'', strings_json environments)]),
       (''provider_snapshot_reference'', JStr reference)]"

definition event_members :: "event \<Rightarrow> (string \<times> json) list" where
  "event_members e =
     [(''event_version'', JStr (ev_event_version e)), (''event_id'', JStr (ev_event_id e)),
      (''event_type'', JStr (event_type (ev_payload e))),
      (''producer'', JObj [(''producer_id'', JStr (ev_producer_id e)),
         (''adapter_version'', JStr (ev_adapter_version e))]),
      (''occurred_at'', JStr (ev_occurred_at e)), (''subjects'', subjects_json (ev_subjects e)),
      (''provider_evidence'', provider_evidence_json (ev_provider_evidence e)),
      (''payload'', payload_json (ev_payload e))]"

definition event_json :: "event \<Rightarrow> json" where
  "event_json e = JObj (event_members e @ [(''received_at'', JStr (ev_received_at e))])"

section \<open>Installation configurations\<close>

datatype secret_reference = EnvSecret string | VaultSecret string

datatype inference_config =
    InferenceDisabled
  | InferenceEnabled (inference_provider: string) (inference_model: string) (inference_credential: secret_reference)

datatype logs_config =
    LogsDisabled
  | LogsEnabled (logs_adapter_id: string) (logs_credential: secret_reference)

record deployment_authority =
  au_adapter_id :: string
  au_access_scope_id :: string
  au_credential :: "secret_reference option"

record environment_config =
  en_name :: string
  en_intended_branch :: "string option"
  en_deployment_authority :: deployment_authority

record analyzer_selection =
  as_adapter_id :: string
  as_adapter_version :: string
  as_ir_version :: "string option"
  as_production_entrypoint :: "string option"
  as_resolution_inputs :: "string list option"

record service_config =
  sc_service_id :: string
  sc_root :: string
  sc_analyzer :: analyzer_selection
  sc_intended_branches :: "string list"
  sc_environments :: "environment_config list"

record repository_config =
  rc_repository_id :: string
  rc_provider :: string
  rc_locator :: string
  rc_access_scope_id :: string
  rc_services :: "service_config list"

record access_scope =
  ac_access_scope_id :: string
  ac_label :: string

record installation_config =
  ic_config_version :: string
  ic_access_scopes :: "access_scope list"
  ic_repositories :: "repository_config list"
  ic_inference :: "inference_config option"
  ic_logs :: "logs_config option"

definition repeated_issues :: "string list \<Rightarrow> string \<Rightarrow> string \<Rightarrow> validation_issue list" where
  "repeated_issues ids path message = map (\<lambda>_. issue path ''semantic.duplicate_id'' message) (duplicates ids)"

definition config_services :: "installation_config \<Rightarrow> service_config list" where
  "config_services config = concat_map rc_services (ic_repositories config)"

definition environmentIssues ::
  "string list \<Rightarrow> service_config \<Rightarrow> string \<Rightarrow> nat \<Rightarrow> environment_config \<Rightarrow> validation_issue list" where
  "environmentIssues scopeIds service path environmentIndex environment =
     (let at = path @ ''/environments/'' @ nat_text environmentIndex in
      (case en_intended_branch environment of
         Some branch \<Rightarrow>
           if branch \<notin> set (sc_intended_branches service)
           then [issue (at @ ''/intended_branch'') ''semantic.intended_branch_mismatch''
                   ''environment branch is not declared by the service''] else []
       | None \<Rightarrow> [])
      @ (if au_access_scope_id (en_deployment_authority environment) \<notin> set scopeIds
         then [issue (at @ ''/deployment_authority/access_scope_id'') ''semantic.dangling_reference''
                 ''unknown access scope''] else []))"

definition serviceIssues ::
  "string list \<Rightarrow> nat \<Rightarrow> nat \<Rightarrow> service_config \<Rightarrow> validation_issue list" where
  "serviceIssues scopeIds repositoryIndex serviceIndex service =
     (let path = ''/repositories/'' @ nat_text repositoryIndex @ ''/services/'' @ nat_text serviceIndex in
      repeated_issues (map en_name (sc_environments service)) (path @ ''/environments'')
        ''duplicate environment name''
      @ collect_from 0 (environmentIssues scopeIds service path) (sc_environments service))"

definition repositoryIssues ::
  "string list \<Rightarrow> nat \<Rightarrow> repository_config \<Rightarrow> validation_issue list" where
  "repositoryIssues scopeIds repositoryIndex repository =
     (if rc_access_scope_id repository \<notin> set scopeIds
      then [issue (''/repositories/'' @ nat_text repositoryIndex @ ''/access_scope_id'')
              ''semantic.dangling_reference'' ''unknown access scope''] else [])
     @ collect_from 0 (serviceIssues scopeIds repositoryIndex) (rc_services repository)"

definition validateConfigReferences :: "installation_config \<Rightarrow> validation_issue list" where
  "validateConfigReferences config =
     (let scopeIds = map ac_access_scope_id (ic_access_scopes config) in
      repeated_issues scopeIds ''/access_scopes'' ''duplicate access scope ID''
      @ repeated_issues (map rc_repository_id (ic_repositories config)) ''/repositories'' ''duplicate repository ID''
      @ repeated_issues (map sc_service_id (config_services config)) ''/repositories'' ''duplicate service ID''
      @ collect_from 0 (repositoryIssues scopeIds) (ic_repositories config))"

definition parseConfig ::
  "(json \<Rightarrow> validation_issue list + installation_config) \<Rightarrow> json \<Rightarrow> validation_issue list + installation_config" where
  "parseConfig shape value = parserFor shape validateConfigReferences value"

definition configuredAnalyzerIrVersion :: "analyzer_selection \<Rightarrow> string" where
  "configuredAnalyzerIrVersion analyzer =
     (case as_ir_version analyzer of Some version \<Rightarrow> version | None \<Rightarrow> LEGACY_IR_VERSION)"

section \<open>The JSON of a configuration\<close>

fun secret_json :: "secret_reference \<Rightarrow> json" where
  "secret_json (EnvSecret l) =
     JObj [(''secret_ref'', JObj [(''scheme'', JStr ''env''), (''locator'', JStr l)])]"
| "secret_json (VaultSecret l) =
     JObj [(''secret_ref'', JObj [(''scheme'', JStr ''vault''), (''locator'', JStr l)])]"

fun inference_json :: "inference_config \<Rightarrow> json" where
  "inference_json InferenceDisabled = JObj [(''enabled'', JBool False)]"
| "inference_json (InferenceEnabled provider model credential) =
     JObj [(''enabled'', JBool True), (''provider'', JStr provider), (''model'', JStr model),
       (''credential'', secret_json credential)]"

fun logs_json :: "logs_config \<Rightarrow> json" where
  "logs_json LogsDisabled = JObj [(''enabled'', JBool False)]"
| "logs_json (LogsEnabled adapter credential) =
     JObj [(''enabled'', JBool True), (''adapter_id'', JStr adapter), (''credential'', secret_json credential)]"

definition authority_json :: "deployment_authority \<Rightarrow> json" where
  "authority_json a =
     object_of [(''adapter_id'', Some (JStr (au_adapter_id a))),
       (''access_scope_id'', Some (JStr (au_access_scope_id a))),
       (''credential'', map_option secret_json (au_credential a))]"

definition environment_json :: "environment_config \<Rightarrow> json" where
  "environment_json e =
     object_of [(''name'', Some (JStr (en_name e))),
       (''intended_branch'', map_option JStr (en_intended_branch e)),
       (''deployment_authority'', Some (authority_json (en_deployment_authority e)))]"

definition resolution_input_json :: "string \<Rightarrow> json" where
  "resolution_input_json path = JObj [(''kind'', JStr ''type_manifest''), (''path'', JStr path)]"

definition selection_json :: "analyzer_selection \<Rightarrow> json" where
  "selection_json a =
     object_of [(''adapter_id'', Some (JStr (as_adapter_id a))),
       (''adapter_version'', Some (JStr (as_adapter_version a))),
       (''ir_version'', map_option JStr (as_ir_version a)),
       (''production_entrypoint'', map_option JStr (as_production_entrypoint a)),
       (''resolution_inputs'', map_option (JArr \<circ> map resolution_input_json) (as_resolution_inputs a))]"

definition service_json :: "service_config \<Rightarrow> json" where
  "service_json s =
     JObj [(''service_id'', JStr (sc_service_id s)), (''root'', JStr (sc_root s)),
       (''analyzer'', selection_json (sc_analyzer s)),
       (''intended_branches'', strings_json (sc_intended_branches s)),
       (''environments'', JArr (map environment_json (sc_environments s)))]"

definition repository_json :: "repository_config \<Rightarrow> json" where
  "repository_json r =
     JObj [(''repository_id'', JStr (rc_repository_id r)), (''provider'', JStr (rc_provider r)),
       (''locator'', JStr (rc_locator r)), (''access_scope_id'', JStr (rc_access_scope_id r)),
       (''services'', JArr (map service_json (rc_services r)))]"

definition scope_json :: "access_scope \<Rightarrow> json" where
  "scope_json s =
     JObj [(''access_scope_id'', JStr (ac_access_scope_id s)), (''label'', JStr (ac_label s))]"

definition config_json :: "installation_config \<Rightarrow> json" where
  "config_json c =
     object_of [(''config_version'', Some (JStr (ic_config_version c))),
       (''access_scopes'', Some (JArr (map scope_json (ic_access_scopes c)))),
       (''repositories'', Some (JArr (map repository_json (ic_repositories c)))),
       (''inference'', map_option inference_json (ic_inference c)),
       (''logs'', map_option logs_json (ic_logs c))]"

section \<open>What a valid configuration says\<close>

definition config_closed :: "installation_config \<Rightarrow> bool" where
  "config_closed config \<longleftrightarrow>
     distinct (map ac_access_scope_id (ic_access_scopes config))
     \<and> distinct (map rc_repository_id (ic_repositories config))
     \<and> distinct (map sc_service_id (config_services config))
     \<and> (\<forall>repository \<in> set (ic_repositories config).
          rc_access_scope_id repository \<in> ac_access_scope_id ` set (ic_access_scopes config)
          \<and> (\<forall>service \<in> set (rc_services repository).
               distinct (map en_name (sc_environments service))
               \<and> (\<forall>environment \<in> set (sc_environments service).
                    (\<forall>branch. en_intended_branch environment = Some branch \<longrightarrow>
                       branch \<in> set (sc_intended_branches service))
                    \<and> au_access_scope_id (en_deployment_authority environment)
                        \<in> ac_access_scope_id ` set (ic_access_scopes config))))"

lemma repeated_issues_Nil: "repeated_issues ids path message = [] \<longleftrightarrow> distinct ids"
  by (simp add: repeated_issues_def duplicates_Nil_iff)

lemma environmentIssues_Nil:
  "environmentIssues scopeIds service path i environment = [] \<longleftrightarrow>
     (\<forall>branch. en_intended_branch environment = Some branch \<longrightarrow> branch \<in> set (sc_intended_branches service))
     \<and> au_access_scope_id (en_deployment_authority environment) \<in> set scopeIds"
  by (auto simp: environmentIssues_def Let_def split: option.splits)

lemma collect_all_Nil:
  assumes "\<And>i x. f i x = [] \<longleftrightarrow> P x"
  shows "collect_from k f xs = [] \<longleftrightarrow> (\<forall>x \<in> set xs. P x)"
  by (induction xs arbitrary: k) (simp_all add: assms)

lemma serviceIssues_Nil:
  "serviceIssues scopeIds r i service = [] \<longleftrightarrow>
     distinct (map en_name (sc_environments service))
     \<and> (\<forall>environment \<in> set (sc_environments service).
          (\<forall>branch. en_intended_branch environment = Some branch \<longrightarrow> branch \<in> set (sc_intended_branches service))
          \<and> au_access_scope_id (en_deployment_authority environment) \<in> set scopeIds)"
  unfolding serviceIssues_def Let_def append_is_Nil_conv repeated_issues_Nil
  by (subst collect_all_Nil [OF environmentIssues_Nil]) simp

lemma validateConfigReferences_closed: "validateConfigReferences config = [] \<longleftrightarrow> config_closed config"
proof -
  let ?s = "map ac_access_scope_id (ic_access_scopes config)"
  have "repositoryIssues ?s i repository = [] \<longleftrightarrow>
      rc_access_scope_id repository \<in> set ?s \<and>
      (\<forall>service \<in> set (rc_services repository).
         distinct (map en_name (sc_environments service))
         \<and> (\<forall>environment \<in> set (sc_environments service).
              (\<forall>branch. en_intended_branch environment = Some branch \<longrightarrow> branch \<in> set (sc_intended_branches service))
              \<and> au_access_scope_id (en_deployment_authority environment) \<in> set ?s))" for i repository
    unfolding repositoryIssues_def append_is_Nil_conv
    by (subst collect_all_Nil [OF serviceIssues_Nil]) auto
  note repository = collect_all_Nil [OF this]
  show ?thesis
    unfolding validateConfigReferences_def Let_def append_is_Nil_conv repeated_issues_Nil repository config_closed_def
    by simp
qed

text \<open>
  The configuration check returns no issue exactly when the configuration is closed: its
  access scopes, repositories and services are unique, the environment names of a service too,
  every access scope it names is declared and every environment branch is a branch of its
  service.
\<close>

theorem config_check_decides: "parseConfig shape value = Inr config \<longleftrightarrow> shape value = Inr config \<and> config_closed config"
  by (simp add: parseConfig_def parserFor_Inr_iff validateConfigReferences_closed)

lemma parseConfig_closed: "parseConfig shape value = Inr config \<Longrightarrow> shape value = Inr config \<and> config_closed config"
  by (simp add: parseConfig_def parserFor_Inr_iff validateConfigReferences_closed)

section \<open>The JSON determines the value\<close>

text \<open>
  Two values have the same canonical text exactly when they are equal: objects with the same
  keys are compared member by member.
\<close>

lemma present_keys: "fst ` set (present members) \<subseteq> fst ` set members"
  by (induction members rule: present.induct) auto

lemma present_None: "k \<notin> fst ` set members \<Longrightarrow> map_of (present members) k = None"
  using present_keys [of members] by (auto simp: map_of_eq_None_iff)

lemma map_of_present:
  "distinct (map fst members) \<Longrightarrow> map_of (present members) k = Option.bind (map_of members k) (\<lambda>v. v)"
  by (induction members rule: present.induct) (auto simp: present_None)

lemma distinct_present: "distinct (map fst members) \<Longrightarrow> distinct (map fst (present members))"
proof (induction members rule: present.induct)
  case (2 k j members)
  then show ?case using present_keys [of members] by auto
qed auto

lemma wf_object_of:
  "distinct (map fst members) \<Longrightarrow> (\<forall>j. Some j \<in> snd ` set members \<longrightarrow> wf_json j) \<Longrightarrow> wf_json (object_of members)"
proof -
  have "list_all (\<lambda>(k, v). wf_json v) (present members)" if "\<forall>j. Some j \<in> snd ` set members \<longrightarrow> wf_json j"
    using that by (induction members rule: present.induct) auto
  then show "distinct (map fst members) \<Longrightarrow> (\<forall>j. Some j \<in> snd ` set members \<longrightarrow> wf_json j) \<Longrightarrow>
      wf_json (object_of members)"
    by (simp add: object_of_def distinct_present)
qed

lemma map_of_eq_map:
  assumes "distinct (map fst xs)" "map fst xs = map fst ys"
  shows "(\<forall>k. map_option f (map_of xs k) = map_option f (map_of ys k)) \<longleftrightarrow> map (f \<circ> snd) xs = map (f \<circ> snd) ys"
  using assms
proof (induction xs arbitrary: ys)
  case (Cons x xs)
  then obtain k v w ys' where c: "x = (k, v)" "ys = (k, w) # ys'" "map fst xs = map fst ys'"
    by (cases x; cases ys) auto
  have fresh: "map_of xs k = None" "map_of ys' k = None"
    using Cons.prems c by (auto simp: map_of_eq_None_iff simp flip: set_map)
  have "(\<forall>k'. map_option f (map_of (x # xs) k') = map_option f (map_of ys k')) \<longleftrightarrow>
      f v = f w \<and> (\<forall>k'. map_option f (map_of xs k') = map_option f (map_of ys' k'))"
    (is "?all \<longleftrightarrow> _ \<and> ?rest")
  proof (intro iffI conjI)
    assume all: ?all
    from all [rule_format, of k] show "f v = f w" by (simp add: c)
    show ?rest
    proof
      fix k' show "map_option f (map_of xs k') = map_option f (map_of ys' k')"
        using all [rule_format, of k'] fresh by (cases "k' = k") (simp_all add: c)
    qed
  qed (simp add: c)
  then show ?case using Cons c by simp
qed simp

lemma object_normal_eq:
  assumes "distinct (map fst ms)" "map fst ms = map fst ms'"
  shows "json_normal (object_of ms) = json_normal (object_of ms') \<longleftrightarrow>
    map (map_option json_normal \<circ> snd) ms = map (map_option json_normal \<circ> snd) ms'"
proof -
  have "map_option json_normal (Option.bind (map_of xs k) (\<lambda>v. v)) =
      Option.bind (map_option (map_option json_normal) (map_of xs k)) (\<lambda>v. v)"
    for xs :: "(string \<times> json option) list" and k by (cases "map_of xs k") auto
  moreover have "(\<forall>k. Option.bind (map_option (map_option json_normal) (map_of ms k)) (\<lambda>v. v) =
        Option.bind (map_option (map_option json_normal) (map_of ms' k)) (\<lambda>v. v)) \<longleftrightarrow>
      (\<forall>k. map_option (map_option json_normal) (map_of ms k) = map_option (map_option json_normal) (map_of ms' k))"
  proof (intro iff_allI)
    fix k
    have "map_of ms k = None \<longleftrightarrow> map_of ms' k = None"
      using assms(2) by (simp add: map_of_eq_None_iff flip: set_map)
    then show "Option.bind (map_option (map_option json_normal) (map_of ms k)) (\<lambda>v. v) =
        Option.bind (map_option (map_option json_normal) (map_of ms' k)) (\<lambda>v. v) \<longleftrightarrow>
      map_option (map_option json_normal) (map_of ms k) = map_option (map_option json_normal) (map_of ms' k)"
      by (cases "map_of ms k"; cases "map_of ms' k") auto
  qed
  ultimately show ?thesis
    using assms map_of_eq_map [OF assms, of "map_option json_normal"]
    unfolding object_of_def
    by (subst json_normal_object_eq) (simp_all add: distinct_present map_of_present)
qed

lemma members_normal_eq:
  assumes "distinct (map fst kvs)" "map fst kvs = map fst kvs'"
  shows "json_normal (JObj kvs) = json_normal (JObj kvs') \<longleftrightarrow>
    map (json_normal \<circ> snd) kvs = map (json_normal \<circ> snd) kvs'"
  using assms map_of_eq_map [OF assms, of json_normal] by (subst json_normal_object_eq) simp_all

lemma member_differs:
  assumes "distinct (map fst kvs)" "distinct (map fst kvs')"
    and "map_option json_normal (map_of kvs k) \<noteq> map_option json_normal (map_of kvs' k)"
  shows "json_normal (JObj kvs) \<noteq> json_normal (JObj kvs')"
  using assms by (subst json_normal_object_eq) auto

definition faithful :: "('a \<Rightarrow> json) \<Rightarrow> bool" where
  "faithful encode \<longleftrightarrow> (\<forall>a. wf_json (encode a)) \<and> (\<forall>a b. json_normal (encode a) = json_normal (encode b) \<longrightarrow> a = b)"

lemma faithful_eq: "faithful encode \<Longrightarrow> canonicalJson (encode a) = canonicalJson (encode b) \<longleftrightarrow> a = b"
  by (auto simp: faithful_def canonicalJson_eq_iff)

lemma faithful_normal: "faithful encode \<Longrightarrow> json_normal (encode a) = json_normal (encode b) \<longleftrightarrow> a = b"
  by (auto simp: faithful_def)

lemma faithful_option: "faithful encode \<Longrightarrow>
    map_option json_normal (map_option encode x) = map_option json_normal (map_option encode y) \<longleftrightarrow> x = y"
  by (cases x; cases y) (auto simp: faithful_def)

lemma faithful_list: "faithful encode \<Longrightarrow> faithful (\<lambda>xs. JArr (map encode xs))"
proof -
  assume f: "faithful encode"
  have "map (json_normal \<circ> encode) xs = map (json_normal \<circ> encode) ys \<Longrightarrow> xs = ys" for xs ys
    by (rule map_injective) (use f in \<open>auto simp: faithful_def inj_def\<close>)
  then show ?thesis using f by (auto simp: faithful_def list_all_iff)
qed

lemma faithful_JStr: "faithful JStr"
  by (simp add: faithful_def)

lemma faithful_strings: "faithful strings_json"
  using faithful_list [OF faithful_JStr] by (simp add: strings_json_def [abs_def])

lemma faithful_objectI:
  assumes "\<And>a. map fst (ms a) = ks" "distinct ks" "\<And>a. list_all (pred_option wf_json) (map snd (ms a))"
    "\<And>a b. map (map_option json_normal) (map snd (ms a)) = map (map_option json_normal) (map snd (ms b)) \<Longrightarrow> a = b"
  shows "faithful (\<lambda>a. object_of (ms a))"
proof -
  have "wf_json (object_of (ms a))" for a
    using assms(1,2) assms(3) [of a]
    by (intro wf_object_of) (auto simp: list_all_iff simp flip: set_map)
  moreover have "a = b" if "json_normal (object_of (ms a)) = json_normal (object_of (ms b))" for a b
    using that assms(1,2) assms(4) [of a b] by (subst (asm) object_normal_eq) auto
  ultimately show ?thesis by (simp add: faithful_def)
qed

lemma faithful_membersI:
  assumes "\<And>a. map fst (ms a) = ks" "distinct ks" "\<And>a. list_all wf_json (map snd (ms a))"
    "\<And>a b. map json_normal (map snd (ms a)) = map json_normal (map snd (ms b)) \<Longrightarrow> a = b"
  shows "faithful (\<lambda>a. JObj (ms a))"
proof -
  have "wf_json (JObj (ms a))" for a
    using assms(1,2) assms(3) [of a] by (simp add: list_all_iff case_prod_unfold)
  moreover have "a = b" if "json_normal (JObj (ms a)) = json_normal (JObj (ms b))" for a b
    using that assms(1,2) assms(4) [of a b] by (subst (asm) members_normal_eq) auto
  ultimately show ?thesis unfolding faithful_def by blast
qed

lemma faithful_wf: "faithful encode \<Longrightarrow> wf_json (encode a)"
  by (simp add: faithful_def)

lemma faithful_pred: "faithful encode \<Longrightarrow> pred_option wf_json (map_option encode x)"
  by (cases x) (auto simp: faithful_def)

lemma faithful_options: "faithful encode \<Longrightarrow>
    map_option (json_normal \<circ> encode) x = map_option (json_normal \<circ> encode) y \<longleftrightarrow> x = y"
  using faithful_option [of encode x y] by (simp add: option.map_comp)

lemma text_inj [simp]:
  "order_kind_text a = order_kind_text b \<longleftrightarrow> a = b"
  "completeness_text c = completeness_text d \<longleftrightarrow> c = d"
  "attempt_state_text s = attempt_state_text t \<longleftrightarrow> s = t"
    apply (cases a; cases b; simp)
   apply (cases c; cases d; simp)
  apply (cases s; cases t; simp)
  done

lemma faithful_provider_order: "faithful provider_order_json"
  unfolding provider_order_json_def [abs_def]
  by (rule faithful_membersI [where ks = "[''kind'', ''value'']"]) auto

lemma faithful_provider_evidence: "faithful provider_evidence_json"
  unfolding provider_evidence_json_def [abs_def]
  by (rule faithful_objectI [where ks = "[''provider'', ''provider_reference'', ''order'']"])
    (auto simp: faithful_pred [OF faithful_provider_order] option.map_comp
      faithful_options [OF faithful_provider_order] intro: provider_evidence.equality)

lemma faithful_secret: "faithful secret_json"
proof -
  define parts where "parts s = (case s of EnvSecret l \<Rightarrow> (''env'', l) | VaultSecret l \<Rightarrow> (''vault'', l))" for s
  have inner: "faithful (\<lambda>(s, l). JObj [(''scheme'', JStr s), (''locator'', JStr l)])"
    unfolding case_prod_unfold
    by (rule faithful_membersI [where ks = "[''scheme'', ''locator'']"]) (auto intro: prod_eqI)
  have "faithful (\<lambda>s. JObj [(''secret_ref'', (\<lambda>(s, l). JObj [(''scheme'', JStr s), (''locator'', JStr l)]) (parts s))])"
    by (rule faithful_membersI [where ks = "[''secret_ref'']"])
      (auto simp: faithful_wf [OF inner] faithful_normal [OF inner] parts_def split: secret_reference.splits)
  moreover have "secret_json = (\<lambda>s. JObj [(''secret_ref'', (\<lambda>(s, l). JObj [(''scheme'', JStr s), (''locator'', JStr l)]) (parts s))])"
    by (rule ext, rename_tac s, case_tac s) (simp_all add: parts_def)
  ultimately show ?thesis by simp
qed

lemma faithful_authority: "faithful authority_json"
  unfolding authority_json_def [abs_def]
  by (rule faithful_objectI [where ks = "[''adapter_id'', ''access_scope_id'', ''credential'']"])
    (auto simp: faithful_pred [OF faithful_secret] option.map_comp faithful_options [OF faithful_secret]
      intro: deployment_authority.equality)

lemma faithful_environment: "faithful environment_json"
  unfolding environment_json_def [abs_def]
  by (rule faithful_objectI [where ks = "[''name'', ''intended_branch'', ''deployment_authority'']"])
    (auto simp: faithful_pred [OF faithful_JStr] option.map_comp faithful_options [OF faithful_JStr]
      faithful_wf [OF faithful_authority] faithful_normal [OF faithful_authority] intro: environment_config.equality)

lemma faithful_resolution_input: "faithful resolution_input_json"
  unfolding resolution_input_json_def [abs_def]
  by (rule faithful_membersI [where ks = "[''kind'', ''path'']"]) auto

lemma faithful_analyzer: "faithful selection_json"
proof -
  have inputs: "faithful (JArr \<circ> map resolution_input_json)"
    using faithful_list [OF faithful_resolution_input] by (simp add: comp_def)
  show ?thesis
    unfolding selection_json_def [abs_def]
    by (rule faithful_objectI [where ks = "[''adapter_id'', ''adapter_version'', ''ir_version'',
        ''production_entrypoint'', ''resolution_inputs'']"])
      (auto simp: faithful_pred [OF faithful_JStr] faithful_pred [OF inputs] option.map_comp
        faithful_options [OF faithful_JStr] faithful_options [OF inputs] intro: analyzer_selection.equality)
qed

lemma faithful_service: "faithful service_json"
proof -
  note environments = faithful_list [OF faithful_environment]
  show ?thesis
    unfolding service_json_def [abs_def]
    by (rule faithful_membersI [where ks = "[''service_id'', ''root'', ''analyzer'', ''intended_branches'', ''environments'']"])
      (auto simp del: json_normal.simps(1) wf_json.simps(1) simp: faithful_wf [OF faithful_strings] faithful_wf [OF environments]
        faithful_normal [OF faithful_strings] faithful_normal [OF environments] faithful_wf [OF faithful_analyzer]
        faithful_normal [OF faithful_analyzer] intro: service_config.equality)
qed

lemma faithful_repository: "faithful repository_json"
proof -
  note services = faithful_list [OF faithful_service]
  show ?thesis
    unfolding repository_json_def [abs_def]
    by (rule faithful_membersI [where ks = "[''repository_id'', ''provider'', ''locator'', ''access_scope_id'', ''services'']"])
      (auto simp del: json_normal.simps(1) wf_json.simps(1) simp: faithful_wf [OF services]
        faithful_normal [OF services] intro: repository_config.equality)
qed

lemma faithful_scope: "faithful scope_json"
  unfolding scope_json_def [abs_def]
  by (rule faithful_membersI [where ks = "[''access_scope_id'', ''label'']"]) (auto intro: access_scope.equality)

lemma faithful_inference: "faithful inference_json"
proof -
  have wf: "wf_json (inference_json i)" for i
    by (cases i) (auto simp: faithful_wf [OF faithful_secret])
  have "a = b" if "json_normal (inference_json a) = json_normal (inference_json b)" for a b
  proof -
    obtain kvs kvs' where o: "inference_json a = JObj kvs" "inference_json b = JObj kvs'"
      by (cases a; cases b) auto
    then have "\<forall>k. map_option json_normal (map_of kvs k) = map_option json_normal (map_of kvs' k)"
      using that wf [of a] wf [of b] json_normal_object_eq [of kvs kvs'] by simp
    from this [rule_format, of "''enabled''"] this [rule_format, of "''provider''"]
      this [rule_format, of "''model''"] this [rule_format, of "''credential''"]
    show ?thesis
      using o [symmetric] by (cases a; cases b) (auto simp: faithful_normal [OF faithful_secret])
  qed
  with wf show ?thesis by (simp add: faithful_def)
qed

lemma faithful_logs: "faithful logs_json"
proof -
  have wf: "wf_json (logs_json i)" for i
    by (cases i) (auto simp: faithful_wf [OF faithful_secret])
  have "a = b" if "json_normal (logs_json a) = json_normal (logs_json b)" for a b
  proof -
    obtain kvs kvs' where o: "logs_json a = JObj kvs" "logs_json b = JObj kvs'"
      by (cases a; cases b) auto
    then have "\<forall>k. map_option json_normal (map_of kvs k) = map_option json_normal (map_of kvs' k)"
      using that wf [of a] wf [of b] json_normal_object_eq [of kvs kvs'] by simp
    from this [rule_format, of "''enabled''"] this [rule_format, of "''adapter_id''"]
      this [rule_format, of "''credential''"]
    show ?thesis
      using o [symmetric] by (cases a; cases b) (auto simp: faithful_normal [OF faithful_secret])
  qed
  with wf show ?thesis by (simp add: faithful_def)
qed

lemma faithful_config: "faithful config_json"
proof -
  note parts = faithful_list [OF faithful_scope] faithful_list [OF faithful_repository]
  show ?thesis
    unfolding config_json_def [abs_def]
    by (rule faithful_objectI [where ks = "[''config_version'', ''access_scopes'', ''repositories'', ''inference'', ''logs'']"])
      (auto simp del: json_normal.simps(1) wf_json.simps(1) simp: parts [THEN faithful_wf] parts [THEN faithful_normal]
        option.map_comp faithful_pred [OF faithful_inference] faithful_pred [OF faithful_logs]
        faithful_options [OF faithful_inference] faithful_options [OF faithful_logs]
        intro: installation_config.equality)
qed


end
