(* ===== verification/OrchConfig.thy ===== *)
theory OrchConfig
  imports OrchBase IrEvents
begin

text \<open>
  Configuration changes and branch selection: \<open>packages/orchestration/src/configuration.ts\<close> and
  \<open>branch-selection.ts\<close>. The impact of a change is computed by loops over repositories and
  services; \<open>placement\<close> is the specification they are compared with. The shape validator of
  configurations is the parameter \<open>shape\<close>.
\<close>

section \<open>Configuration pairs\<close>

record configuration_pair =
  cp_fingerprint :: string
  cp_document :: installation_config

definition invalid_pair :: "string \<Rightarrow> string \<Rightarrow> 'a orch" where
  "invalid_pair path code = Inl (orchestrationValidationError [issue path code ''invalid''])"

definition validatePair ::
  "(json \<Rightarrow> validation_issue list + installation_config) \<Rightarrow> jsval \<Rightarrow> configuration_pair orch" where
  "validatePair shape input =
     (case detached input of
        Inl _ \<Rightarrow> invalid_pair ''/'' ''shape.invalid_json_value''
      | Inr (JObj candidate) \<Rightarrow>
          (case (map_of candidate ''fingerprint'', map_of candidate ''document'') of
             (Some fingerprint, Some document) \<Rightarrow>
               if length candidate \<noteq> 2 then invalid_pair ''/'' ''shape.required''
               else (case fingerprint of
                       JStr text \<Rightarrow>
                         if text = [] then invalid_pair ''/fingerprint'' ''shape.minLength''
                         else (case parseConfig shape document of
                                 Inl issues \<Rightarrow> Inl (orchestrationValidationError issues)
                               | Inr config \<Rightarrow> Inr \<lparr>cp_fingerprint = text, cp_document = config\<rparr>)
                     | _ \<Rightarrow> invalid_pair ''/fingerprint'' ''shape.minLength'')
           | _ \<Rightarrow> invalid_pair ''/'' ''shape.required'')
      | Inr _ \<Rightarrow> invalid_pair ''/'' ''shape.type'')"

definition allServices :: "installation_config list \<Rightarrow> string list" where
  "allServices documents = canonicalStringSet (map sc_service_id (concat_map config_services documents))"

definition repository_metadata :: "repository_config \<Rightarrow> json" where
  "repository_metadata r =
     JObj [(''provider'', JStr (rc_provider r)), (''locator'', JStr (rc_locator r)),
       (''access_scope_id'', JStr (rc_access_scope_id r))]"

definition encoded_or_null :: "('a \<Rightarrow> json) \<Rightarrow> 'a option \<Rightarrow> json" where
  "encoded_or_null encode value = (case value of None \<Rightarrow> JNull | Some a \<Rightarrow> encode a)"

definition affected_services :: "string list \<Rightarrow> service_config list \<Rightarrow> service_config list \<Rightarrow> string list" where
  "affected_services affected oldList newList =
     (let oldServices = keyed sc_service_id oldList; newServices = keyed sc_service_id newList
      in foldl (\<lambda>acc serviceId.
           if canonicalJson (encoded_or_null service_json (map_get oldServices serviceId))
                \<noteq> canonicalJson (encoded_or_null service_json (map_get newServices serviceId))
           then set_add serviceId acc else acc)
         affected (js_set (map_keys oldServices @ map_keys newServices)))"

definition affected_repository ::
  "string list \<Rightarrow> repository_config option \<Rightarrow> repository_config option \<Rightarrow> string list" where
  "affected_repository affected previous next =
     (case (previous, next) of
        (Some old, Some new) \<Rightarrow>
          if canonicalJson (repository_metadata old) \<noteq> canonicalJson (repository_metadata new)
          then set_add_all (map sc_service_id (rc_services old @ rc_services new)) affected
          else affected_services affected (rc_services old) (rc_services new)
      | (Some old, None) \<Rightarrow> set_add_all (map sc_service_id (rc_services old)) affected
      | (None, Some new) \<Rightarrow> set_add_all (map sc_service_id (rc_services new)) affected
      | (None, None) \<Rightarrow> affected)"

definition configuration_impact :: "configuration_pair \<Rightarrow> configuration_pair \<Rightarrow> string list" where
  "configuration_impact active candidate =
     (let oldDocument = cp_document active; newDocument = cp_document candidate in
      if cp_fingerprint active \<noteq> cp_fingerprint candidate
        \<or> ic_config_version oldDocument \<noteq> ic_config_version newDocument
      then allServices [oldDocument, newDocument]
      else if canonicalJson (JArr (map scope_json (ic_access_scopes oldDocument)))
                \<noteq> canonicalJson (JArr (map scope_json (ic_access_scopes newDocument)))
        \<or> canonicalJson (encoded_or_null inference_json (ic_inference oldDocument))
             \<noteq> canonicalJson (encoded_or_null inference_json (ic_inference newDocument))
        \<or> canonicalJson (encoded_or_null logs_json (ic_logs oldDocument))
             \<noteq> canonicalJson (encoded_or_null logs_json (ic_logs newDocument))
      then allServices [oldDocument, newDocument]
      else (let oldRepositories = keyed rc_repository_id (ic_repositories oldDocument);
                newRepositories = keyed rc_repository_id (ic_repositories newDocument)
            in canonicalStringSet
                 (foldl (\<lambda>affected repositoryId.
                    affected_repository affected (map_get oldRepositories repositoryId)
                      (map_get newRepositories repositoryId))
                  [] (js_set (map_keys oldRepositories @ map_keys newRepositories)))))"

definition calculateConfigurationImpact ::
  "(json \<Rightarrow> validation_issue list + installation_config) \<Rightarrow> jsval \<Rightarrow> jsval \<Rightarrow> string list orch" where
  "calculateConfigurationImpact shape activeInput candidateInput =
     and_then (validatePair shape activeInput) (\<lambda>active.
       and_then (validatePair shape candidateInput) (\<lambda>candidate.
         Inr (configuration_impact active candidate)))"

definition pair_value :: "configuration_pair \<Rightarrow> json" where
  "pair_value pair =
     JObj [(''fingerprint'', JStr (cp_fingerprint pair)), (''document'', config_json (cp_document pair))]"

section \<open>Branch selection\<close>

text \<open>
  \<open>validatedService\<close> wraps the candidate in a configuration of its own, with one repository and
  the access scopes the candidate names, and takes the service back from the parsed value.
\<close>

definition candidate_scopes :: "json \<Rightarrow> string list" where
  "candidate_scopes candidate =
     (let environments = (case jget ''environments'' candidate of Some (JArr entries) \<Rightarrow> entries | _ \<Rightarrow> [])
      in concat_map (\<lambda>entry.
           case jget ''deployment_authority'' entry of
             Some authority \<Rightarrow>
               (case jget ''access_scope_id'' authority of
                  Some (JStr scope) \<Rightarrow> if scope \<noteq> [] then [scope] else []
                | _ \<Rightarrow> [])
           | None \<Rightarrow> []) environments)"

definition validation_config :: "json \<Rightarrow> json" where
  "validation_config candidate =
     (let scopeIds = canonicalStringSet (''orchestration-validation'' # candidate_scopes candidate) in
      JObj [(''config_version'', JStr ''1.0.0''),
        (''access_scopes'', JArr (map (\<lambda>scope.
           JObj [(''access_scope_id'', JStr scope), (''label'', JStr scope)]) scopeIds)),
        (''repositories'', JArr
           [JObj [(''repository_id'', JStr ''orchestration-validation''), (''provider'', JStr ''validation''),
              (''locator'', JStr ''validation''), (''access_scope_id'', JStr ''orchestration-validation''),
              (''services'', JArr [candidate])]])])"

definition validatedService ::
  "(json \<Rightarrow> validation_issue list + installation_config) \<Rightarrow> jsval \<Rightarrow> service_config orch" where
  "validatedService shape input =
     (case detached input of
        Inl _ \<Rightarrow> throw INVALID_ORCHESTRATION_INPUT
      | Inr candidate \<Rightarrow>
          (case parseConfig shape (validation_config candidate) of
             Inl _ \<Rightarrow> throw INVALID_ORCHESTRATION_INPUT
           | Inr config \<Rightarrow> Inr (rc_services (ic_repositories config ! 0) ! 0)))"

definition nonempty :: "jsval \<Rightarrow> string orch" where
  "nonempty input =
     and_then (detached input) (\<lambda>candidate.
       case candidate of
         JStr s \<Rightarrow> if s = [] then throw INVALID_ORCHESTRATION_INPUT else Inr s
       | _ \<Rightarrow> throw INVALID_ORCHESTRATION_INPUT)"

definition environmentNames :: "jsval \<Rightarrow> string list orch" where
  "environmentNames input =
     and_then (detached input) (\<lambda>candidate.
       case candidate of
         JArr values \<Rightarrow>
           traverse (\<lambda>value. case value of
              JStr s \<Rightarrow> if s = [] then throw INVALID_ORCHESTRATION_INPUT else Inr s
            | _ \<Rightarrow> throw INVALID_ORCHESTRATION_INPUT) values
       | _ \<Rightarrow> throw INVALID_ORCHESTRATION_INPUT)"

definition isConfiguredBranch ::
  "(json \<Rightarrow> validation_issue list + installation_config) \<Rightarrow> jsval \<Rightarrow> jsval \<Rightarrow> bool orch" where
  "isConfiguredBranch shape serviceInput branchInput =
     and_then (validatedService shape serviceInput) (\<lambda>service.
       and_then (nonempty branchInput) (\<lambda>branch.
         Inr (list_ex (\<lambda>configured. configured = branch) (sc_intended_branches service))))"

record pull_request_scope =
  ps_configuredBaseBranch :: string
  ps_isolatedHeadBranch :: string

definition selectPullRequestScope ::
  "(json \<Rightarrow> validation_issue list + installation_config) \<Rightarrow> jsval \<Rightarrow> jsval \<Rightarrow> jsval \<Rightarrow>
   pull_request_scope option orch" where
  "selectPullRequestScope shape serviceInput baseBranchInput headBranchInput =
     and_then (validatedService shape serviceInput) (\<lambda>service.
       and_then (nonempty baseBranchInput) (\<lambda>baseBranch.
         and_then (nonempty headBranchInput) (\<lambda>headBranch.
           Inr (if baseBranch \<in> set (sc_intended_branches service)
                then Some \<lparr>ps_configuredBaseBranch = baseBranch, ps_isolatedHeadBranch = headBranch\<rparr>
                else None))))"

fun reconciliation_branches :: "service_config \<Rightarrow> string list \<Rightarrow> string list orch" where
  "reconciliation_branches service [] = Inr []"
| "reconciliation_branches service (environmentName # rest) =
     (case list_find (\<lambda>candidate. en_name candidate = environmentName) (sc_environments service) of
        None \<Rightarrow> throw EVENT_SUBJECT_MISMATCH
      | Some environment \<Rightarrow>
          and_then (reconciliation_branches service rest) (\<lambda>selected.
            Inr (case en_intended_branch environment of
                   Some branch \<Rightarrow>
                     if branch \<in> set (sc_intended_branches service) then branch # selected else selected
                 | None \<Rightarrow> selected)))"

definition selectReconciliationBranches ::
  "(json \<Rightarrow> validation_issue list + installation_config) \<Rightarrow> jsval \<Rightarrow> jsval \<Rightarrow> string list orch" where
  "selectReconciliationBranches shape serviceInput environmentsInput =
     and_then (validatedService shape serviceInput) (\<lambda>service.
       and_then (environmentNames environmentsInput) (\<lambda>environments.
         if sc_intended_branches service = [] then Inr []
         else if environments = [] then Inr (canonicalStringSet (sc_intended_branches service))
         else and_then (reconciliation_branches service environments) (\<lambda>selected.
                Inr (canonicalStringSet selected))))"

definition selectBranchlessBaseline ::
  "(json \<Rightarrow> validation_issue list + installation_config) \<Rightarrow> jsval \<Rightarrow> jsval \<Rightarrow> (string \<times> string) orch" where
  "selectBranchlessBaseline shape serviceInput immutableRevisionInput =
     and_then (validatedService shape serviceInput) (\<lambda>service.
       and_then (nonempty immutableRevisionInput) (\<lambda>immutableRevision.
         Inr (sc_service_id service, immutableRevision)))"

section \<open>What a change of configuration affects\<close>

type_synonym metadata = "string \<times> string \<times> string"

definition metadata_of :: "repository_config \<Rightarrow> metadata" where
  "metadata_of r = (rc_provider r, rc_locator r, rc_access_scope_id r)"

text \<open>Where a configuration places a service: its repository, the repository's metadata, its own settings.\<close>

definition placements :: "installation_config \<Rightarrow> (string \<times> string \<times> metadata \<times> service_config) list" where
  "placements config =
     concat_map (\<lambda>r. map (\<lambda>s. (sc_service_id s, rc_repository_id r, metadata_of r, s)) (rc_services r))
       (ic_repositories config)"

definition placement :: "installation_config \<Rightarrow> string \<Rightarrow> (string \<times> metadata \<times> service_config) option" where
  "placement config serviceId = map_of (placements config) serviceId"

definition same_settings :: "configuration_pair \<Rightarrow> configuration_pair \<Rightarrow> bool" where
  "same_settings active candidate \<longleftrightarrow>
     cp_fingerprint active = cp_fingerprint candidate
     \<and> ic_config_version (cp_document active) = ic_config_version (cp_document candidate)
     \<and> ic_access_scopes (cp_document active) = ic_access_scopes (cp_document candidate)
     \<and> ic_inference (cp_document active) = ic_inference (cp_document candidate)
     \<and> ic_logs (cp_document active) = ic_logs (cp_document candidate)"

definition service_in :: "repository_config option \<Rightarrow> string \<Rightarrow> (metadata \<times> service_config) option" where
  "service_in repository serviceId =
     (case repository of
        None \<Rightarrow> None
      | Some r \<Rightarrow> map_option (\<lambda>s. (metadata_of r, s)) (map_of (keyed sc_service_id (rc_services r)) serviceId))"

lemma metadata_text: "canonicalJson (repository_metadata a) = canonicalJson (repository_metadata b) \<longleftrightarrow> metadata_of a = metadata_of b"
  by (subst canonicalJson_eq_iff)
    (simp_all add: repository_metadata_def metadata_of_def members_normal_eq del: json_normal.simps(2))

lemma or_null_text:
  assumes "faithful encode" "\<And>a. encode a \<noteq> JNull"
  shows "canonicalJson (encoded_or_null encode x) = canonicalJson (encoded_or_null encode y) \<longleftrightarrow> x = y"
proof -
  have "json_normal (encode a) \<noteq> JNull" for a using assms(2) [of a] by (cases "encode a") auto
  then show ?thesis
    using assms(1) faithful_wf [OF assms(1)] faithful_normal [OF assms(1)]
    by (subst canonicalJson_eq_iff) (auto simp: encoded_or_null_def dest: sym split: option.splits)
qed

lemma service_text: "canonicalJson (encoded_or_null service_json x) = canonicalJson (encoded_or_null service_json y) \<longleftrightarrow> x = y"
  by (rule or_null_text [OF faithful_service]) (simp add: service_json_def)

lemma affected_services_mem:
  "serviceId \<in> set (affected_services acc os ns) \<longleftrightarrow>
     serviceId \<in> set acc \<or> map_of (keyed sc_service_id os) serviceId \<noteq> map_of (keyed sc_service_id ns) serviceId"
proof -
  have step: "s \<in> set (foldl (\<lambda>acc i. if P i then set_add i acc else acc) acc ids) \<longleftrightarrow>
      s \<in> set acc \<or> s \<in> set ids \<and> P s" for P ids s and acc :: "string list"
    by (induction ids arbitrary: acc) auto
  have "s \<in> sc_service_id ` set os \<union> sc_service_id ` set ns"
    if "map_of (keyed sc_service_id os) s \<noteq> map_of (keyed sc_service_id ns) s" for s
    using that keyed_None [of sc_service_id os s] keyed_None [of sc_service_id ns s] by auto
  then show ?thesis by (auto simp: affected_services_def Let_def step service_text)
qed

lemma affected_repository_mem:
  "serviceId \<in> set (affected_repository acc previous next) \<longleftrightarrow>
     serviceId \<in> set acc \<or> service_in previous serviceId \<noteq> service_in next serviceId"
proof -
  have present: "serviceId \<in> sc_service_id ` set (rc_services r) \<longleftrightarrow> service_in (Some r) serviceId \<noteq> None" for r
    using keyed_None [of sc_service_id "rc_services r" serviceId] by (simp add: service_in_def)
  show ?thesis
  proof (cases "\<exists>old new. previous = Some old \<and> next = Some new")
    case True
    then obtain old new where o: "previous = Some old" "next = Some new" by blast
    show ?thesis
    proof (cases "metadata_of old = metadata_of new")
      case True
      then show ?thesis
        by (cases "map_of (keyed sc_service_id (rc_services old)) serviceId";
            cases "map_of (keyed sc_service_id (rc_services new)) serviceId")
          (simp_all add: o affected_repository_def metadata_text affected_services_mem service_in_def)
    next
      case False
      then have "service_in previous serviceId = service_in next serviceId \<longleftrightarrow>
          service_in previous serviceId = None \<and> service_in next serviceId = None"
        by (cases "map_of (keyed sc_service_id (rc_services old)) serviceId";
            cases "map_of (keyed sc_service_id (rc_services new)) serviceId")
          (simp_all add: o service_in_def)
      then show ?thesis
        using False present [of old] present [of new]
        by (auto simp: o affected_repository_def metadata_text)
    qed
  next
    case False
    then show ?thesis
      using present by (cases previous; cases "next") (auto simp: affected_repository_def service_in_def)
  qed
qed

lemma placement_iff:
  assumes "config_closed config"
  shows "placement config serviceId = Some (repositoryId, m, s) \<longleftrightarrow>
    service_in (map_of (keyed rc_repository_id (ic_repositories config)) repositoryId) serviceId = Some (m, s)"
proof -
  have unique: "inj_on rc_repository_id (set (ic_repositories config))"
    using assms by (simp add: config_closed_def distinct_map)
  have "map fst (placements config) = map sc_service_id (config_services config)"
    by (simp add: placements_def config_services_def concat_map_def map_concat comp_def)
  then have d: "distinct (map fst (placements config))"
    using assms by (simp add: config_closed_def)
  have "distinct (map sc_service_id (rc_services r))" if "r \<in> set (ic_repositories config)" for r
  proof -
    have "distinct (concat (map (\<lambda>r. map sc_service_id (rc_services r)) (ic_repositories config)))"
      using assms by (simp add: config_closed_def config_services_def concat_map_def map_concat comp_def)
    then show ?thesis using that by (simp add: distinct_concat_iff)
  qed
  then have inj: "inj_on sc_service_id (set (rc_services r))" if "r \<in> set (ic_repositories config)" for r
    using that by (simp add: distinct_map)
  have "placement config serviceId = Some (repositoryId, m, s) \<longleftrightarrow>
      (\<exists>r \<in> set (ic_repositories config). s \<in> set (rc_services r) \<and> sc_service_id s = serviceId
         \<and> rc_repository_id r = repositoryId \<and> metadata_of r = m)"
    using d by (auto simp: placement_def placements_def concat_map_def)
  also have "\<dots> \<longleftrightarrow> (\<exists>r. map_of (keyed rc_repository_id (ic_repositories config)) repositoryId = Some r
      \<and> map_of (keyed sc_service_id (rc_services r)) serviceId = Some s \<and> metadata_of r = m)"
    using keyed_get_iff [OF unique, of repositoryId] keyed_get_iff [OF inj, of _ serviceId s] by metis
  also have "\<dots> \<longleftrightarrow> service_in (map_of (keyed rc_repository_id (ic_repositories config)) repositoryId) serviceId = Some (m, s)"
    by (cases "map_of (keyed rc_repository_id (ic_repositories config)) repositoryId") (auto simp: service_in_def)
  finally show ?thesis .
qed

lemma affected_fold:
  "serviceId \<in> set (foldl (\<lambda>acc k. affected_repository acc (old k) (new k)) acc ks) \<longleftrightarrow>
     serviceId \<in> set acc \<or> (\<exists>k \<in> set ks. service_in (old k) serviceId \<noteq> service_in (new k) serviceId)"
  by (induction ks arbitrary: acc) (auto simp: affected_repository_mem)

lemma impact_same_settings:
  assumes "same_settings active candidate" "config_closed (cp_document active)" "config_closed (cp_document candidate)"
  shows "serviceId \<in> set (configuration_impact active candidate) \<longleftrightarrow>
    placement (cp_document active) serviceId \<noteq> placement (cp_document candidate) serviceId"
proof -
  let ?old = "map_of (keyed rc_repository_id (ic_repositories (cp_document active)))"
  let ?new = "map_of (keyed rc_repository_id (ic_repositories (cp_document candidate)))"
  have all: "k \<in> rc_repository_id ` set (ic_repositories (cp_document active)) \<union>
      rc_repository_id ` set (ic_repositories (cp_document candidate))"
    if "service_in (?old k) serviceId \<noteq> service_in (?new k) serviceId" for k
    using that keyed_None [of rc_repository_id "ic_repositories (cp_document active)" k]
      keyed_None [of rc_repository_id "ic_repositories (cp_document candidate)" k] by auto
  have "serviceId \<in> set (configuration_impact active candidate) \<longleftrightarrow>
      (\<exists>k. service_in (?old k) serviceId \<noteq> service_in (?new k) serviceId)"
    using assms(1) all
    by (simp add: configuration_impact_def Let_def same_settings_def affected_fold) blast
  also have "\<dots> \<longleftrightarrow> placement (cp_document active) serviceId \<noteq> placement (cp_document candidate) serviceId"
    (is "?local \<longleftrightarrow> ?placed")
  proof
    assume ?local
    then obtain k where "service_in (?old k) serviceId \<noteq> service_in (?new k) serviceId" ..
    then obtain m s where "(service_in (?old k) serviceId = Some (m, s)) \<noteq> (service_in (?new k) serviceId = Some (m, s))"
      by (metis option.exhaust surj_pair)
    then show ?placed
      using placement_iff [OF assms(2)] placement_iff [OF assms(3)] by metis
  next
    assume ?placed
    then obtain p where
      "(placement (cp_document active) serviceId = Some p) \<noteq> (placement (cp_document candidate) serviceId = Some p)"
      by (metis option.exhaust)
    moreover obtain k m s where "p = (k, m, s)" by (cases p)
    ultimately show ?local
      using placement_iff [OF assms(2)] placement_iff [OF assms(3)] by metis
  qed
  finally show ?thesis .
qed

lemma settings_text:
  "canonicalJson (JArr (map scope_json a)) = canonicalJson (JArr (map scope_json b)) \<longleftrightarrow> a = b"
  "canonicalJson (encoded_or_null inference_json i) = canonicalJson (encoded_or_null inference_json j) \<longleftrightarrow> i = j"
  "canonicalJson (encoded_or_null logs_json l) = canonicalJson (encoded_or_null logs_json m) \<longleftrightarrow> l = m"
proof -
  have "inference_json x \<noteq> JNull" "logs_json y \<noteq> JNull" for x y by (cases x; cases y; simp)+
  then show "canonicalJson (encoded_or_null inference_json i) = canonicalJson (encoded_or_null inference_json j) \<longleftrightarrow> i = j"
    "canonicalJson (encoded_or_null logs_json l) = canonicalJson (encoded_or_null logs_json m) \<longleftrightarrow> l = m"
    using or_null_text [OF faithful_inference] or_null_text [OF faithful_logs] by blast+
  show "canonicalJson (JArr (map scope_json a)) = canonicalJson (JArr (map scope_json b)) \<longleftrightarrow> a = b"
    using faithful_eq [OF faithful_list [OF faithful_scope]] .
qed

lemma impact_all:
  "configuration_impact active candidate =
     (if same_settings active candidate then configuration_impact active candidate
      else allServices [cp_document active, cp_document candidate])"
  unfolding same_settings_def configuration_impact_def Let_def settings_text by auto

lemma impact_sorted: "sorted_wrt (<) (configuration_impact active candidate)"
  using canonicalStringSet_sorted
  by (auto simp: configuration_impact_def allServices_def Let_def isCanonicalStringSet_iff)

text \<open>What the code reads from a pair: a closed document.\<close>

lemma validatePair_closed: "validatePair shape input = Inr pair \<Longrightarrow> config_closed (cp_document pair)"
  by (auto simp: validatePair_def invalid_pair_def dest!: parseConfig_closed
      split: sum.splits json.splits option.splits if_splits)

text \<open>
  C12: The impact of a change of configuration is the sorted list of the services it affects: all
  services of both documents when the fingerprint, the version, the access scopes, the inference
  or the log settings differ, and otherwise exactly those services whose placement differs, that
  is their repository, its metadata or any of their own settings. Reordering repositories or
  services affects nothing.
\<close>

theorem impact_is_placement_change:
  assumes "validatePair shape activeInput = Inr active" "validatePair shape candidateInput = Inr candidate"
  shows "\<exists>impact. calculateConfigurationImpact shape activeInput candidateInput = Inr impact
     \<and> sorted_wrt (<) impact
     \<and> set impact =
         (if same_settings active candidate
          then {serviceId. placement (cp_document active) serviceId \<noteq> placement (cp_document candidate) serviceId}
          else sc_service_id ` set (config_services (cp_document active)) \<union>
            sc_service_id ` set (config_services (cp_document candidate)))"
proof -
  have "calculateConfigurationImpact shape activeInput candidateInput = Inr (configuration_impact active candidate)"
    using assms by (simp add: calculateConfigurationImpact_def)
  moreover have "set (configuration_impact active candidate) =
      (if same_settings active candidate
       then {serviceId. placement (cp_document active) serviceId \<noteq> placement (cp_document candidate) serviceId}
       else sc_service_id ` set (config_services (cp_document active)) \<union>
         sc_service_id ` set (config_services (cp_document candidate)))"
    using impact_same_settings [OF _ validatePair_closed [OF assms(1)] validatePair_closed [OF assms(2)]]
    by (subst impact_all) (auto simp: allServices_def)
  ultimately show ?thesis using impact_sorted by blast
qed

section \<open>A concrete validator\<close>

text \<open>A validator that accepts the listed values, used to show that the hypotheses can hold.\<close>

definition accepting :: "('a \<Rightarrow> json) \<Rightarrow> 'a list \<Rightarrow> json \<Rightarrow> validation_issue list + 'a" where
  "accepting encode accepted j =
     (case list_find (\<lambda>v. json_normal (encode v) = json_normal j) accepted of
        Some v \<Rightarrow> Inr v | None \<Rightarrow> Inl [])"

lemma accepting_same_value: "same_value encode (accepting encode accepted)"
  by (auto simp: same_value_def accepting_def dest!: list_find_Some split: option.splits)

lemma accepting_listed:
  "faithful encode \<Longrightarrow> v \<in> set accepted \<Longrightarrow> json_normal j = json_normal (encode v) \<Longrightarrow>
   accepting encode accepted j = Inr v"
  using list_find_None [of "\<lambda>w. json_normal (encode w) = json_normal j" accepted]
  by (auto simp: accepting_def faithful_normal dest!: list_find_Some split: option.splits)

lemma validatePair_value:
  assumes "shape (json_normal (config_json (cp_document pair))) = Inr (cp_document pair)"
    "config_closed (cp_document pair)" "cp_fingerprint pair \<noteq> []"
  shows "validatePair shape (to_jsval (pair_value pair)) = Inr pair"
proof -
  obtain kvs where kvs: "pair_value pair = JObj kvs"
    "kvs = [(''fingerprint'', JStr (cp_fingerprint pair)), (''document'', config_json (cp_document pair))]"
    by (simp add: pair_value_def)
  have wf: "wf_json (JObj kvs)" and d: "distinct (map fst kvs)"
    by (simp_all add: kvs(2) faithful_wf [OF faithful_config])
  have "parseConfig shape (json_normal (config_json (cp_document pair))) = Inr (cp_document pair)"
    using assms by (simp add: parseConfig_def parserFor_Inr_iff validateConfigReferences_closed)
  then show ?thesis
    unfolding kvs(1) validatePair_def detached_json [OF wf] json_normal.simps sum.case json.case
      detached_member [OF d] detached_keys
    using assms(3) by (simp add: kvs(2))
qed

definition sample_service :: "string \<Rightarrow> string \<Rightarrow> service_config" where
  "sample_service name root =
     \<lparr>sc_service_id = name, sc_root = root,
      sc_analyzer = \<lparr>as_adapter_id = ''ts'', as_adapter_version = ''1'', as_ir_version = None,
        as_production_entrypoint = None, as_resolution_inputs = None\<rparr>,
      sc_intended_branches = [''main'', ''next''],
      sc_environments = [\<lparr>en_name = ''prod'', en_intended_branch = Some ''main'',
        en_deployment_authority = \<lparr>au_adapter_id = ''cd'', au_access_scope_id = ''open'', au_credential = None\<rparr>\<rparr>]\<rparr>"

definition sample_config :: "string \<Rightarrow> installation_config" where
  "sample_config root =
     \<lparr>ic_config_version = ''1.0.0'', ic_access_scopes = [\<lparr>ac_access_scope_id = ''open'', ac_label = ''Open''\<rparr>],
      ic_repositories = [\<lparr>rc_repository_id = ''r'', rc_provider = ''git'', rc_locator = ''l'',
        rc_access_scope_id = ''open'', rc_services = [sample_service ''a'' ''src/a'', sample_service ''b'' root]\<rparr>],
      ic_inference = None, ic_logs = None\<rparr>"

definition sample_pair :: "string \<Rightarrow> configuration_pair" where
  "sample_pair root = \<lparr>cp_fingerprint = ''f'', cp_document = sample_config root\<rparr>"

lemma sample_config_closed: "config_closed (sample_config root)"
  by (simp add: config_closed_def sample_config_def sample_service_def config_services_def)

lemma sample_pair_parsed:
  "root \<in> {''src/b'', ''lib/b''} \<Longrightarrow>
   validatePair (accepting config_json [sample_config ''src/b'', sample_config ''lib/b''])
     (to_jsval (pair_value (sample_pair root))) = Inr (sample_pair root)"
  by (rule validatePair_value)
    (auto simp: sample_pair_def sample_config_closed json_normal_idem intro!: accepting_listed faithful_config)

theorem impact_is_placement_change_witness:
  "\<exists>impact. calculateConfigurationImpact (accepting config_json [sample_config ''src/b'', sample_config ''lib/b''])
       (to_jsval (pair_value (sample_pair ''src/b''))) (to_jsval (pair_value (sample_pair ''lib/b''))) = Inr impact
     \<and> set impact = {''b''}"
proof -
  have "same_settings (sample_pair ''src/b'') (sample_pair ''lib/b'')"
    by (simp add: same_settings_def sample_pair_def sample_config_def)
  moreover have "{serviceId. placement (sample_config ''src/b'') serviceId \<noteq> placement (sample_config ''lib/b'') serviceId} = {''b''}"
    by (auto simp: placement_def placements_def sample_config_def sample_service_def metadata_of_def)
  ultimately show ?thesis
    using impact_is_placement_change [OF sample_pair_parsed sample_pair_parsed, of "''src/b''" "''lib/b''"]
    by (auto simp: sample_pair_def)
qed

section \<open>Properties of branch selection\<close>

lemma array_member:
  assumes "json_normal (object_of ms) = json_normal (JObj kvs)" "distinct (map fst ms)" "distinct (map fst kvs)"
    and "map_of ms k = Some (Some (JArr xs))" "map_of kvs k = Some (JArr ys)"
  shows "map json_normal xs = map json_normal ys"
proof -
  have "map_option json_normal (map_of (present ms) k) = map_option json_normal (map_of kvs k)"
    using assms(1-3) json_normal_object_eq [of "present ms" kvs] by (simp add: object_of_def distinct_present)
  then show ?thesis using assms(2,4,5) by (simp add: map_of_present)
qed

lemma validatedService_parts:
  assumes "same_value config_json shape" "validatedService shape input = Inr service"
  shows "distinct (map en_name (sc_environments service))
    \<and> (\<forall>environment \<in> set (sc_environments service). \<forall>branch.
         en_intended_branch environment = Some branch \<longrightarrow> branch \<in> set (sc_intended_branches service))"
proof -
  obtain candidate config where parsed: "parseConfig shape (validation_config candidate) = Inr config"
    and service: "service = rc_services (ic_repositories config ! 0) ! 0"
    using assms(2) by (auto simp: validatedService_def split: sum.splits)
  have closed: "config_closed config" and "shape (validation_config candidate) = Inr config"
    using parseConfig_closed [OF parsed] by auto
  then have same: "json_normal (config_json config) = json_normal (validation_config candidate)"
    using assms(1) by (simp add: same_value_def)
  define wrapper where "wrapper = JObj [(''repository_id'', JStr ''orchestration-validation''),
      (''provider'', JStr ''validation''), (''locator'', JStr ''validation''),
      (''access_scope_id'', JStr ''orchestration-validation''), (''services'', JArr [candidate])]"
  have "map json_normal (map repository_json (ic_repositories config)) = map json_normal [wrapper]"
    by (rule array_member [OF same [unfolded config_json_def validation_config_def Let_def, folded wrapper_def],
          where k = "''repositories''"]) simp_all
  then obtain r where r: "ic_repositories config = [r]" "json_normal (repository_json r) = json_normal wrapper"
    by auto
  have "map json_normal (map service_json (rc_services r)) = map json_normal [candidate]"
    by (rule array_member [where ms = "[(''repository_id'', Some (JStr (rc_repository_id r))),
        (''provider'', Some (JStr (rc_provider r))), (''locator'', Some (JStr (rc_locator r))),
        (''access_scope_id'', Some (JStr (rc_access_scope_id r))),
        (''services'', Some (JArr (map service_json (rc_services r))))]" and k = "''services''"
        and kvs = "[(''repository_id'', JStr ''orchestration-validation''), (''provider'', JStr ''validation''),
          (''locator'', JStr ''validation''), (''access_scope_id'', JStr ''orchestration-validation''),
          (''services'', JArr [candidate])]"])
      (use r(2) in \<open>simp_all add: wrapper_def object_of_def repository_json_def del: json_normal.simps(2)\<close>)
  then obtain s where "rc_services r = [s]" by auto
  then show ?thesis using closed r(1) service by (simp add: config_closed_def)
qed

lemma reconciliation_branches_eq:
  assumes "distinct (map en_name (sc_environments service))"
    and "\<forall>environment \<in> set (sc_environments service). \<forall>branch.
      en_intended_branch environment = Some branch \<longrightarrow> branch \<in> set (sc_intended_branches service)"
  shows "if set names \<subseteq> en_name ` set (sc_environments service)
    then \<exists>selected. reconciliation_branches service names = Inr selected
      \<and> set selected = {branch. \<exists>environment \<in> set (sc_environments service).
          en_name environment \<in> set names \<and> en_intended_branch environment = Some branch}
    else reconciliation_branches service names = throw EVENT_SUBJECT_MISMATCH"
proof (induction names)
  case (Cons name names)
  let ?find = "list_find (\<lambda>candidate. en_name candidate = name) (sc_environments service)"
  show ?case
  proof (cases ?find)
    case None
    then have "name \<notin> en_name ` set (sc_environments service)" by (auto simp: list_find_None)
    with None show ?thesis by simp
  next
    case (Some environment)
    have e: "environment \<in> set (sc_environments service)" "en_name environment = name"
      using list_find_Some [OF Some] by auto
    have one: "f = environment" if "f \<in> set (sc_environments service)" "en_name f = name" for f
      using assms(1) that e by (auto simp: distinct_map dest: inj_onD)
    have known: "set (name # names) \<subseteq> en_name ` set (sc_environments service) \<longleftrightarrow>
        set names \<subseteq> en_name ` set (sc_environments service)"
      using e by auto
    have step: "reconciliation_branches service (name # names) =
        and_then (reconciliation_branches service names) (\<lambda>selected.
          Inr (case en_intended_branch environment of Some branch \<Rightarrow> branch # selected | None \<Rightarrow> selected))"
      using Some assms(2) e(1) by (cases "en_intended_branch environment") simp_all
    show ?thesis
    proof (cases "set names \<subseteq> en_name ` set (sc_environments service)")
      case False
      with Cons.IH show ?thesis unfolding known step by simp
    next
      case True
      then obtain selected where selected: "reconciliation_branches service names = Inr selected"
        "set selected = {branch. \<exists>environment \<in> set (sc_environments service).
          en_name environment \<in> set names \<and> en_intended_branch environment = Some branch}"
        using Cons.IH by auto
      have "{branch. \<exists>f \<in> set (sc_environments service).
            en_name f \<in> set (name # names) \<and> en_intended_branch f = Some branch} =
          {branch. en_intended_branch environment = Some branch} \<union> set selected"
        (is "?lhs = _")
      proof (intro set_eqI iffI)
        fix b assume "b \<in> ?lhs"
        then obtain f where f: "f \<in> set (sc_environments service)" "en_name f \<in> set (name # names)"
          "en_intended_branch f = Some b" by blast
        then show "b \<in> {branch. en_intended_branch environment = Some branch} \<union> set selected"
          using one [OF f(1)] unfolding selected(2) by (cases "en_name f = name") auto
      next
        fix b assume "b \<in> {branch. en_intended_branch environment = Some branch} \<union> set selected"
        then consider "en_intended_branch environment = Some b"
          | f where "f \<in> set (sc_environments service)" "en_name f \<in> set names" "en_intended_branch f = Some b"
          unfolding selected(2) by blast
        then show "b \<in> ?lhs"
        proof cases
          case 1
          then show ?thesis using e by (intro CollectI bexI [of _ environment]) simp_all
        next
          case (2 f)
          then show ?thesis by (intro CollectI bexI [of _ f]) simp_all
        qed
      qed
      moreover have "set (case en_intended_branch environment of Some branch \<Rightarrow> branch # selected | None \<Rightarrow> selected) =
          {branch. en_intended_branch environment = Some branch} \<union> set selected"
        by (simp split: option.splits)
      ultimately show ?thesis
        unfolding known step selected(1) and_then.simps if_P [OF True] by (intro exI conjI) (rule refl, simp only:)
    qed
  qed
qed simp

text \<open>
  C38: The branches of a reconciliation are, sorted and without repetition, the intended branches
  of the environments it names; all intended branches of the service when it names none; none
  for a service without branches; and a name that is not an environment of the service is
  refused. A branch that is not configured is never selected.
\<close>

theorem reconciliation_branches_selected:
  assumes "same_value config_json shape"
    and "validatedService shape serviceInput = Inr service" "environmentNames environmentsInput = Inr names"
  shows "case selectReconciliationBranches shape serviceInput environmentsInput of
      Inl err \<Rightarrow> err = orch_error EVENT_SUBJECT_MISMATCH \<and> sc_intended_branches service \<noteq> []
        \<and> \<not> set names \<subseteq> en_name ` set (sc_environments service)
    | Inr branches \<Rightarrow> sorted_wrt (<) branches \<and> set branches \<subseteq> set (sc_intended_branches service)
        \<and> set branches = (if names = [] \<or> sc_intended_branches service = [] then set (sc_intended_branches service)
            else {branch. \<exists>environment \<in> set (sc_environments service).
              en_name environment \<in> set names \<and> en_intended_branch environment = Some branch})"
proof -
  note parts = validatedService_parts [OF assms(1,2)]
  have inside: "branch \<in> set (sc_intended_branches service)"
    if "environment \<in> set (sc_environments service)" "en_intended_branch environment = Some branch" for environment branch
    using parts that by blast
  show ?thesis
    using reconciliation_branches_eq [OF parts [THEN conjunct1] parts [THEN conjunct2], of names] assms(2,3) inside
      canonicalStringSet_sorted [of "sc_intended_branches service"] canonicalStringSet_sorted
    by (cases "set names \<subseteq> en_name ` set (sc_environments service)")
      (auto simp: selectReconciliationBranches_def isCanonicalStringSet_iff split: if_splits)
qed

definition sample_wrapper :: installation_config where
  "sample_wrapper =
     \<lparr>ic_config_version = ''1.0.0'',
      ic_access_scopes = [\<lparr>ac_access_scope_id = ''open'', ac_label = ''open''\<rparr>,
        \<lparr>ac_access_scope_id = ''orchestration-validation'', ac_label = ''orchestration-validation''\<rparr>],
      ic_repositories = [\<lparr>rc_repository_id = ''orchestration-validation'', rc_provider = ''validation'',
        rc_locator = ''validation'', rc_access_scope_id = ''orchestration-validation'',
        rc_services = [sample_service ''a'' ''src/a'']\<rparr>],
      ic_inference = None, ic_logs = None\<rparr>"

lemma sample_service_accepted:
  "validatedService (accepting config_json [sample_wrapper]) (to_jsval (service_json (sample_service ''a'' ''src/a''))) =
     Inr (sample_service ''a'' ''src/a'')"
proof -
  have "json_normal (validation_config (json_normal (service_json (sample_service ''a'' ''src/a'')))) =
      json_normal (config_json sample_wrapper)"
    by code_simp
  then have "accepting config_json [sample_wrapper]
      (validation_config (json_normal (service_json (sample_service ''a'' ''src/a'')))) = Inr sample_wrapper"
    by (intro accepting_listed faithful_config) simp_all
  moreover have "config_closed sample_wrapper"
    by (simp add: config_closed_def sample_wrapper_def sample_service_def config_services_def)
  ultimately show ?thesis
    by (simp add: validatedService_def detached_json faithful_wf [OF faithful_service] parseConfig_def parserFor_def
        validateConfigReferences_closed) (simp add: sample_wrapper_def)
qed

theorem reconciliation_branches_selected_witness:
  "case selectReconciliationBranches (accepting config_json [sample_wrapper])
       (to_jsval (service_json (sample_service ''a'' ''src/a''))) (to_jsval (JArr [JStr ''prod''])) of
     Inl err \<Rightarrow> False | Inr branches \<Rightarrow> set branches = {''main''}"
proof -
  have "environmentNames (to_jsval (JArr [JStr ''prod''])) = Inr [''prod'']"
    unfolding environmentNames_def by (subst detached_json) simp_all
  from reconciliation_branches_selected [OF accepting_same_value sample_service_accepted this]
  show ?thesis by (auto simp: sample_service_def split: sum.splits)
qed

end
