(* ===== verification/OrchAuthorize.thy ===== *)
theory OrchAuthorize
  imports OrchConfig
begin

text \<open>
  Who may send which event: the contexts of \<open>packages/orchestration/src/schemas.ts\<close> and
  \<open>authorization.ts\<close>. The shape validators of contexts, events and configurations are the fields
  of \<open>validators\<close>. Properties that the code reads through a non-null assertion are looked up and
  a missing one is a \<open>TypeError\<close>, which is proved never to happen.
\<close>

section \<open>Contexts\<close>

record deployment_grant =
  dg_repositoryId :: string
  dg_serviceId :: string
  dg_environment :: string
  dg_adapterId :: string
  dg_sourceAuthorityIds :: "string list"

record event_context =
  ec_tenantId :: string
  ec_principalId :: string
  ec_producerId :: string
  ec_allowedEventTypes :: "string list"
  ec_allowedRepositories :: "string list"
  ec_allowedServices :: "string list"
  ec_deploymentAuthorityGrants :: "deployment_grant list"
  ec_capabilities :: "string list"

record control_context =
  ct_tenantId :: string
  ct_principalId :: string
  ct_capabilities :: "string list"

record worker_identity =
  wi_workerId :: string
  wi_instanceId :: string
  wi_capabilities :: "string list"

record validators =
  va_context :: "json \<Rightarrow> validation_issue list + event_context"
  va_control :: "json \<Rightarrow> validation_issue list + control_context"
  va_worker :: "json \<Rightarrow> validation_issue list + worker_identity"
  va_evidence :: "json \<Rightarrow> validation_issue list + provider_evidence"
  va_event :: "json \<Rightarrow> validation_issue list + event"
  va_config :: "json \<Rightarrow> validation_issue list + installation_config"

definition canonicalSetIssues :: "(string \<times> string list) list \<Rightarrow> validation_issue list" where
  "canonicalSetIssues entries =
     concat_map (\<lambda>(path, ids).
       if isCanonicalStringSet ids then []
       else [issue path ''semantic.noncanonical_order'' ''set must be unique and UTF-8 byte sorted'']) entries"

definition safeParser ::
  "(json \<Rightarrow> validation_issue list + 'a) \<Rightarrow> ('a \<Rightarrow> validation_issue list) \<Rightarrow> jsval \<Rightarrow> validation_issue list + 'a" where
  "safeParser shape semantic value =
     (case detached value of
        Inl _ \<Rightarrow> Inl [issue ''/'' ''shape.invalid_json_value'' ''input must contain only JSON values'']
      | Inr candidate \<Rightarrow> parserFor shape semantic candidate)"

definition grant_key :: "deployment_grant \<Rightarrow> string" where
  "grant_key grant =
     join_with [CHR 0x00] [dg_repositoryId grant, dg_serviceId grant, dg_environment grant, dg_adapterId grant]"

definition contextSemantic :: "event_context \<Rightarrow> validation_issue list" where
  "contextSemantic context =
     canonicalSetIssues
       [(''/allowedEventTypes'', ec_allowedEventTypes context),
        (''/allowedRepositories'', ec_allowedRepositories context),
        (''/allowedServices'', ec_allowedServices context), (''/capabilities'', ec_capabilities context)]
     @ collect_from 0 (\<lambda>index grant. canonicalSetIssues
         [(''/deploymentAuthorityGrants/'' @ nat_text index @ ''/sourceAuthorityIds'', dg_sourceAuthorityIds grant)])
         (ec_deploymentAuthorityGrants context)
     @ (if isCanonicalBy grant_key (ec_deploymentAuthorityGrants context) then []
        else [issue ''/deploymentAuthorityGrants'' ''semantic.noncanonical_order'' ''grants must be canonical''])"

definition parseAuthenticatedEventContext :: "validators \<Rightarrow> jsval \<Rightarrow> validation_issue list + event_context" where
  "parseAuthenticatedEventContext va = safeParser (va_context va) contextSemantic"

definition parseControlContext :: "validators \<Rightarrow> jsval \<Rightarrow> validation_issue list + control_context" where
  "parseControlContext va =
     safeParser (va_control va) (\<lambda>context. canonicalSetIssues [(''/capabilities'', ct_capabilities context)])"

definition parseWorkerIdentity :: "validators \<Rightarrow> jsval \<Rightarrow> validation_issue list + worker_identity" where
  "parseWorkerIdentity va =
     safeParser (va_worker va) (\<lambda>worker. canonicalSetIssues [(''/capabilities'', wi_capabilities worker)])"

definition parseProviderEvidence :: "validators \<Rightarrow> jsval \<Rightarrow> validation_issue list + provider_evidence" where
  "parseProviderEvidence va = safeParser (va_evidence va) (\<lambda>evidence. [])"

section \<open>Options\<close>

record raw_pair =
  rp_fingerprint :: string
  rp_document :: json

definition read_raw_pair :: "json \<Rightarrow> raw_pair orch" where
  "read_raw_pair pair =
     (case pair of
        JObj members \<Rightarrow>
          (case (map_of members ''fingerprint'', map_of members ''document'') of
             (Some (JStr fingerprint), Some document) \<Rightarrow>
               if length members \<noteq> 2 \<or> fingerprint = [] then throw INVALID_ORCHESTRATION_INPUT
               else Inr \<lparr>rp_fingerprint = fingerprint, rp_document = document\<rparr>
           | _ \<Rightarrow> throw INVALID_ORCHESTRATION_INPUT)
      | _ \<Rightarrow> throw INVALID_ORCHESTRATION_INPUT)"

definition raw_pair_json :: "raw_pair \<Rightarrow> json" where
  "raw_pair_json pair = JObj [(''document'', rp_document pair), (''fingerprint'', JStr (rp_fingerprint pair))]"

record authorization_options =
  ao_activeConfiguration :: "raw_pair option"
  ao_candidateConfiguration :: "raw_pair option"

definition authorizationOptions :: "jsval \<Rightarrow> authorization_options orch" where
  "authorizationOptions input =
     and_then (detachedRecord input) (\<lambda>members.
       if list_ex (\<lambda>key. key \<noteq> ''activeConfiguration'' \<and> key \<noteq> ''candidateConfiguration'') (map fst members)
       then throw INVALID_ORCHESTRATION_INPUT
       else and_then (traverse (\<lambda>(key, pair). and_then (read_raw_pair pair) (\<lambda>raw. Inr (key, raw))) members) (\<lambda>pairs.
              Inr \<lparr>ao_activeConfiguration = map_of pairs ''activeConfiguration'',
                   ao_candidateConfiguration = map_of pairs ''candidateConfiguration''\<rparr>))"

section \<open>Configurations, events and targets\<close>

definition equalSets :: "string list \<Rightarrow> string list \<Rightarrow> bool" where
  "equalSets left right =
     (canonicalJson (strings_json (canonicalStringSet left)) = canonicalJson (strings_json (canonicalStringSet right)))"

definition configuration :: "validators \<Rightarrow> jsval \<Rightarrow> installation_config orch" where
  "configuration va value =
     (case detached value of
        Inl _ \<Rightarrow> throw INVALID_ORCHESTRATION_INPUT
      | Inr candidate \<Rightarrow>
          (case parseConfig (va_config va) candidate of
             Inl issues \<Rightarrow> Inl (orchestrationValidationError issues)
           | Inr config \<Rightarrow> Inr config))"

definition normalizedEvent :: "validators \<Rightarrow> jsval \<Rightarrow> event orch" where
  "normalizedEvent va value =
     (case detached value of
        Inl _ \<Rightarrow> throw INVALID_ORCHESTRATION_INPUT
      | Inr candidate \<Rightarrow>
          (case parseEvent (va_event va) candidate of
             Inl issues \<Rightarrow> Inl (orchestrationValidationError issues)
           | Inr event \<Rightarrow> Inr event))"

record target =
  tg_repositoryId :: string
  tg_serviceId :: string

definition owners :: "installation_config list \<Rightarrow> target list" where
  "owners documents =
     concat_map (\<lambda>document.
       concat_map (\<lambda>repository.
         map (\<lambda>service. \<lparr>tg_repositoryId = rc_repository_id repository, tg_serviceId = sc_service_id service\<rparr>)
           (rc_services repository)) (ic_repositories document)) documents"

fun own_all :: "(string, target) jmap \<Rightarrow> target list \<Rightarrow> (string, target) jmap orch" where
  "own_all ownership [] = Inr ownership"
| "own_all ownership (target # rest) =
     (case map_get ownership (tg_serviceId target) of
        Some prior \<Rightarrow>
          if tg_repositoryId prior \<noteq> tg_repositoryId target then throw EVENT_SUBJECT_MISMATCH
          else own_all (map_set (tg_serviceId target) target ownership) rest
      | None \<Rightarrow> own_all (map_set (tg_serviceId target) target ownership) rest)"

definition resolveTargets ::
  "event \<Rightarrow> installation_config \<Rightarrow> installation_config option \<Rightarrow> target list orch" where
  "resolveTargets event document candidateDocument =
     and_then (own_all [] (owners (case candidateDocument of None \<Rightarrow> [document] | Some c \<Rightarrow> [document, c])))
       (\<lambda>ownership.
          if event_type (ev_payload event)
               \<in> set [''repository.baseline_requested'', ''branch.updated'', ''pull_request.updated'']
             \<and> su_repository_id (ev_subjects event) = None
          then throw EVENT_SUBJECT_MISMATCH
          else traverse (\<lambda>serviceId.
                 case map_get ownership serviceId of
                   None \<Rightarrow> throw EVENT_SUBJECT_MISMATCH
                 | Some target \<Rightarrow>
                     (case su_repository_id (ev_subjects event) of
                        Some repositoryId \<Rightarrow>
                          if tg_repositoryId target \<noteq> repositoryId then throw EVENT_SUBJECT_MISMATCH else Inr target
                      | None \<Rightarrow> Inr target))
                 (canonicalStringSet (su_service_ids (ev_subjects event))))"

text \<open>\<open>document.repositories.find(...)!.services.find(...)!\<close>.\<close>

definition target_service :: "installation_config \<Rightarrow> target \<Rightarrow> (failure, service_config) result" where
  "target_service document target =
     (case list_find (\<lambda>entry. rc_repository_id entry = tg_repositoryId target) (ic_repositories document) of
        None \<Rightarrow> Inl TypeErrorThrown
      | Some repository \<Rightarrow>
          (case list_find (\<lambda>entry. sc_service_id entry = tg_serviceId target) (rc_services repository) of
             None \<Rightarrow> Inl TypeErrorThrown
           | Some service \<Rightarrow> Inr service))"

text \<open>The environment and the source authority of a deployment payload.\<close>

fun deployment_parts :: "event_payload \<Rightarrow> (string \<times> string option) option" where
  "deployment_parts (DeploymentAttempted a) = Some (da_environment a, None)"
| "deployment_parts (ServingObserved o') = Some (so_environment o', Some (os_authority_id (so_source o')))"
| "deployment_parts _ = None"

definition authorizeDeployment ::
  "event_context \<Rightarrow> event \<Rightarrow> string \<Rightarrow> string option \<Rightarrow> installation_config \<Rightarrow> target list \<Rightarrow> (failure, unit) result" where
  "authorizeDeployment context event environmentName authority document targets =
     (if length targets \<noteq> 1
        \<or> su_environment (ev_subjects event) \<noteq> None \<and> su_environment (ev_subjects event) \<noteq> Some environmentName
      then reject EVENT_SUBJECT_MISMATCH
      else (let target = targets ! 0 in
            and_then (target_service document target) (\<lambda>service.
              case list_find (\<lambda>entry. en_name entry = environmentName) (sc_environments service) of
                None \<Rightarrow> reject EVENT_SUBJECT_MISMATCH
              | Some environment \<Rightarrow>
                  (let adapterId = au_adapter_id (en_deployment_authority environment) in
                   case list_find (\<lambda>entry.
                          dg_repositoryId entry = tg_repositoryId target \<and> dg_serviceId entry = tg_serviceId target
                          \<and> dg_environment entry = en_name environment \<and> dg_adapterId entry = adapterId)
                        (ec_deploymentAuthorityGrants context) of
                     None \<Rightarrow> reject EVENT_UNAUTHORIZED
                   | Some grant \<Rightarrow>
                       if ec_producerId context \<noteq> adapterId then reject EVENT_UNAUTHORIZED
                       else (case authority of
                               Some authorityId \<Rightarrow>
                                 if authorityId \<notin> set (dg_sourceAuthorityIds grant)
                                 then reject EVENT_UNAUTHORIZED else Inr ()
                             | None \<Rightarrow> Inr ())))))"

text \<open>The checks that depend on the kind of event.\<close>

definition check_reconciliation ::
  "event \<Rightarrow> string list \<Rightarrow> string list \<Rightarrow> installation_config \<Rightarrow> target list \<Rightarrow> (failure, unit) result" where
  "check_reconciliation event ids environments document targets =
     (if \<not> equalSets (su_service_ids (ev_subjects event)) ids
        \<or> (case su_environment (ev_subjects event) of
             None \<Rightarrow> False | Some environment \<Rightarrow> \<not> equalSets environments [environment])
      then reject EVENT_SUBJECT_MISMATCH
      else and_then (traverse (\<lambda>target.
             and_then (target_service document target) (\<lambda>service.
               if list_ex (\<lambda>name. \<not> list_ex (\<lambda>entry. en_name entry = name) (sc_environments service)) environments
               then reject EVENT_SUBJECT_MISMATCH else Inr ())) targets) (\<lambda>_. Inr ()))"

definition check_configuration ::
  "validators \<Rightarrow> event \<Rightarrow> configuration_change \<Rightarrow> raw_pair \<Rightarrow> raw_pair \<Rightarrow> installation_config \<Rightarrow> unit orch" where
  "check_configuration va event change active candidate candidateDocument =
     and_then (calculateConfigurationImpact (va_config va)
         (to_jsval (raw_pair_json active)) (to_jsval (raw_pair_json candidate))) (\<lambda>impact.
       if \<not> equalSets (su_service_ids (ev_subjects event)) (cc_affected_service_ids change)
         \<or> \<not> equalSets impact (su_service_ids (ev_subjects event))
         \<or> cc_config_version change \<noteq> ic_config_version candidateDocument
         \<or> cc_config_fingerprint change \<noteq> rp_fingerprint candidate
       then throw EVENT_SUBJECT_MISMATCH else Inr ())"

definition check_payload ::
  "validators \<Rightarrow> event_context \<Rightarrow> event \<Rightarrow> authorization_options \<Rightarrow> installation_config \<Rightarrow>
   installation_config option \<Rightarrow> target list \<Rightarrow> (failure, unit) result" where
  "check_payload va context event options document candidateDocument targets =
     (case ev_payload event of
        BaselineRequested revision ids \<Rightarrow>
          if \<not> equalSets (su_service_ids (ev_subjects event)) ids then reject EVENT_SUBJECT_MISMATCH else Inr ()
      | ReconciliationRequested ids environments reference \<Rightarrow>
          check_reconciliation event ids environments document targets
      | ConfigurationChanged change \<Rightarrow>
          (case (ao_activeConfiguration options, ao_candidateConfiguration options, candidateDocument) of
             (Some active, Some candidate, Some newDocument) \<Rightarrow>
               lift (check_configuration va event change active candidate newDocument)
           | _ \<Rightarrow> Inl TypeErrorThrown)
      | DeploymentAttempted a \<Rightarrow> authorizeDeployment context event (da_environment a) None document targets
      | ServingObserved o' \<Rightarrow>
          authorizeDeployment context event (so_environment o') (Some (os_authority_id (so_source o'))) document targets
      | _ \<Rightarrow> Inr ())"

definition is_configuration_change :: "event \<Rightarrow> bool" where
  "is_configuration_change event = (event_type (ev_payload event) = ''configuration.changed'')"

record authorized_event =
  ae_context :: event_context
  ae_event :: event
  ae_targets :: "target list"

definition authorizeNormalizedEvent ::
  "validators \<Rightarrow> jsval \<Rightarrow> jsval \<Rightarrow> jsval \<Rightarrow> jsval \<Rightarrow> (failure, authorized_event) result" where
  "authorizeNormalizedEvent va contextInput eventInput activeConfigurationInput optionsInput =
     (case parseAuthenticatedEventContext va contextInput of
        Inl _ \<Rightarrow> reject EVENT_UNAUTHORIZED
      | Inr context \<Rightarrow>
        if ''event.ingest'' \<notin> set (ec_capabilities context) then reject EVENT_UNAUTHORIZED
        else and_then (lift (normalizedEvent va eventInput)) (\<lambda>event.
          if is_configuration_change event \<and> ''configuration.admin'' \<notin> set (ec_capabilities context)
          then reject EVENT_UNAUTHORIZED
          else if ec_producerId context \<noteq> ev_producer_id event
            \<or> event_type (ev_payload event) \<notin> set (ec_allowedEventTypes context)
          then reject EVENT_UNAUTHORIZED
          else and_then (lift (authorizationOptions optionsInput)) (\<lambda>options.
            and_then (lift (configuration va activeConfigurationInput)) (\<lambda>document.
              if is_configuration_change event
                \<and> (ao_activeConfiguration options = None \<or> ao_candidateConfiguration options = None)
              then reject EVENT_SUBJECT_MISMATCH
              else and_then (case ao_activeConfiguration options of
                     None \<Rightarrow> Inr None
                   | Some pair \<Rightarrow>
                       and_then (lift (configuration va (to_jsval (rp_document pair)))) (\<lambda>registered. Inr (Some registered)))
                (\<lambda>registered.
                  if (case registered of
                        None \<Rightarrow> False
                      | Some r \<Rightarrow> canonicalJson (config_json document) \<noteq> canonicalJson (config_json r))
                  then reject EVENT_SUBJECT_MISMATCH
                  else and_then (case (is_configuration_change event, ao_candidateConfiguration options) of
                         (True, Some pair) \<Rightarrow>
                           and_then (lift (configuration va (to_jsval (rp_document pair)))) (\<lambda>c. Inr (Some c))
                       | _ \<Rightarrow> Inr None)
                    (\<lambda>candidateDocument.
                      and_then (lift (resolveTargets event document candidateDocument)) (\<lambda>targets.
                        if list_ex (\<lambda>target. tg_repositoryId target \<notin> set (ec_allowedRepositories context)
                             \<or> tg_serviceId target \<notin> set (ec_allowedServices context)) targets
                        then reject EVENT_UNAUTHORIZED
                        else and_then (check_payload va context event options document candidateDocument targets) (\<lambda>_.
                          Inr \<lparr>ae_context = context, ae_event = event, ae_targets = targets\<rparr>))))))))"

section \<open>Capabilities\<close>

definition requireControlCapability :: "validators \<Rightarrow> jsval \<Rightarrow> string \<Rightarrow> control_context orch" where
  "requireControlCapability va input capability =
     (case parseControlContext va input of
        Inr context \<Rightarrow>
          if capability \<in> set (ct_capabilities context) then Inr context
          else if capability = ''configuration.admin'' then throw CONFIGURATION_UNAUTHORIZED
          else throw JOB_NOT_FOUND_OR_DENIED
      | Inl _ \<Rightarrow>
          if capability = ''configuration.admin'' then throw CONFIGURATION_UNAUTHORIZED
          else throw JOB_NOT_FOUND_OR_DENIED)"

definition requireWorkerCapability :: "validators \<Rightarrow> jsval \<Rightarrow> string \<Rightarrow> worker_identity orch" where
  "requireWorkerCapability va input capability =
     (case parseWorkerIdentity va input of
        Inr worker \<Rightarrow>
          if capability \<in> set (wi_capabilities worker) then Inr worker else throw WORKER_UNAUTHORIZED
      | Inl _ \<Rightarrow> throw WORKER_UNAUTHORIZED)"

section \<open>Targets\<close>

lemma own_all_mem:
  "own_all ownership ts = Inr ownership' \<Longrightarrow> map_of ownership' k = Some t \<Longrightarrow>
   map_of ownership k = Some t \<or> t \<in> set ts \<and> tg_serviceId t = k"
  by (induction ownership ts rule: own_all.induct) (auto split: option.splits if_splits)

text \<open>Two documents that name a service agree on its repository.\<close>

lemma own_all_keeps:
  "own_all ownership ts = Inr ownership' \<Longrightarrow> map_of ownership k = Some t \<Longrightarrow>
   \<exists>t'. map_of ownership' k = Some t' \<and> tg_repositoryId t' = tg_repositoryId t"
proof (induction ownership ts arbitrary: t rule: own_all.induct)
  case (2 ownership target rest)
  show ?case
  proof (cases "map_of ownership (tg_serviceId target)")
    case None
    then have "own_all (map_set (tg_serviceId target) target ownership) rest = Inr ownership'" using 2 by simp
    moreover have "map_of (map_set (tg_serviceId target) target ownership) k = Some t" using None 2 by auto
    ultimately show ?thesis using 2(1) None by blast
  next
    case (Some prior)
    then have same: "tg_repositoryId prior = tg_repositoryId target"
      and run: "own_all (map_set (tg_serviceId target) target ownership) rest = Inr ownership'"
      using 2 by (auto split: if_splits)
    show ?thesis
    proof (cases "k = tg_serviceId target")
      case True
      then have "map_of (map_set (tg_serviceId target) target ownership) k = Some target" by simp
      then show ?thesis using 2(2) Some same run True 2(4) by fastforce
    next
      case False
      then have "map_of (map_set (tg_serviceId target) target ownership) k = Some t" using 2 by simp
      then show ?thesis using 2(2) Some same run by blast
    qed
  qed
qed simp

lemma own_all_agree:
  "own_all ownership ts = Inr ownership' \<Longrightarrow> t \<in> set ts \<Longrightarrow>
   \<exists>t'. map_of ownership' (tg_serviceId t) = Some t' \<and> tg_repositoryId t' = tg_repositoryId t"
proof (induction ownership ts rule: own_all.induct)
  case (2 ownership target rest)
  have run: "own_all (map_set (tg_serviceId target) target ownership) rest = Inr ownership'"
    using 2 by (auto split: option.splits if_splits)
  show ?case
  proof (cases "t = target")
    case True
    then show ?thesis using own_all_keeps [OF run, of "tg_serviceId target" target] by simp
  next
    case False
    then show ?thesis using 2 run by (cases "map_of ownership (tg_serviceId target)") (auto split: if_splits)
  qed
qed simp

lemma resolveTargets_sound:
  assumes "resolveTargets event document candidateDocument = Inr targets"
  shows "map tg_serviceId targets = canonicalStringSet (su_service_ids (ev_subjects event))
    \<and> set targets \<subseteq> set (owners (document # (case candidateDocument of None \<Rightarrow> [] | Some c \<Rightarrow> [c])))
    \<and> (\<forall>repositoryId. su_repository_id (ev_subjects event) = Some repositoryId \<longrightarrow>
         (\<forall>target \<in> set targets. tg_repositoryId target = repositoryId))"
proof -
  obtain ownership where own: "own_all [] (owners (case candidateDocument of None \<Rightarrow> [document] | Some c \<Rightarrow> [document, c])) = Inr ownership"
    using assms by (auto simp: resolveTargets_def and_then_Inr_iff)
  let ?f = "\<lambda>serviceId. case map_get ownership serviceId of
      None \<Rightarrow> throw EVENT_SUBJECT_MISMATCH
    | Some target \<Rightarrow>
        (case su_repository_id (ev_subjects event) of
           Some repositoryId \<Rightarrow> if tg_repositoryId target \<noteq> repositoryId then throw EVENT_SUBJECT_MISMATCH else Inr target
         | None \<Rightarrow> Inr target)"
  have "traverse ?f (canonicalStringSet (su_service_ids (ev_subjects event))) = Inr targets"
    using assms own unfolding resolveTargets_def by (auto split: if_splits)
  then have rel: "list_all2 (\<lambda>serviceId target. ?f serviceId = Inr target)
      (canonicalStringSet (su_service_ids (ev_subjects event))) targets"
    by (simp only: traverse_Inr_iff)
  have each: "tg_serviceId target = serviceId
      \<and> target \<in> set (owners (document # (case candidateDocument of None \<Rightarrow> [] | Some c \<Rightarrow> [c])))
      \<and> (\<forall>r. su_repository_id (ev_subjects event) = Some r \<longrightarrow> tg_repositoryId target = r)"
    if "?f serviceId = Inr target" for serviceId target
    using that own_all_mem [OF own, of serviceId target]
    by (cases candidateDocument) (auto split: option.splits if_splits)
  from rel each show ?thesis
    by (induction rule: list_all2_induct) auto
qed

lemma owners_service:
  assumes "config_closed document" "target \<in> set (owners [document])"
  shows "\<exists>service. target_service document target = Inr service \<and> sc_service_id service = tg_serviceId target
    \<and> (\<exists>repository \<in> set (ic_repositories document).
         rc_repository_id repository = tg_repositoryId target \<and> service \<in> set (rc_services repository))"
proof -
  obtain r s where r: "r \<in> set (ic_repositories document)" "rc_repository_id r = tg_repositoryId target"
    and s: "s \<in> set (rc_services r)" "sc_service_id s = tg_serviceId target"
    using assms(2) by (auto simp: owners_def concat_map_def)
  obtain r' where r': "list_find (\<lambda>entry. rc_repository_id entry = tg_repositoryId target) (ic_repositories document) = Some r'"
    using r list_find_None [of "\<lambda>entry. rc_repository_id entry = tg_repositoryId target" "ic_repositories document"]
    by (cases "list_find (\<lambda>entry. rc_repository_id entry = tg_repositoryId target) (ic_repositories document)") auto
  have "r' = r"
  proof -
    have "inj_on rc_repository_id (set (ic_repositories document))"
      using assms(1) by (simp add: config_closed_def distinct_map)
    then show ?thesis using list_find_Some [OF r'] r by (simp add: inj_on_def)
  qed
  obtain s' where s': "list_find (\<lambda>entry. sc_service_id entry = tg_serviceId target) (rc_services r) = Some s'"
    using s list_find_None [of "\<lambda>entry. sc_service_id entry = tg_serviceId target" "rc_services r"]
    by (cases "list_find (\<lambda>entry. sc_service_id entry = tg_serviceId target) (rc_services r)") auto
  then show ?thesis
    using r r' \<open>r' = r\<close> list_find_Some [OF s'] by (intro exI [of _ s']) (auto simp: target_service_def)
qed

section \<open>Deployments\<close>

text \<open>The grant behind an accepted deployment.\<close>

definition deployment_granted ::
  "event_context \<Rightarrow> string \<Rightarrow> string option \<Rightarrow> installation_config \<Rightarrow> target \<Rightarrow> bool" where
  "deployment_granted context environmentName authority document target \<longleftrightarrow>
     (\<exists>repository \<in> set (ic_repositories document). \<exists>service \<in> set (rc_services repository).
        rc_repository_id repository = tg_repositoryId target \<and> sc_service_id service = tg_serviceId target
        \<and> (\<exists>environment \<in> set (sc_environments service).
             en_name environment = environmentName
             \<and> au_adapter_id (en_deployment_authority environment) = ec_producerId context
             \<and> (\<exists>grant \<in> set (ec_deploymentAuthorityGrants context).
                  dg_repositoryId grant = tg_repositoryId target \<and> dg_serviceId grant = tg_serviceId target
                  \<and> dg_environment grant = environmentName \<and> dg_adapterId grant = ec_producerId context
                  \<and> (\<forall>authorityId. authority = Some authorityId \<longrightarrow> authorityId \<in> set (dg_sourceAuthorityIds grant)))))"

lemma authorizeDeployment_sound:
  assumes "config_closed document" "set targets \<subseteq> set (owners [document])"
    and "authorizeDeployment context event environmentName authority document targets = Inr u"
  shows "\<exists>target. targets = [target] \<and> deployment_granted context environmentName authority document target"
proof -
  obtain target where targets: "targets = [target]"
    using assms(3) by (auto simp: authorizeDeployment_def length_Suc_conv split: if_splits)
  obtain service where service: "target_service document target = Inr service"
    and placed: "sc_service_id service = tg_serviceId target"
      "\<exists>repository \<in> set (ic_repositories document).
         rc_repository_id repository = tg_repositoryId target \<and> service \<in> set (rc_services repository)"
    using owners_service [OF assms(1), of target] assms(2) targets by auto
  note parts = assms(3) [unfolded authorizeDeployment_def targets]
  obtain environment where environment:
    "list_find (\<lambda>entry. en_name entry = environmentName) (sc_environments service) = Some environment"
    using parts service by (auto simp: Let_def split: if_splits option.splits)
  define found where "found = list_find (\<lambda>entry.
      dg_repositoryId entry = tg_repositoryId target \<and> dg_serviceId entry = tg_serviceId target
      \<and> dg_environment entry = en_name environment
      \<and> dg_adapterId entry = au_adapter_id (en_deployment_authority environment)) (ec_deploymentAuthorityGrants context)"
  obtain grant where grant: "found = Some grant"
    using parts service environment unfolding found_def by (auto simp: Let_def split: if_splits option.splits)
  have last: "ec_producerId context = au_adapter_id (en_deployment_authority environment)"
    "\<forall>authorityId. authority = Some authorityId \<longrightarrow> authorityId \<in> set (dg_sourceAuthorityIds grant)"
    using parts service environment grant unfolding found_def by (auto simp: Let_def split: if_splits option.splits)
  show ?thesis
    using targets placed list_find_Some [OF environment] list_find_Some [OF grant [unfolded found_def]] last
    unfolding deployment_granted_def by metis
qed

lemma authorizeDeployment_no_TypeError:
  assumes "config_closed document" "set targets \<subseteq> set (owners [document])"
  shows "authorizeDeployment context event environmentName authority document targets \<noteq> Inl TypeErrorThrown"
proof (cases "length targets = 1")
  case True
  then obtain target where targets: "targets = [target]" by (auto simp: length_Suc_conv)
  then obtain service where "target_service document target = Inr service"
    using owners_service [OF assms(1), of target] assms(2) by auto
  then show ?thesis
    by (auto simp: authorizeDeployment_def targets Let_def split: option.splits)
qed (simp add: authorizeDeployment_def)

section \<open>Authorized events\<close>

lemma equalSets_iff: "equalSets left right \<longleftrightarrow> set left = set right"
proof -
  have "equalSets left right \<longleftrightarrow> canonicalStringSet left = canonicalStringSet right"
    by (simp add: equalSets_def faithful_eq [OF faithful_strings])
  then show ?thesis using canonicalStringSet_cong set_canonicalStringSet by metis
qed

lemma configuration_closed: "configuration va value = Inr config \<Longrightarrow> config_closed config"
  by (auto simp: configuration_def dest!: parseConfig_closed split: sum.splits)

text \<open>What authorization establishes for each kind of event.\<close>

definition payload_authorized ::
  "validators \<Rightarrow> event_context \<Rightarrow> event \<Rightarrow> authorization_options \<Rightarrow> installation_config \<Rightarrow> target list \<Rightarrow> bool" where
  "payload_authorized va context event options document targets \<longleftrightarrow>
     (case ev_payload event of
        BaselineRequested revision ids \<Rightarrow> set ids = set (su_service_ids (ev_subjects event))
      | ReconciliationRequested ids environments reference \<Rightarrow>
          set ids = set (su_service_ids (ev_subjects event))
          \<and> (\<forall>environment. su_environment (ev_subjects event) = Some environment \<longrightarrow> set environments = {environment})
          \<and> (\<forall>target \<in> set targets. \<exists>service. target_service document target = Inr service
               \<and> set environments \<subseteq> en_name ` set (sc_environments service))
      | ConfigurationChanged change \<Rightarrow>
          (\<exists>active candidate impact. ao_activeConfiguration options = Some active
             \<and> ao_candidateConfiguration options = Some candidate
             \<and> calculateConfigurationImpact (va_config va)
                 (to_jsval (raw_pair_json active)) (to_jsval (raw_pair_json candidate)) = Inr impact
             \<and> set impact = set (su_service_ids (ev_subjects event))
             \<and> set (cc_affected_service_ids change) = set (su_service_ids (ev_subjects event))
             \<and> cc_config_fingerprint change = rp_fingerprint candidate)
      | DeploymentAttempted a \<Rightarrow>
          (\<exists>target. targets = [target] \<and> deployment_granted context (da_environment a) None document target)
      | ServingObserved o' \<Rightarrow>
          (\<exists>target. targets = [target] \<and>
             deployment_granted context (so_environment o') (Some (os_authority_id (so_source o'))) document target)
      | _ \<Rightarrow> True)"

lemma traverse_member: "traverse f xs = Inr ys \<Longrightarrow> x \<in> set xs \<Longrightarrow> \<exists>y. f x = Inr y"
  by (induction xs arbitrary: ys) (auto split: sum.splits)

lemma check_reconciliation_sound:
  assumes "check_reconciliation event ids environments document targets = Inr u"
  shows "set ids = set (su_service_ids (ev_subjects event))
     \<and> (\<forall>environment. su_environment (ev_subjects event) = Some environment \<longrightarrow> set environments = {environment})
     \<and> (\<forall>target \<in> set targets. \<exists>service. target_service document target = Inr service
          \<and> set environments \<subseteq> en_name ` set (sc_environments service))"
proof (intro conjI ballI)
  show "set ids = set (su_service_ids (ev_subjects event))"
    and "\<forall>environment. su_environment (ev_subjects event) = Some environment \<longrightarrow> set environments = {environment}"
    using assms by (auto simp: check_reconciliation_def equalSets_iff split: if_splits option.splits)
  fix target assume target: "target \<in> set targets"
  obtain ys where "traverse (\<lambda>target.
      and_then (target_service document target) (\<lambda>service.
        if list_ex (\<lambda>name. \<not> list_ex (\<lambda>entry. en_name entry = name) (sc_environments service)) environments
        then reject EVENT_SUBJECT_MISMATCH else Inr ())) targets = Inr ys"
    using assms unfolding check_reconciliation_def and_then_Inr_iff
    by (auto simp only: and_then_Inr_iff split: if_split_asm)
  from traverse_member [OF this target] obtain service where "target_service document target = Inr service"
    "\<not> list_ex (\<lambda>name. \<not> list_ex (\<lambda>entry. en_name entry = name) (sc_environments service)) environments"
    by (auto simp only: and_then_Inr_iff split: if_split_asm)
  then show "\<exists>service. target_service document target = Inr service
      \<and> set environments \<subseteq> en_name ` set (sc_environments service)"
    by (auto simp: list_ex_iff)
qed

lemma check_payload_sound:
  assumes "config_closed document" "\<not> is_configuration_change event \<Longrightarrow> set targets \<subseteq> set (owners [document])"
    and "check_payload va context event options document candidateDocument targets = Inr u"
  shows "payload_authorized va context event options document targets"
proof (cases "ev_payload event")
  case (ReconciliationRequested ids environments reference)
  then show ?thesis
    using check_reconciliation_sound [of event ids environments document targets u] assms(3)
    unfolding payload_authorized_def check_payload_def by simp
next
  case (ConfigurationChanged change)
  then show ?thesis
    using assms(3)
    by (auto simp: payload_authorized_def check_payload_def check_configuration_def and_then_Inr_iff equalSets_iff
        split: option.splits if_splits)
next
  case (DeploymentAttempted a)
  then have "\<not> is_configuration_change event" by (simp add: is_configuration_change_def)
  with DeploymentAttempted show ?thesis
    using authorizeDeployment_sound [OF assms(1) assms(2)] assms(3)
    by (simp add: payload_authorized_def check_payload_def)
next
  case (ServingObserved o')
  then have "\<not> is_configuration_change event" by (simp add: is_configuration_change_def)
  with ServingObserved show ?thesis
    using authorizeDeployment_sound [OF assms(1) assms(2)] assms(3)
    by (simp add: payload_authorized_def check_payload_def)
qed (use assms(3) in \<open>auto simp: payload_authorized_def check_payload_def equalSets_iff split: if_splits\<close>)

text \<open>The values an authorization reads on its way to a result.\<close>

lemma authorize_elim:
  assumes "authorizeNormalizedEvent va contextInput eventInput activeConfigurationInput optionsInput = Inr result"
  obtains ctx event options document candidateDocument targets
  where "result = \<lparr>ae_context = ctx, ae_event = event, ae_targets = targets\<rparr>"
    and "parseAuthenticatedEventContext va contextInput = Inr ctx" "''event.ingest'' \<in> set (ec_capabilities ctx)"
    and "normalizedEvent va eventInput = Inr event"
    and "is_configuration_change event \<Longrightarrow> ''configuration.admin'' \<in> set (ec_capabilities ctx)"
    and "ec_producerId ctx = ev_producer_id event" "event_type (ev_payload event) \<in> set (ec_allowedEventTypes ctx)"
    and "authorizationOptions optionsInput = Inr options"
    and "configuration va activeConfigurationInput = Inr document"
    and "\<not> is_configuration_change event \<Longrightarrow> candidateDocument = None"
    and "resolveTargets event document candidateDocument = Inr targets"
    and "\<And>target. target \<in> set targets \<Longrightarrow>
      tg_repositoryId target \<in> set (ec_allowedRepositories ctx) \<and> tg_serviceId target \<in> set (ec_allowedServices ctx)"
    and "check_payload va ctx event options document candidateDocument targets = Inr ()"
proof -
  obtain ctx where ctx: "parseAuthenticatedEventContext va contextInput = Inr ctx"
    "''event.ingest'' \<in> set (ec_capabilities ctx)"
    using assms by (auto simp: authorizeNormalizedEvent_def split: sum.splits if_splits)
  have ingest: "(''event.ingest'' \<notin> set (ec_capabilities ctx)) = False" using ctx(2) by simp
  note run = assms [unfolded authorizeNormalizedEvent_def ctx(1) sum.case ingest if_False]
  obtain event where event: "normalizedEvent va eventInput = Inr event"
    using run unfolding and_then_Inr_iff by auto
  have admin: "is_configuration_change event \<Longrightarrow> ''configuration.admin'' \<in> set (ec_capabilities ctx)"
    using run event by (auto split: if_splits)
  have producer: "ec_producerId ctx = ev_producer_id event \<and> event_type (ev_payload event) \<in> set (ec_allowedEventTypes ctx)"
    using run event by (auto split: if_splits)
  obtain options document where options: "authorizationOptions optionsInput = Inr options"
    and document: "configuration va activeConfigurationInput = Inr document"
    using run event by (auto simp: and_then_Inr_iff split: if_splits)
  obtain candidateDocument targets where candidate: "\<not> is_configuration_change event \<Longrightarrow> candidateDocument = None"
    and targets: "resolveTargets event document candidateDocument = Inr targets"
    and allowed: "\<not> list_ex (\<lambda>target. tg_repositoryId target \<notin> set (ec_allowedRepositories ctx)
      \<or> tg_serviceId target \<notin> set (ec_allowedServices ctx)) targets"
    and check: "check_payload va ctx event options document candidateDocument targets = Inr ()"
    and result: "result = \<lparr>ae_context = ctx, ae_event = event, ae_targets = targets\<rparr>"
    using run event options document
    by (auto simp: and_then_Inr_iff split: if_splits option.splits bool.splits)
  show ?thesis
    by (rule that [OF result ctx event admin producer [THEN conjunct1] producer [THEN conjunct2] options document
          candidate targets _ check]) (use allowed in \<open>auto simp: list_ex_iff\<close>)
qed


section \<open>No TypeError\<close>

lemma traverse_Inl_member: "traverse f xs = Inl e \<Longrightarrow> \<exists>x \<in> set xs. f x = Inl e"
  by (induction xs) (auto split: sum.splits)

lemma check_payload_no_TypeError:
  assumes "config_closed document" "\<not> is_configuration_change event \<Longrightarrow> set targets \<subseteq> set (owners [document])"
    and "is_configuration_change event \<Longrightarrow>
      ao_activeConfiguration options \<noteq> None \<and> ao_candidateConfiguration options \<noteq> None \<and> candidateDocument \<noteq> None"
  shows "check_payload va context event options document candidateDocument targets \<noteq> Inl TypeErrorThrown"
proof (cases "ev_payload event")
  case (ReconciliationRequested ids environments reference)
  then have "set targets \<subseteq> set (owners [document])" using assms(2) by (simp add: is_configuration_change_def)
  then have "target_service document target \<noteq> Inl TypeErrorThrown" if "target \<in> set targets" for target
    using owners_service [OF assms(1), of target] that by auto
  then have "check_reconciliation event ids environments document targets \<noteq> Inl TypeErrorThrown"
    unfolding check_reconciliation_def by (auto simp: and_then_Inl_iff dest!: traverse_Inl_member split: if_splits)
  with ReconciliationRequested show ?thesis by (simp add: check_payload_def)
next
  case (ConfigurationChanged change)
  then have "is_configuration_change event" by (simp add: is_configuration_change_def)
  with assms(3) ConfigurationChanged show ?thesis by (auto simp: check_payload_def)
next
  case (DeploymentAttempted a)
  with assms show ?thesis
    using authorizeDeployment_no_TypeError [OF assms(1)] by (simp add: check_payload_def is_configuration_change_def)
next
  case (ServingObserved o')
  with assms show ?thesis
    using authorizeDeployment_no_TypeError [OF assms(1)] by (simp add: check_payload_def is_configuration_change_def)
qed (auto simp: check_payload_def)

text \<open>
  C34: Authorization always ends in an authorized event or an \<open>OrchestrationError\<close>: none of its
  lookups through a non-null assertion fails, whatever the inputs. And a context that does not
  parse or may not ingest events is refused with the same error whatever the event is, so that
  it learns nothing about it.
\<close>

theorem authorization_total:
  "authorizeNormalizedEvent va contextInput eventInput activeConfigurationInput optionsInput \<noteq> Inl TypeErrorThrown
   \<and> (case parseAuthenticatedEventContext va contextInput of
        Inr ctx \<Rightarrow> ''event.ingest'' \<in> set (ec_capabilities ctx)
          \<or> (\<forall>e a opts. authorizeNormalizedEvent va contextInput e a opts = reject EVENT_UNAUTHORIZED)
      | Inl _ \<Rightarrow> \<forall>e a opts. authorizeNormalizedEvent va contextInput e a opts = reject EVENT_UNAUTHORIZED)"
proof (intro conjI notI)
  assume failed: "authorizeNormalizedEvent va contextInput eventInput activeConfigurationInput optionsInput = Inl TypeErrorThrown"
  have never: False
    if "check_payload va ctx event options document candidateDocument targets = Inl TypeErrorThrown"
      "configuration va activeConfigurationInput = Inr document"
      "resolveTargets event document candidateDocument = Inr targets"
      "\<not> is_configuration_change event \<Longrightarrow> candidateDocument = None"
      "is_configuration_change event \<Longrightarrow>
        ao_activeConfiguration options \<noteq> None \<and> ao_candidateConfiguration options \<noteq> None \<and> candidateDocument \<noteq> None"
    for ctx event options document candidateDocument targets
  proof -
    have "set targets \<subseteq> set (owners [document])" if "\<not> is_configuration_change event"
      using resolveTargets_sound [OF \<open>resolveTargets event document candidateDocument = Inr targets\<close>] that
        \<open>\<not> is_configuration_change event \<Longrightarrow> candidateDocument = None\<close> by simp
    from check_payload_no_TypeError [OF configuration_closed [OF that(2)] this that(5)] that(1)
    show False by simp
  qed
  show False
    using failed
    unfolding authorizeNormalizedEvent_def and_then_Inl_iff
    by (auto simp: and_then_Inl_iff and_then_Inr_iff dest!: never
        split: sum.split_asm if_split_asm option.split_asm bool.split_asm)
next
  show "case parseAuthenticatedEventContext va contextInput of
        Inr ctx \<Rightarrow> ''event.ingest'' \<in> set (ec_capabilities ctx)
          \<or> (\<forall>e a opts. authorizeNormalizedEvent va contextInput e a opts = reject EVENT_UNAUTHORIZED)
      | Inl _ \<Rightarrow> \<forall>e a opts. authorizeNormalizedEvent va contextInput e a opts = reject EVENT_UNAUTHORIZED"
    by (auto simp: authorizeNormalizedEvent_def split: sum.splits)
qed

section \<open>A sample\<close>

definition sample_context :: event_context where
  "sample_context =
     \<lparr>ec_tenantId = ''t'', ec_principalId = ''p'', ec_producerId = ''ci'',
      ec_allowedEventTypes = [''repository.baseline_requested''], ec_allowedRepositories = [''r''],
      ec_allowedServices = [''a'', ''b''], ec_deploymentAuthorityGrants = [], ec_capabilities = [''event.ingest'']\<rparr>"

definition sample_event :: event where
  "sample_event =
     \<lparr>ev_event_version = ''1.0.0'', ev_event_id = ''e1'', ev_producer_id = ''ci'', ev_adapter_version = ''1'',
      ev_occurred_at = ''2024-01-01T00:00:00Z'', ev_received_at = ''2024-01-01T00:00:01Z'',
      ev_subjects = \<lparr>su_repository_id = Some ''r'', su_service_ids = [''b'', ''a''], su_environment = None\<rparr>,
      ev_provider_evidence = \<lparr>pe_provider = ''git'', pe_provider_reference = ''x'', pe_order = None\<rparr>,
      ev_payload = BaselineRequested ''abc'' [''a'', ''b'']\<rparr>"

definition sample_shapes :: validators where
  "sample_shapes =
     \<lparr>va_context = \<lambda>_. Inr sample_context, va_control = \<lambda>_. Inl [], va_worker = \<lambda>_. Inl [],
      va_evidence = \<lambda>_. Inl [], va_event = \<lambda>_. Inr sample_event, va_config = \<lambda>_. Inr (sample_config ''src/b'')\<rparr>"

lemma sample_authorized:
  "authorizeNormalizedEvent sample_shapes VNull VNull VNull (VObject True False []) =
     Inr \<lparr>ae_context = sample_context, ae_event = sample_event,
       ae_targets = [\<lparr>tg_repositoryId = ''r'', tg_serviceId = ''a''\<rparr>, \<lparr>tg_repositoryId = ''r'', tg_serviceId = ''b''\<rparr>]\<rparr>"
  by code_simp


end
