(* ===== verification/OrchIdentity.thy ===== *)
theory OrchIdentity
  imports OrchAuthorize
begin

text \<open>
  The identity of an event: \<open>packages/orchestration/src/hashing.ts\<close> and the requests of
  \<open>reconciliation-scheduler.ts\<close>. The projection sorts what is a set, drops the time of receipt
  and is hashed as canonical text; SHA-256 is the parameter \<open>sha\<close>.
\<close>

section \<open>The projection\<close>

definition byCanonicalJson :: "json \<Rightarrow> json \<Rightarrow> int" where
  "byCanonicalJson left right = compareUtf8 (canonicalJson left) (canonicalJson right)"

fun normalize_state :: "serving_state \<Rightarrow> serving_state" where
  "normalize_state (ServingKnown inventory) =
     ServingKnown (js_sort (\<lambda>left right. byCanonicalJson (mapping_json left) (mapping_json right)) inventory)"
| "normalize_state (ServingUnknown reason observed) =
     ServingUnknown reason (map_option canonicalStringSet observed)"

fun normalize_payload :: "event_payload \<Rightarrow> event_payload" where
  "normalize_payload (BaselineRequested revision ids) = BaselineRequested revision (canonicalStringSet ids)"
| "normalize_payload (ConfigurationChanged change) =
     ConfigurationChanged (change\<lparr>cc_affected_service_ids := canonicalStringSet (cc_affected_service_ids change)\<rparr>)"
| "normalize_payload (ReconciliationRequested ids environments reference) =
     ReconciliationRequested (canonicalStringSet ids) (canonicalStringSet environments) reference"
| "normalize_payload (ServingObserved observation) =
     ServingObserved (observation\<lparr>so_serving_state := normalize_state (so_serving_state observation)\<rparr>)"
| "normalize_payload payload = payload"

definition normalize_event :: "event \<Rightarrow> event" where
  "normalize_event e =
     e\<lparr>ev_subjects := (ev_subjects e)\<lparr>su_service_ids := canonicalStringSet (su_service_ids (ev_subjects e))\<rparr>,
       ev_payload := normalize_payload (ev_payload e)\<rparr>"

text \<open>\<open>const { received_at, ...projection } = event\<close>: the members without the time of receipt.\<close>

definition normalizedEventIdentityProjection :: "validators \<Rightarrow> jsval \<Rightarrow> json orch" where
  "normalizedEventIdentityProjection va input =
     (case detached input of
        Inl _ \<Rightarrow> throw INVALID_ORCHESTRATION_INPUT
      | Inr candidate \<Rightarrow>
          (case parseEvent (va_event va) candidate of
             Inl issues \<Rightarrow> Inl (orchestrationValidationError issues)
           | Inr event \<Rightarrow> Inr (JObj (event_members (normalize_event event)))))"

definition canonicalOrchestrationHash :: "(string \<Rightarrow> string) \<Rightarrow> jsval \<Rightarrow> string orch" where
  "canonicalOrchestrationHash sha value =
     and_then (canonicalOrchestrationJson value) (\<lambda>text. Inr (''sha256:'' @ sha text))"

definition eventSha256 :: "(string \<Rightarrow> string) \<Rightarrow> validators \<Rightarrow> jsval \<Rightarrow> string orch" where
  "eventSha256 sha va input =
     and_then (normalizedEventIdentityProjection va input) (\<lambda>projection.
       canonicalOrchestrationHash sha (to_jsval projection))"

definition semanticOrchestrationId :: "(string \<Rightarrow> string) \<Rightarrow> jsval \<Rightarrow> jsval \<Rightarrow> string orch" where
  "semanticOrchestrationId sha prefixInput identity =
     (case prefixInput of
        VString prefix \<Rightarrow>
          if prefix \<noteq> ''job'' \<and> prefix \<noteq> ''outbox'' then throw INVALID_ORCHESTRATION_INPUT
          else and_then (canonicalOrchestrationHash sha identity) (\<lambda>hash.
                 Inr (prefix @ ''-'' @ drop (length ''sha256:'') hash))
      | _ \<Rightarrow> throw INVALID_ORCHESTRATION_INPUT)"

section \<open>The text of an event determines it\<close>

lemma object_member_differs:
  assumes "distinct (map fst ms)" "distinct (map fst ms')"
    and "map_option json_normal (Option.bind (map_of ms k) (\<lambda>v. v)) \<noteq>
      map_option json_normal (Option.bind (map_of ms' k) (\<lambda>v. v))"
  shows "json_normal (object_of ms) \<noteq> json_normal (object_of ms')"
  unfolding object_of_def
  by (rule member_differs [where k = k]) (use assms in \<open>simp_all add: distinct_present map_of_present\<close>)

lemma object_of_members: "JObj kvs = object_of (map (\<lambda>(k, v). (k, Some v)) kvs)"
proof -
  have "present (map (\<lambda>(k, v). (k, Some v)) kvs) = kvs" by (induction kvs) auto
  then show ?thesis by (simp add: object_of_def)
qed

lemma faithful_subjects: "faithful subjects_json"
  unfolding subjects_json_def [abs_def]
  by (rule faithful_objectI [where ks = "[''repository_id'', ''service_ids'', ''environment'']"])
    (auto simp: faithful_pred [OF faithful_JStr] option.map_comp faithful_options [OF faithful_JStr]
      faithful_wf [OF faithful_strings] faithful_normal [OF faithful_strings] intro: subjects.equality)

lemma faithful_revision: "faithful revision_json"
proof -
  have "json_normal (JObj [(''state'', JStr ''known''), (''revision'', JStr r)]) \<noteq>
      json_normal (JObj [(''state'', JStr ''unknown''), (''reason'', JStr s)])" for r s
    by (rule member_differs [where k = "''state''"]) simp_all
  then have "json_normal (revision_json a) = json_normal (revision_json b) \<Longrightarrow> a = b" for a b
    by (cases a; cases b) (auto simp: members_normal_eq simp del: json_normal.simps(2) dest: sym)
  moreover have "wf_json (revision_json a)" for a by (cases a) auto
  ultimately show ?thesis by (simp add: faithful_def)
qed

lemma faithful_mapping: "faithful mapping_json"
  unfolding mapping_json_def [abs_def]
  by (rule faithful_membersI [where ks = "[''artifact_id'', ''revision'']"])
    (auto simp: faithful_wf [OF faithful_revision] faithful_normal [OF faithful_revision] intro: artifact_mapping.equality)

lemma faithful_serving_state: "faithful serving_state_json"
proof -
  note inventory = faithful_list [OF faithful_mapping]
  have wf: "wf_json (serving_state_json a)" for a
    by (cases a)
      (auto intro!: wf_object_of simp: faithful_wf [OF inventory] faithful_wf [OF faithful_strings]
        simp del: wf_json.simps(1) dest!: sym [of "Some _"])
  have "a = b" if eq: "json_normal (serving_state_json a) = json_normal (serving_state_json b)" for a b
  proof (cases a; cases b)
    fix xs ys assume a: "a = ServingKnown xs" and b: "b = ServingKnown ys"
    then have "json_normal (JArr (map mapping_json xs)) = json_normal (JArr (map mapping_json ys))"
      using eq by (simp add: members_normal_eq del: json_normal.simps)
    then show "a = b" using a b faithful_normal [OF inventory] by simp
  next
    fix r os s ps assume a: "a = ServingUnknown r os" and b: "b = ServingUnknown s ps"
    then show "a = b"
      using eq by (auto simp: object_normal_eq option.map_comp faithful_options [OF faithful_strings]
          simp del: json_normal.simps(2))
  next
    fix xs r os assume a: "a = ServingKnown xs" "b = ServingUnknown r os"
    have "json_normal (serving_state_json a) \<noteq> json_normal (serving_state_json b)"
      unfolding a serving_state_json.simps object_of_members
      by (rule object_member_differs [where k = "''status''"]) simp_all
    with eq show "a = b" by simp
  next
    fix xs r os assume a: "a = ServingUnknown r os" "b = ServingKnown xs"
    have "json_normal (serving_state_json a) \<noteq> json_normal (serving_state_json b)"
      unfolding a serving_state_json.simps object_of_members
      by (rule object_member_differs [where k = "''status''"]) simp_all
    with eq show "a = b" by simp
  qed
  with wf show ?thesis by (simp add: faithful_def)
qed

lemma faithful_source: "faithful source_json"
  unfolding source_json_def [abs_def]
  by (rule faithful_membersI [where ks = "[''authority_id'', ''reference'', ''access_label'']"])
    (auto intro: observation_source.equality)

lemma faithful_attempt: "faithful (\<lambda>a. payload_json (DeploymentAttempted a))"
  unfolding payload_json.simps
  by (rule faithful_objectI [where ks = "[''change_kind'', ''deployment_id'', ''environment'', ''attempt_state'',
      ''effective_order'', ''artifact_id'', ''revision'', ''target_revision'', ''configuration_digest'']"])
    (auto simp: faithful_pred [OF faithful_JStr] option.map_comp faithful_options [OF faithful_JStr]
      faithful_wf [OF faithful_revision] faithful_normal [OF faithful_revision] intro: deployment_attempt.equality)

lemma faithful_observation: "faithful (\<lambda>a. payload_json (ServingObserved a))"
  unfolding payload_json.simps
  by (rule faithful_objectI [where ks = "[''change_kind'', ''observation_id'', ''environment'', ''source'',
      ''completeness'', ''effective_order'', ''rollback_request_id'', ''serving_state'']"])
    (auto simp: faithful_pred [OF faithful_JStr] option.map_comp faithful_options [OF faithful_JStr]
      faithful_wf [OF faithful_source] faithful_normal [OF faithful_source]
      faithful_wf [OF faithful_serving_state] faithful_normal [OF faithful_serving_state]
      intro: serving_observation.equality)

lemma faithful_baseline: "faithful (\<lambda>(r, ids). payload_json (BaselineRequested r ids))"
  unfolding payload_json.simps case_prod_unfold
  by (rule faithful_membersI [where ks = "[''immutable_revision'', ''service_ids'']"])
    (auto simp: faithful_wf [OF faithful_strings] faithful_normal [OF faithful_strings] intro: prod_eqI)

lemma faithful_change: "faithful (\<lambda>c. payload_json (ConfigurationChanged c))"
  unfolding payload_json.simps
  by (rule faithful_membersI [where ks = "[''config_version'', ''config_fingerprint'', ''affected_service_ids'', ''affected_scope'']"])
    (auto simp: faithful_wf [OF faithful_strings] faithful_normal [OF faithful_strings] intro: configuration_change.equality)

lemma faithful_document: "faithful (\<lambda>d. payload_json (SourceDocumentChanged d))"
  unfolding payload_json.simps
  by (rule faithful_membersI [where ks = "[''document_id'', ''source_version'', ''state'', ''access_label'']"])
    (auto intro: document_change.equality)

lemma faithful_pull_request: "faithful (\<lambda>u. payload_json (PullRequestUpdated u))"
  unfolding payload_json.simps
  by (rule faithful_membersI [where ks = "[''pull_request_id'', ''state'', ''base_branch'', ''base_revision'',
      ''head_branch'', ''head_revision'']"]) (auto intro: pull_request_update.equality)

lemma faithful_branch: "faithful (\<lambda>u. payload_json (BranchUpdated u))"
  unfolding payload_json.simps
  by (rule faithful_membersI [where ks = "[''branch'', ''prior_revision'', ''new_revision'', ''reference_state'']"])
    (auto split: option.splits intro!: branch_update.equality)

lemma faithful_reconciliation: "faithful (\<lambda>(ids, environments, r). payload_json (ReconciliationRequested ids environments r))"
proof -
  have scope: "faithful (\<lambda>p. JObj [(''service_ids'', strings_json (fst p)), (''environments'', strings_json (snd p))])"
    by (rule faithful_membersI [where ks = "[''service_ids'', ''environments'']"])
      (auto simp: faithful_wf [OF faithful_strings] faithful_normal [OF faithful_strings] intro: prod_eqI)
  have "faithful (\<lambda>q. JObj [(''scope'', (\<lambda>p. JObj [(''service_ids'', strings_json (fst p)),
      (''environments'', strings_json (snd p))]) (fst q)), (''provider_snapshot_reference'', JStr (snd q))])"
    by (rule faithful_membersI [where ks = "[''scope'', ''provider_snapshot_reference'']"])
      (auto simp: faithful_wf [OF scope] faithful_normal [OF scope] simp del: json_normal.simps(2) wf_json.simps(2)
        intro: prod_eqI)
  then have "x = y" if "json_normal (payload_json (ReconciliationRequested (fst x) (fst (snd x)) (snd (snd x)))) =
      json_normal (payload_json (ReconciliationRequested (fst y) (fst (snd y)) (snd (snd y))))" for x y
    using that unfolding faithful_def payload_json.simps
    by (metis fst_conv prod.collapse prod.inject snd_conv)
  moreover have "wf_json (payload_json (ReconciliationRequested a b c))" for a b c
    using faithful_wf [OF faithful_strings] by simp
  ultimately show ?thesis by (auto simp: faithful_def case_prod_unfold)
qed

lemma payload_cross:
  "json_normal (payload_json (DeploymentAttempted a)) \<noteq> json_normal (payload_json (ServingObserved o'))"
  unfolding payload_json.simps
  by (rule object_member_differs [where k = "''change_kind''"]) simp_all

lemma payload_text_inj:
  assumes "event_type p = event_type q" "json_normal (payload_json p) = json_normal (payload_json q)"
  shows "p = q"
proof (cases p)
  case (BaselineRequested r ids)
  then obtain s js where "q = BaselineRequested s js" using assms(1) by (cases q) auto
  then show ?thesis using assms(2) BaselineRequested faithful_normal [OF faithful_baseline, of "(r, ids)" "(s, js)"] by simp
next
  case (PullRequestUpdated u)
  then obtain v where "q = PullRequestUpdated v" using assms(1) by (cases q) auto
  then show ?thesis using assms(2) PullRequestUpdated faithful_normal [OF faithful_pull_request, of u v] by simp
next
  case (BranchUpdated u)
  then obtain v where "q = BranchUpdated v" using assms(1) by (cases q) auto
  then show ?thesis using assms(2) BranchUpdated faithful_normal [OF faithful_branch, of u v] by simp
next
  case (DeploymentAttempted a)
  then consider b where "q = DeploymentAttempted b" | b where "q = ServingObserved b" using assms(1) by (cases q) auto
  then show ?thesis
    using assms(2) DeploymentAttempted payload_cross faithful_normal [OF faithful_attempt, of a] by cases auto
next
  case (ServingObserved o')
  then consider b where "q = DeploymentAttempted b" | b where "q = ServingObserved b" using assms(1) by (cases q) auto
  then show ?thesis
    using assms(2) ServingObserved payload_cross [symmetric] faithful_normal [OF faithful_observation, of o'] by cases auto
next
  case (ConfigurationChanged c)
  then obtain d where "q = ConfigurationChanged d" using assms(1) by (cases q) auto
  then show ?thesis using assms(2) ConfigurationChanged faithful_normal [OF faithful_change, of c d] by simp
next
  case (SourceDocumentChanged c)
  then obtain d where "q = SourceDocumentChanged d" using assms(1) by (cases q) auto
  then show ?thesis using assms(2) SourceDocumentChanged faithful_normal [OF faithful_document, of c d] by simp
next
  case (ReconciliationRequested ids es r)
  then obtain js fs s where "q = ReconciliationRequested js fs s" using assms(1) by (cases q) auto
  then show ?thesis
    using assms(2) ReconciliationRequested faithful_normal [OF faithful_reconciliation, of "(ids, es, r)" "(js, fs, s)"] by simp
qed

lemma payload_wf: "wf_json (payload_json p)"
proof (cases p)
  case (BaselineRequested r ids)
  then show ?thesis using faithful_wf [OF faithful_baseline, of "(r, ids)"] by simp
next
  case (ReconciliationRequested ids es r)
  then show ?thesis using faithful_wf [OF faithful_reconciliation, of "(ids, es, r)"] by simp
qed (use faithful_wf [OF faithful_pull_request] faithful_wf [OF faithful_branch] faithful_wf [OF faithful_attempt]
    faithful_wf [OF faithful_observation] faithful_wf [OF faithful_change] faithful_wf [OF faithful_document] in auto)

definition without_receipt :: "event \<Rightarrow> event" where
  "without_receipt e = e\<lparr>ev_received_at := []\<rparr>"

lemma faithful_producer: "faithful (\<lambda>e. JObj [(''producer_id'', JStr (fst e)), (''adapter_version'', JStr (snd e))])"
  by (rule faithful_membersI [where ks = "[''producer_id'', ''adapter_version'']"]) (auto intro: prod_eqI)

lemma event_projection_wf: "wf_json (JObj (event_members e))"
  by (simp add: event_members_def faithful_wf [OF faithful_subjects] faithful_wf [OF faithful_provider_evidence] payload_wf)

lemma event_projection_eq:
  "canonicalJson (JObj (event_members e)) = canonicalJson (JObj (event_members f)) \<longleftrightarrow>
   without_receipt e = without_receipt f"
proof
  assume "canonicalJson (JObj (event_members e)) = canonicalJson (JObj (event_members f))"
  then have "json_normal (JObj (event_members e)) = json_normal (JObj (event_members f))"
    using canonicalJson_eq_iff event_projection_wf by blast
  then have "map (json_normal \<circ> snd) (event_members e) = map (json_normal \<circ> snd) (event_members f)"
    by (subst (asm) members_normal_eq) (simp_all add: event_members_def)
  then show "without_receipt e = without_receipt f"
    using faithful_normal [OF faithful_producer, of "(ev_producer_id e, ev_adapter_version e)" "(ev_producer_id f, ev_adapter_version f)"]
      payload_text_inj [of "ev_payload e" "ev_payload f"]
    by (auto simp: event_members_def without_receipt_def faithful_normal [OF faithful_subjects]
        faithful_normal [OF faithful_provider_evidence] simp del: json_normal.simps(2) intro!: event.equality)
next
  assume eq: "without_receipt e = without_receipt f"
  have "event_members (without_receipt e) = event_members e" for e
    by (simp add: event_members_def without_receipt_def)
  then show "canonicalJson (JObj (event_members e)) = canonicalJson (JObj (event_members f))"
    using eq by metis
qed

section \<open>Equal identities\<close>

text \<open>Two events that say the same thing, up to the order of their sets and the time of receipt.\<close>

fun same_state :: "serving_state \<Rightarrow> serving_state \<Rightarrow> bool" where
  "same_state (ServingKnown xs) (ServingKnown ys) = (mset xs = mset ys)"
| "same_state (ServingUnknown r None) (ServingUnknown s None) = (r = s)"
| "same_state (ServingUnknown r (Some xs)) (ServingUnknown s (Some ys)) = (r = s \<and> set xs = set ys)"
| "same_state _ _ = False"

fun same_payload :: "event_payload \<Rightarrow> event_payload \<Rightarrow> bool" where
  "same_payload (BaselineRequested r xs) (BaselineRequested s ys) = (r = s \<and> set xs = set ys)"
| "same_payload (ConfigurationChanged c) (ConfigurationChanged d) =
     (set (cc_affected_service_ids c) = set (cc_affected_service_ids d)
      \<and> c\<lparr>cc_affected_service_ids := []\<rparr> = d\<lparr>cc_affected_service_ids := []\<rparr>)"
| "same_payload (ReconciliationRequested xs es r) (ReconciliationRequested ys fs s) =
     (set xs = set ys \<and> set es = set fs \<and> r = s)"
| "same_payload (ServingObserved a) (ServingObserved b) =
     (same_state (so_serving_state a) (so_serving_state b)
      \<and> a\<lparr>so_serving_state := ServingKnown []\<rparr> = b\<lparr>so_serving_state := ServingKnown []\<rparr>)"
| "same_payload p q = (p = q)"

definition same_event :: "event \<Rightarrow> event \<Rightarrow> bool" where
  "same_event e f \<longleftrightarrow>
     same_payload (ev_payload e) (ev_payload f)
     \<and> set (su_service_ids (ev_subjects e)) = set (su_service_ids (ev_subjects f))
     \<and> su_repository_id (ev_subjects e) = su_repository_id (ev_subjects f)
     \<and> su_environment (ev_subjects e) = su_environment (ev_subjects f)
     \<and> ev_event_version e = ev_event_version f \<and> ev_event_id e = ev_event_id f
     \<and> ev_producer_id e = ev_producer_id f \<and> ev_adapter_version e = ev_adapter_version f
     \<and> ev_occurred_at e = ev_occurred_at f \<and> ev_provider_evidence e = ev_provider_evidence f"

lemma canonicalStringSet_iff: "canonicalStringSet xs = canonicalStringSet ys \<longleftrightarrow> set xs = set ys"
  using canonicalStringSet_cong set_canonicalStringSet by metis

lemma sorted_inventory_iff:
  "js_sort (\<lambda>l r. byCanonicalJson (mapping_json l) (mapping_json r)) xs =
   js_sort (\<lambda>l r. byCanonicalJson (mapping_json l) (mapping_json r)) ys \<longleftrightarrow> mset xs = mset ys"
proof -
  have sort: "js_sort (\<lambda>l r. byCanonicalJson (mapping_json l) (mapping_json r)) =
      sort_key (\<lambda>m. canonicalJson (mapping_json m))"
    unfolding byCanonicalJson_def by (rule js_sort_by_compareUtf8)
  have inj: "inj (\<lambda>m. canonicalJson (mapping_json m))"
    by (rule injI) (simp add: faithful_eq [OF faithful_mapping])
  have "map f (sort_key f zs) = sort (map f zs)" for f :: "artifact_mapping \<Rightarrow> string" and zs
    by (rule properties_for_sort [symmetric]) simp_all
  then have "mset xs = mset ys \<Longrightarrow> map (\<lambda>m. canonicalJson (mapping_json m)) (sort_key (\<lambda>m. canonicalJson (mapping_json m)) xs) =
      map (\<lambda>m. canonicalJson (mapping_json m)) (sort_key (\<lambda>m. canonicalJson (mapping_json m)) ys)"
    by (metis mset_map properties_for_sort mset_sort sorted_sort)
  then show ?thesis
    unfolding sort using inj_map_eq_map [OF inj] by (metis mset_sort)
qed

lemma normalize_state_iff: "normalize_state s = normalize_state t \<longleftrightarrow> same_state s t"
  by (cases "(s, t)" rule: same_state.cases) (auto simp: sorted_inventory_iff canonicalStringSet_iff)

lemma normalize_change_iff:
  "normalize_payload (ConfigurationChanged c) = normalize_payload (ConfigurationChanged d) \<longleftrightarrow>
   same_payload (ConfigurationChanged c) (ConfigurationChanged d)"
  by (cases c; cases d) (simp add: canonicalStringSet_iff conj_ac)

lemma normalize_observation_iff:
  "normalize_payload (ServingObserved c) = normalize_payload (ServingObserved d) \<longleftrightarrow>
   same_payload (ServingObserved c) (ServingObserved d)"
  by (cases c; cases d) (simp add: normalize_state_iff conj_ac)

lemma normalize_payload_iff: "normalize_payload p = normalize_payload q \<longleftrightarrow> same_payload p q"
proof (cases "(p, q)" rule: same_payload.cases)
  case (2 c d)
  then show ?thesis using normalize_change_iff by simp
next
  case (4 c d)
  then show ?thesis using normalize_observation_iff by simp
qed (auto simp: canonicalStringSet_iff elim: normalize_payload.elims elim!: normalize_payload.elims [OF sym])

lemma normalize_event_iff:
  "without_receipt (normalize_event e) = without_receipt (normalize_event f) \<longleftrightarrow> same_event e f"
proof -
  obtain s t where st: "ev_subjects e = s" "ev_subjects f = t" by blast
  have "s\<lparr>su_service_ids := canonicalStringSet (su_service_ids s)\<rparr> = t\<lparr>su_service_ids := canonicalStringSet (su_service_ids t)\<rparr> \<longleftrightarrow>
      set (su_service_ids s) = set (su_service_ids t) \<and> su_repository_id s = su_repository_id t
      \<and> su_environment s = su_environment t"
    by (cases s; cases t) (auto simp: canonicalStringSet_iff)
  with st show ?thesis
    by (cases e; cases f) (auto simp: without_receipt_def normalize_event_def same_event_def normalize_payload_iff)
qed

text \<open>
  C13: The hash of an event identifies what it says: two events have the same hash exactly when
  they agree up to the time of receipt, the order and repetition of their service, environment
  and artifact identifiers and the order of an inventory. The hypothesis says that SHA-256
  separates the two canonical texts.
\<close>

theorem event_identity:
  assumes "normalizedEvent va input = Inr e" "normalizedEvent va other = Inr f"
    and "inj_on sha {canonicalJson (JObj (event_members (normalize_event e))),
      canonicalJson (JObj (event_members (normalize_event f)))}"
  shows "eventSha256 sha va input = eventSha256 sha va other \<longleftrightarrow> same_event e f"
proof -
  have hash: "eventSha256 sha va i = Inr (''sha256:'' @ sha (canonicalJson (JObj (event_members (normalize_event g)))))"
    if "normalizedEvent va i = Inr g" for i g
    using that
    by (auto simp: normalizedEvent_def eventSha256_def normalizedEventIdentityProjection_def canonicalOrchestrationHash_def
        canonicalOrchestrationJson_def serializeCanonical_to_jsval simp del: to_jsval.simps split: sum.splits)
  show ?thesis
    unfolding hash [OF assms(1)] hash [OF assms(2)] sum.inject append_same_eq same_append_eq
      inj_on_eq_iff [OF assms(3) insertI1 insertI2 [OF singletonI]] event_projection_eq
    by (rule normalize_event_iff)
qed

theorem event_identity_witness:
  "eventSha256 (\<lambda>s. s) sample_shapes VNull = eventSha256 (\<lambda>s. s) sample_shapes (VBoolean True)"
proof -
  have "normalizedEvent sample_shapes VNull = Inr sample_event"
    and "normalizedEvent sample_shapes (VBoolean True) = Inr sample_event" by code_simp+
  from event_identity [OF this inj_on_id2] show ?thesis by (simp add: same_event_def sample_event_def)
qed

section \<open>Scheduled reconciliations\<close>

text \<open>\<open>nonempty\<close> of the scheduler: at most 512 code units, no control character below 32.\<close>

fun short_text :: "json \<Rightarrow> string option" where
  "short_text (JStr s) =
     (if s = [] \<or> 512 < length s \<or> list_ex (\<lambda>c. of_char c \<le> (31 :: nat)) s then None else Some s)"
| "short_text _ = None"

fun short_texts :: "json \<Rightarrow> string list option" where
  "short_texts (JArr vs) =
     (if list_all (\<lambda>v. short_text v \<noteq> None) vs then Some (map (\<lambda>v. the (short_text v)) vs) else None)"
| "short_texts _ = None"

definition request_keys :: "string list" where
  "request_keys =
     [''idempotencyKey'', ''occurredAt'', ''receivedAt'', ''repositoryId'', ''serviceIds'', ''environments'',
      ''providerSnapshotReference'', ''providerEvidence'']"

definition scheduled_event_id :: "(string \<Rightarrow> string) \<Rightarrow> event_context \<Rightarrow> string \<Rightarrow> string" where
  "scheduled_event_id sha ctx key =
     ''scheduled-reconciliation-'' @ sha (canonicalJson (JObj
        [(''tenantId'', JStr (ec_tenantId ctx)), (''producerId'', JStr (ec_producerId ctx)),
         (''idempotencyKey'', JStr key)]))"

text \<open>The event a request asks to ingest, before it is parsed.\<close>

definition scheduled_event ::
  "(string \<Rightarrow> string) \<Rightarrow> event_context \<Rightarrow> string \<Rightarrow> json \<Rightarrow> json \<Rightarrow> string \<Rightarrow> string list \<Rightarrow> string list \<Rightarrow> string \<Rightarrow>
   provider_evidence \<Rightarrow> json" where
  "scheduled_event sha ctx key occurredAt receivedAt repositoryId serviceIds environments reference evidence =
     JObj [(''event_version'', JStr ''1.0.0''), (''event_id'', JStr (scheduled_event_id sha ctx key)),
       (''event_type'', JStr ''reconciliation.requested''),
       (''producer'', JObj [(''producer_id'', JStr (ec_producerId ctx)), (''adapter_version'', JStr ''scheduler-1'')]),
       (''occurred_at'', occurredAt), (''received_at'', receivedAt),
       (''subjects'', JObj [(''repository_id'', JStr repositoryId),
          (''service_ids'', strings_json (canonicalStringSet serviceIds))]),
       (''provider_evidence'', provider_evidence_json evidence),
       (''payload'', JObj [(''scope'', JObj [(''service_ids'', strings_json (canonicalStringSet serviceIds)),
            (''environments'', strings_json (canonicalStringSet environments))]),
          (''provider_snapshot_reference'', JStr reference)])]"

text \<open>\<open>request\<close> up to the call of \<open>ingestEvent\<close>: the context and the event it is called with.\<close>

definition request :: "(string \<Rightarrow> string) \<Rightarrow> validators \<Rightarrow> jsval \<Rightarrow> jsval \<Rightarrow> (event_context \<times> event) orch" where
  "request sha va contextInput input =
     (case parseAuthenticatedEventContext va contextInput of
        Inl _ \<Rightarrow> throw INVALID_ORCHESTRATION_INPUT
      | Inr ctx \<Rightarrow>
          and_then (detachedRecord input) (\<lambda>members.
            if sort (map fst members) \<noteq> sort request_keys then throw INVALID_ORCHESTRATION_INPUT
            else case (Option.bind (map_of members ''idempotencyKey'') short_text,
                       Option.bind (map_of members ''repositoryId'') short_text,
                       Option.bind (map_of members ''providerSnapshotReference'') short_text,
                       Option.bind (map_of members ''serviceIds'') short_texts,
                       Option.bind (map_of members ''environments'') short_texts) of
              (Some key, Some repositoryId, Some reference, Some serviceIds, Some environments) \<Rightarrow>
                if serviceIds = [] then throw INVALID_ORCHESTRATION_INPUT
                else (case parseProviderEvidence va (to_jsval (the (map_of members ''providerEvidence''))) of
                        Inl _ \<Rightarrow> throw INVALID_ORCHESTRATION_INPUT
                      | Inr evidence \<Rightarrow>
                          if (case pe_order evidence of
                                Some order \<Rightarrow> po_kind order = SequenceOrder \<and> \<not> index_segment (po_value order)
                              | None \<Rightarrow> False)
                          then throw INVALID_ORCHESTRATION_INPUT
                          else (case parseEvent (va_event va)
                                  (scheduled_event sha ctx key (the (map_of members ''occurredAt''))
                                     (the (map_of members ''receivedAt'')) repositoryId serviceIds environments
                                     reference evidence) of
                                  Inl _ \<Rightarrow> throw INVALID_ORCHESTRATION_INPUT
                                | Inr event \<Rightarrow> Inr (ctx, event)))
            | _ \<Rightarrow> throw INVALID_ORCHESTRATION_INPUT))"

lemma event_json_wf: "wf_json (event_json e)"
  using event_projection_wf [of e] by (simp add: event_json_def event_members_def)

lemma scheduled_event_id_eq:
  assumes "same_value event_json shape"
    and "parseEvent shape (scheduled_event sha ctx key occurredAt receivedAt r ss es reference evidence) = Inr event"
  shows "ev_event_id event = scheduled_event_id sha ctx key"
proof -
  obtain kvs where kvs: "scheduled_event sha ctx key occurredAt receivedAt r ss es reference evidence = JObj kvs"
    "distinct (map fst kvs)" "map_of kvs ''event_id'' = Some (JStr (scheduled_event_id sha ctx key))"
    by (simp add: scheduled_event_def)
  have "json_normal (event_json event) = json_normal (JObj kvs)"
    using assms kvs(1) by (auto simp: same_value_def parseEvent_def parserFor_Inr_iff)
  moreover have "distinct (map fst (event_members event @ [(''received_at'', JStr (ev_received_at event))]))"
    by (simp add: event_members_def)
  ultimately have "map_option json_normal (map_of (event_members event @ [(''received_at'', JStr (ev_received_at event))]) ''event_id'') =
      map_option json_normal (map_of kvs ''event_id'')"
    using kvs(2) json_normal_object_eq unfolding event_json_def by blast
  then show ?thesis using kvs(3) by (simp add: event_members_def)
qed

definition schedule_text :: "event_context \<Rightarrow> string \<Rightarrow> string" where
  "schedule_text ctx key =
     canonicalJson (JObj [(''tenantId'', JStr (ec_tenantId ctx)), (''producerId'', JStr (ec_producerId ctx)),
       (''idempotencyKey'', JStr key)])"

lemma schedule_text_eq:
  "schedule_text a k = schedule_text b l \<longleftrightarrow> ec_tenantId a = ec_tenantId b \<and> ec_producerId a = ec_producerId b \<and> k = l"
  unfolding schedule_text_def by (subst canonicalJson_eq_iff) (simp_all add: members_normal_eq del: json_normal.simps(2))

lemma request_event:
  assumes "request sha va contextInput input = Inr (ctx, event)" "same_value event_json (va_event va)"
  obtains members key where "detachedRecord input = Inr members" "map_of members ''idempotencyKey'' = Some (JStr key)"
    and "ev_event_id event = ''scheduled-reconciliation-'' @ sha (schedule_text ctx key)"
proof -
  from assms(1) obtain members where members: "detachedRecord input = Inr members"
    by (auto simp: request_def and_then_Inr_iff split: sum.splits)
  note run = assms(1) [unfolded request_def members and_then.simps]
  obtain key where key: "Option.bind (map_of members ''idempotencyKey'') short_text = Some key"
    using run by (auto split: sum.split_asm if_split_asm option.split_asm)
  have parsed: "\<exists>o' v r ss es reference evidence.
      parseEvent (va_event va) (scheduled_event sha ctx key o' v r ss es reference evidence) = Inr event"
    using run unfolding key option.case
    by (auto split: sum.split_asm if_split_asm option.split_asm; blast)
  then have "ev_event_id event = scheduled_event_id sha ctx key"
    using scheduled_event_id_eq [OF assms(2)] by blast
  moreover have "map_of members ''idempotencyKey'' = Some (JStr key)"
    using key by (auto simp: bind_eq_Some_conv elim!: short_text.elims split: if_splits)
  ultimately show ?thesis using that members by (simp add: scheduled_event_id_def schedule_text_def)
qed

text \<open>
  C33: A scheduled reconciliation is idempotent by its key: two accepted requests produce the same
  event identifier exactly when tenant, producer and idempotency key agree, whatever else the
  requests say; so a retry is recognised and a new key is never taken for one.
\<close>

theorem scheduled_requests_by_key:
  assumes "same_value event_json (va_event va)"
    and "request sha va contextInput input = Inr (ctx, event)"
    and "request sha va otherContext otherInput = Inr (ctx', event')"
    and "detachedRecord input = Inr members" "map_of members ''idempotencyKey'' = Some (JStr key)"
    and "detachedRecord otherInput = Inr members'" "map_of members' ''idempotencyKey'' = Some (JStr key')"
    and "inj_on sha {schedule_text ctx key, schedule_text ctx' key'}"
  shows "ev_event_id event = ev_event_id event' \<longleftrightarrow>
    ec_tenantId ctx = ec_tenantId ctx' \<and> ec_producerId ctx = ec_producerId ctx' \<and> key = key'"
proof -
  have "ev_event_id event = ''scheduled-reconciliation-'' @ sha (schedule_text ctx key)"
    by (rule request_event [OF assms(2,1)]) (use assms(4,5) in simp)
  moreover have "ev_event_id event' = ''scheduled-reconciliation-'' @ sha (schedule_text ctx' key')"
    by (rule request_event [OF assms(3,1)]) (use assms(6,7) in simp)
  ultimately show ?thesis
    by (simp only: same_append_eq inj_on_eq_iff [OF assms(8) insertI1 insertI2 [OF singletonI]] schedule_text_eq)
qed

definition scheduled_sample :: event where
  "scheduled_sample =
     \<lparr>ev_event_version = ''1.0.0'', ev_event_id = scheduled_event_id (\<lambda>s. s) sample_context ''k'',
      ev_producer_id = ''ci'', ev_adapter_version = ''scheduler-1'',
      ev_occurred_at = ''2024-01-01T00:00:00Z'', ev_received_at = ''2024-01-01T00:00:01Z'',
      ev_subjects = \<lparr>su_repository_id = Some ''r'', su_service_ids = [''a'', ''b''], su_environment = None\<rparr>,
      ev_provider_evidence = \<lparr>pe_provider = ''git'', pe_provider_reference = ''x'', pe_order = None\<rparr>,
      ev_payload = ReconciliationRequested [''a'', ''b''] [''prod''] ''snapshot''\<rparr>"

definition scheduling_validators :: validators where
  "scheduling_validators =
     sample_shapes\<lparr>va_evidence := \<lambda>_. Inr (ev_provider_evidence scheduled_sample),
       va_event := accepting event_json [scheduled_sample]\<rparr>"

definition scheduled_input :: "string list \<Rightarrow> json" where
  "scheduled_input serviceIds =
     JObj [(''environments'', strings_json [''prod'']), (''idempotencyKey'', JStr ''k''),
       (''occurredAt'', JStr ''2024-01-01T00:00:00Z''), (''providerEvidence'', JNull),
       (''providerSnapshotReference'', JStr ''snapshot''), (''receivedAt'', JStr ''2024-01-01T00:00:01Z''),
       (''repositoryId'', JStr ''r''), (''serviceIds'', strings_json serviceIds)]"

lemma scheduled_request:
  assumes "serviceIds \<in> {[''a'', ''b''], [''b'', ''a'', ''b'']}"
  shows "request (\<lambda>s. s) scheduling_validators VNull (to_jsval (scheduled_input serviceIds)) =
    Inr (sample_context, scheduled_sample)"
proof -
  have ids: "canonicalStringSet serviceIds = [''a'', ''b'']" "serviceIds \<noteq> []"
    "list_all (\<lambda>v. short_text (JStr v) \<noteq> None) serviceIds" "map (\<lambda>v. the (short_text (JStr v))) serviceIds = serviceIds"
    using assms by (elim insertE emptyE; hypsubst; code_simp)+
  have envs: "canonicalStringSet [''prod''] = [''prod'']" by code_simp
  obtain kvs where kvs: "scheduled_input serviceIds = JObj kvs" by (simp add: scheduled_input_def)
  then have names: "map fst kvs = [''environments'', ''idempotencyKey'', ''occurredAt'', ''providerEvidence'',
      ''providerSnapshotReference'', ''receivedAt'', ''repositoryId'', ''serviceIds'']"
    by (auto simp: scheduled_input_def)
  have wf: "wf_json (JObj kvs)"
    unfolding kvs [symmetric] by (simp add: scheduled_input_def strings_json_def list_all_iff)
  have parsed: "parseEvent (va_event scheduling_validators)
      (scheduled_event (\<lambda>s. s) sample_context ''k'' (JStr ''2024-01-01T00:00:00Z'') (JStr ''2024-01-01T00:00:01Z'')
        ''r'' serviceIds [''prod''] ''snapshot'' (ev_provider_evidence scheduled_sample)) = Inr scheduled_sample"
    unfolding parseEvent_def parserFor_Inr_iff scheduling_validators_def accepting_def scheduled_event_def ids(1) envs
    by (simp add: scheduled_sample_def event_json_def event_members_def sample_context_def subjects_json_def object_of_def
        validateEventSemantics_def)
  have sorted: "sort_key fst (map (\<lambda>(k, v). (k, json_normal v)) kvs) = map (\<lambda>(k, v). (k, json_normal v)) kvs"
    by (rule sort_key_id_if_sorted) (simp add: comp_def case_prod_unfold names)
  have keys: "sort (map fst kvs) = sort request_keys"
    unfolding names by code_simp
  have accepted: "parseAuthenticatedEventContext scheduling_validators VNull = Inr sample_context"
    by code_simp
  have evidence: "parseProviderEvidence scheduling_validators (to_jsval JNull) = Inr (ev_provider_evidence scheduled_sample)"
    by code_simp
  have member: "map_of (map (\<lambda>(k, v). (k, json_normal v)) kvs) k = map_option json_normal (map_of kvs k)" for k
    using map_of_map [of json_normal kvs] by simp
  have "(sort (map fst (map (\<lambda>(k, v). (k, json_normal v)) kvs)) \<noteq> sort request_keys) = False"
    using keys by (simp add: case_prod_unfold comp_def)
  note all_keys = this
  have texts: "short_text (JStr ''k'') = Some ''k''" "short_text (JStr ''r'') = Some ''r''"
    "short_text (JStr ''snapshot'') = Some ''snapshot''" "short_texts (JArr [JStr ''prod'']) = Some [''prod'']"
    by code_simp+
  have services: "short_texts (JArr (map JStr serviceIds)) = Some serviceIds"
    using ids(3,4) by (simp add: list_all_iff comp_def del: short_text.simps)
  have unordered: "pe_order (ev_provider_evidence scheduled_sample) = None" by (simp add: scheduled_sample_def)
  show ?thesis
    unfolding request_def kvs detachedRecord_object [OF wf] and_then.simps sorted accepted sum.case all_keys member if_False
    using ids(2) parsed evidence texts services unordered
    by (simp add: kvs [unfolded scheduled_input_def json.inject, symmetric] strings_json_def comp_def
        del: short_text.simps short_texts.simps)
qed


lemma scheduled_input_key:
  obtains members where "detachedRecord (to_jsval (scheduled_input serviceIds)) = Inr members"
    "map_of members ''idempotencyKey'' = Some (JStr ''k'')"
proof -
  obtain kvs where kvs: "scheduled_input serviceIds = JObj kvs" "wf_json (JObj kvs)" "distinct (map fst kvs)"
    "map_of kvs ''idempotencyKey'' = Some (JStr ''k'')"
    by (simp add: scheduled_input_def strings_json_def list_all_iff)
  show ?thesis
    by (rule that [OF detachedRecord_object [OF kvs(2), folded kvs(1)]]) (simp add: detached_member [OF kvs(3)] kvs(4))
qed

theorem scheduled_requests_by_key_witness:
  "\<exists>event event'.
     request (\<lambda>s. s) scheduling_validators VNull (to_jsval (scheduled_input [''a'', ''b''])) = Inr (sample_context, event)
     \<and> request (\<lambda>s. s) scheduling_validators VNull (to_jsval (scheduled_input [''b'', ''a'', ''b''])) = Inr (sample_context, event')
     \<and> ev_event_id event = ev_event_id event'"
proof -
  have same: "same_value event_json (va_event scheduling_validators)"
    unfolding scheduling_validators_def by (simp add: accepting_same_value)
  have runs: "request (\<lambda>s. s) scheduling_validators VNull (to_jsval (scheduled_input [''a'', ''b''])) =
      Inr (sample_context, scheduled_sample)"
    "request (\<lambda>s. s) scheduling_validators VNull (to_jsval (scheduled_input [''b'', ''a'', ''b''])) =
      Inr (sample_context, scheduled_sample)"
    using scheduled_request by blast+
  obtain members where m: "detachedRecord (to_jsval (scheduled_input [''a'', ''b''])) = Inr members"
    "map_of members ''idempotencyKey'' = Some (JStr ''k'')" by (rule scheduled_input_key)
  obtain members' where m': "detachedRecord (to_jsval (scheduled_input [''b'', ''a'', ''b''])) = Inr members'"
    "map_of members' ''idempotencyKey'' = Some (JStr ''k'')" by (rule scheduled_input_key)
  show ?thesis
    using runs scheduled_requests_by_key [OF same runs m m' inj_on_id2] by blast
qed

end
