(* ===== verification/OrchOrdering.thy ===== *)
theory OrchOrdering
  imports OrchAuthorize
begin

text \<open>
  The order of provider updates: \<open>packages/orchestration/src/ordering.ts\<close>, with the comparisons
  of the same decimals in \<open>packages/environment/src/ordering.ts\<close> and
  \<open>packages/catalog/src/canonical.ts\<close>. The three compare texts; the locale \<open>decimal_comparison\<close>
  states what all of them promise, the order of the numbers, and each is an interpretation.
\<close>

section \<open>Canonical decimals\<close>

datatype sequence_order = Older | SameOrder | Newer | InvalidOrder

text \<open>\<open>canonicalDecimal\<close> is the expression of \<open>index_segment\<close>; \<open><\<close> on digit strings is code unit order.\<close>

definition compareCanonicalSequence :: "string \<Rightarrow> string \<Rightarrow> sequence_order" where
  "compareCanonicalSequence current next =
     (if \<not> index_segment current \<or> \<not> index_segment next then InvalidOrder
      else if length next < length current then Older
      else if length next > length current then Newer
      else if next = current then SameOrder
      else if next < current then Older else Newer)"

definition compareDecimal :: "string \<Rightarrow> string \<Rightarrow> sequence_order" where
  "compareDecimal current incoming =
     (if length incoming \<noteq> length current then (if length incoming < length current then Older else Newer)
      else if incoming = current then SameOrder
      else if incoming < current then Older else Newer)"

text \<open>\<open>compareProviderOrder\<close> of the catalog; \<open>InvalidOrder\<close> is its \<open>unknown\<close>.\<close>

definition compareProviderOrder :: "provider_order option \<Rightarrow> provider_order option \<Rightarrow> sequence_order" where
  "compareProviderOrder current next =
     (case (current, next) of
        (Some c, Some n) \<Rightarrow>
          if po_kind c \<noteq> SequenceOrder \<or> po_kind n \<noteq> SequenceOrder then InvalidOrder
          else if \<not> index_segment (po_value c) \<or> \<not> index_segment (po_value n) then InvalidOrder
          else if length (po_value n) < length (po_value c) then Older
          else if length (po_value n) > length (po_value c) then Newer
          else if po_value n = po_value c then SameOrder
          else if po_value n < po_value c then Older else Newer
      | _ \<Rightarrow> InvalidOrder)"

definition order_of_numbers :: "nat \<Rightarrow> nat \<Rightarrow> sequence_order" where
  "order_of_numbers current next =
     (if next < current then Older else if current < next then Newer else SameOrder)"

text \<open>A comparison of texts that orders canonical decimals as numbers.\<close>

locale decimal_comparison =
  fixes compare :: "'a \<Rightarrow> 'a \<Rightarrow> sequence_order"
    and canonical :: "'a \<Rightarrow> bool"
    and number :: "'a \<Rightarrow> nat"
  assumes compares_numbers: "canonical a \<Longrightarrow> canonical b \<Longrightarrow> compare a b = order_of_numbers (number a) (number b)"
    and number_inj: "canonical a \<Longrightarrow> canonical b \<Longrightarrow> number a = number b \<Longrightarrow> a = b"
begin

lemma never_invalid: "canonical a \<Longrightarrow> canonical b \<Longrightarrow> compare a b \<noteq> InvalidOrder"
  by (simp add: compares_numbers order_of_numbers_def)

lemma older_swap: "canonical a \<Longrightarrow> canonical b \<Longrightarrow> compare a b = Older \<longleftrightarrow> compare b a = Newer"
  by (simp add: compares_numbers order_of_numbers_def)

lemma same_iff: "canonical a \<Longrightarrow> canonical b \<Longrightarrow> compare a b = SameOrder \<longleftrightarrow> a = b"
  using number_inj [of a b] by (auto simp: compares_numbers order_of_numbers_def)

lemma newer_trans: "canonical a \<Longrightarrow> canonical b \<Longrightarrow> canonical c \<Longrightarrow>
    compare a b = Newer \<Longrightarrow> compare b c = Newer \<Longrightarrow> compare a c = Newer"
  by (simp add: compares_numbers order_of_numbers_def split: if_splits)

end

text \<open>Digit strings of one length compare as the numbers they write.\<close>

lemma digits_fold: "foldl (\<lambda>n c. 10 * n + (of_char c - 48)) k ds = k * 10 ^ length ds + digits_value ds"
proof (induction ds arbitrary: k)
  case (Cons d ds)
  show ?case
    using Cons [of "10 * k + (of_char d - 48)"] Cons [of "of_char d - 48"]
    by (simp add: digits_value_def algebra_simps)
qed (simp add: digits_value_def)

lemma digits_value_Cons: "digits_value (d # ds) = (of_char d - 48) * 10 ^ length ds + digits_value ds"
  using digits_fold [of "of_char d - 48" ds] by (simp add: digits_value_def)

lemma digits_value_bound: "list_all digit ds \<Longrightarrow> digits_value ds < 10 ^ length ds"
proof (induction ds)
  case (Cons d ds)
  then have "of_char d - 48 \<le> (9 :: nat)" and "digits_value ds < 10 ^ length ds" by (auto simp: digit_def)
  then have "(of_char d - 48) * 10 ^ length ds + digits_value ds < 9 * 10 ^ length ds + 10 ^ length ds"
    by (meson add_le_less_mono mult_le_mono1)
  then show ?case by (simp add: digits_value_Cons)
qed (simp add: digits_value_def)

lemma digit_less: "digit c \<Longrightarrow> digit d \<Longrightarrow> c < d \<longleftrightarrow> of_char c - 48 < (of_char d - 48 :: nat)"
  by (auto simp: digit_def less_char_def)

lemma digit_eq: "digit c \<Longrightarrow> digit d \<Longrightarrow> of_char c - 48 = (of_char d - 48 :: nat) \<Longrightarrow> c = d"
  by (metis antisym_conv3 digit_less less_irrefl)

lemma leading_digit:
  assumes "x < (y :: nat)" "v < p"
  shows "x * p + v < y * p + w"
proof -
  have "x * p + v < Suc x * p" using assms(2) by simp
  also have "\<dots> \<le> y * p" using assms(1) by (intro mult_le_mono1) simp
  finally show ?thesis by simp
qed

lemma same_length_compare:
  "length xs = length ys \<Longrightarrow> list_all digit xs \<Longrightarrow> list_all digit ys \<Longrightarrow>
   (xs < ys \<longleftrightarrow> digits_value xs < digits_value ys) \<and> (digits_value xs = digits_value ys \<longrightarrow> xs = ys)"
proof (induction xs ys rule: list_induct2)
  case (Cons a xs b ys)
  let ?p = "10 ^ length ys :: nat"
  let ?a = "of_char a - 48 :: nat" and ?b = "of_char b - 48 :: nat"
  have d: "digit a" "digit b" using Cons.prems by auto
  have bound: "digits_value xs < ?p" "digits_value ys < ?p"
    using Cons digits_value_bound [of xs] digits_value_bound [of ys] by auto
  have ih: "(xs < ys \<longleftrightarrow> digits_value xs < digits_value ys) \<and> (digits_value xs = digits_value ys \<longrightarrow> xs = ys)"
    using Cons by simp
  consider "?a < ?b" | "?b < ?a" | "a = b" using d digit_eq by (metis linorder_neqE_nat)
  then show ?case
  proof cases
    case 1
    then have "a < b" using d digit_less by blast
    with leading_digit [OF 1 bound(1), of "digits_value ys"] Cons.hyps show ?thesis
      by (simp add: digits_value_Cons)
  next
    case 2
    then have "b < a" using d digit_less by blast
    with leading_digit [OF 2 bound(2), of "digits_value xs"] Cons.hyps show ?thesis
      by (auto simp: digits_value_Cons)
  next
    case 3
    with ih Cons.hyps show ?thesis by (simp add: digits_value_Cons)
  qed
qed simp

lemma index_segment_digits:
  "index_segment s \<Longrightarrow> list_all digit s \<and> s \<noteq> [] \<and> (hd s = CHR ''0'' \<longrightarrow> s = ''0'')"
  by (auto simp: index_segment_def digit_def is_digit_def less_eq_char_def list_all_iff split: list.splits)

lemma index_segment_lower:
  assumes "index_segment s" "1 < length s"
  shows "10 ^ (length s - 1) \<le> digits_value s"
proof -
  obtain c cs where s: "s = c # cs" "c \<noteq> CHR ''0''" "digit c"
    using assms index_segment_digits [of s] by (cases s) auto
  have "of_char c \<noteq> (48 :: nat)"
  proof
    assume "of_char c = (48 :: nat)"
    then have "of_char c = (of_char (CHR ''0'') :: nat)" by simp
    then show False using s(2) by (simp only: of_char_eq_iff)
  qed
  then have "1 \<le> (of_char c - 48 :: nat)" using s(3) unfolding digit_def by linarith
  then obtain k where "of_char c - 48 = Suc k" by (cases "of_char c - 48 :: nat") auto
  then show ?thesis by (simp add: s(1) digits_value_Cons)
qed

lemma shorter_less:
  assumes "index_segment s" "index_segment t" "length s < length t"
  shows "digits_value s < digits_value t"
proof -
  have "s \<noteq> []" using assms(1) index_segment_digits by blast
  then have "1 < length t" using assms(3) by (cases s) auto
  have "digits_value s < 10 ^ length s" using assms(1) index_segment_digits digits_value_bound by blast
  also have "\<dots> \<le> 10 ^ (length t - 1)" using assms(3) by (intro power_increasing) auto
  also have "\<dots> \<le> digits_value t" using index_segment_lower [OF assms(2) \<open>1 < length t\<close>] .
  finally show ?thesis .
qed

lemma decimal_compare:
  assumes "index_segment a" "index_segment b"
  shows "(if length b < length a then Older else if length b > length a then Newer
      else if b = a then SameOrder else if b < a then Older else Newer) =
    order_of_numbers (digits_value a) (digits_value b)"
  using shorter_less [OF assms] shorter_less [OF assms(2,1)] same_length_compare [of b a] same_length_compare [of a b]
    index_segment_digits [OF assms(1)] index_segment_digits [OF assms(2)]
  by (auto simp: order_of_numbers_def not_less_iff_gr_or_eq)

lemma decimal_inj: "index_segment a \<Longrightarrow> index_segment b \<Longrightarrow> digits_value a = digits_value b \<Longrightarrow> a = b"
  using shorter_less [of a b] shorter_less [of b a] same_length_compare [of a b]
    index_segment_digits [of a] index_segment_digits [of b] by (cases "length a" "length b" rule: linorder_cases) auto

interpretation sequences: decimal_comparison compareCanonicalSequence index_segment digits_value
  by unfold_locales (simp_all add: compareCanonicalSequence_def decimal_compare decimal_inj)

interpretation decimals: decimal_comparison compareDecimal index_segment digits_value
  by unfold_locales (auto simp: compareDecimal_def decimal_inj decimal_compare [symmetric])

definition sequence_known :: "provider_order option \<Rightarrow> bool" where
  "sequence_known order \<longleftrightarrow>
     (case order of Some o' \<Rightarrow> po_kind o' = SequenceOrder \<and> index_segment (po_value o') | None \<Rightarrow> False)"

interpretation provider_orders: decimal_comparison compareProviderOrder sequence_known
  "\<lambda>order. digits_value (po_value (the order))"
proof unfold_locales
  fix a b assume known: "sequence_known a" "sequence_known b"
  then show "compareProviderOrder a b =
      order_of_numbers (digits_value (po_value (the a))) (digits_value (po_value (the b)))"
    by (auto simp: sequence_known_def compareProviderOrder_def decimal_compare split: option.splits)
  show "a = b" if "digits_value (po_value (the a)) = digits_value (po_value (the b))"
    using known that decimal_inj
    by (auto simp: sequence_known_def intro!: provider_order.equality split: option.splits)
qed

section \<open>Checkpoints\<close>

record provider_checkpoint =
  ck_evidence :: provider_evidence
  ck_relevantPayload :: json

datatype update_class = First | ExactReplay | NewerUpdate | Stale | Conflict | Incomparable

definition sameSemanticCheckpoint :: "provider_checkpoint \<Rightarrow> provider_checkpoint \<Rightarrow> bool" where
  "sameSemanticCheckpoint current next =
     (pe_provider_reference (ck_evidence current) = pe_provider_reference (ck_evidence next)
      \<and> canonicalJson (ck_relevantPayload current) = canonicalJson (ck_relevantPayload next))"

definition sameExactCheckpoint :: "provider_checkpoint \<Rightarrow> provider_checkpoint \<Rightarrow> bool" where
  "sameExactCheckpoint current next =
     (canonicalJson (provider_evidence_json (ck_evidence current)) =
        canonicalJson (provider_evidence_json (ck_evidence next))
      \<and> canonicalJson (ck_relevantPayload current) = canonicalJson (ck_relevantPayload next))"

definition parsedCheckpoint :: "validators \<Rightarrow> jsval \<Rightarrow> provider_checkpoint orch" where
  "parsedCheckpoint va input =
     and_then (detachedRecord input) (\<lambda>candidate.
       case (map_of candidate ''evidence'', map_of candidate ''relevantPayload'') of
         (Some evidence, Some relevantPayload) \<Rightarrow>
           if length candidate \<noteq> 2 then throw INVALID_ORCHESTRATION_INPUT
           else (case parseProviderEvidence va (to_jsval evidence) of
                   Inl _ \<Rightarrow> throw INVALID_ORCHESTRATION_INPUT
                 | Inr parsed \<Rightarrow> Inr \<lparr>ck_evidence = parsed, ck_relevantPayload = relevantPayload\<rparr>)
       | _ \<Rightarrow> throw INVALID_ORCHESTRATION_INPUT)"

definition sequence_value :: "provider_checkpoint \<Rightarrow> string option" where
  "sequence_value checkpoint =
     (case pe_order (ck_evidence checkpoint) of
        Some order \<Rightarrow> if po_kind order = SequenceOrder then Some (po_value order) else None
      | None \<Rightarrow> None)"

definition classify_checkpoint :: "provider_checkpoint option \<Rightarrow> provider_checkpoint \<Rightarrow> update_class" where
  "classify_checkpoint current next =
     (case current of
        None \<Rightarrow>
          (case sequence_value next of
             Some value \<Rightarrow> if index_segment value then First else Incomparable
           | None \<Rightarrow> Incomparable)
      | Some current \<Rightarrow>
          if pe_provider (ck_evidence current) \<noteq> pe_provider (ck_evidence next) then Incomparable
          else (case (sequence_value current, sequence_value next) of
                  (Some old, Some new) \<Rightarrow>
                    (case compareCanonicalSequence old new of
                       InvalidOrder \<Rightarrow> Incomparable
                     | Older \<Rightarrow> Stale
                     | Newer \<Rightarrow> NewerUpdate
                     | SameOrder \<Rightarrow> if sameSemanticCheckpoint current next then ExactReplay else Conflict)
                | _ \<Rightarrow> if sameExactCheckpoint current next then ExactReplay else Incomparable))"

text \<open>\<open>None\<close> as current input is \<open>undefined\<close>; the next input is parsed first.\<close>

definition classifyProviderUpdate :: "validators \<Rightarrow> jsval option \<Rightarrow> jsval \<Rightarrow> update_class orch" where
  "classifyProviderUpdate va currentInput nextInput =
     and_then (parsedCheckpoint va nextInput) (\<lambda>next.
       and_then (case currentInput of
           None \<Rightarrow> Inr None
         | Some input \<Rightarrow> and_then (parsedCheckpoint va input) (\<lambda>current. Inr (Some current))) (\<lambda>current.
         Inr (classify_checkpoint current next)))"

definition checkpoint_value :: "provider_checkpoint \<Rightarrow> json" where
  "checkpoint_value checkpoint =
     JObj [(''evidence'', provider_evidence_json (ck_evidence checkpoint)),
       (''relevantPayload'', ck_relevantPayload checkpoint)]"

definition isMonotoneProviderConfirmation :: "validators \<Rightarrow> jsval \<Rightarrow> jsval \<Rightarrow> bool orch" where
  "isMonotoneProviderConfirmation va originInput currentInput =
     and_then (parsedCheckpoint va originInput) (\<lambda>origin.
       and_then (parsedCheckpoint va currentInput) (\<lambda>current.
         if canonicalJson (ck_relevantPayload origin) \<noteq> canonicalJson (ck_relevantPayload current) then Inr False
         else and_then (classifyProviderUpdate va (Some (to_jsval (checkpoint_value origin)))
                 (to_jsval (checkpoint_value current))) (\<lambda>classification.
                Inr (classification = ExactReplay \<or> classification = NewerUpdate))))"

section \<open>The order of updates\<close>

text \<open>The checkpoints of one provider that carry a canonical sequence number.\<close>

definition sequenced :: "string \<Rightarrow> provider_checkpoint \<Rightarrow> bool" where
  "sequenced provider checkpoint \<longleftrightarrow>
     pe_provider (ck_evidence checkpoint) = provider
     \<and> (\<exists>value. sequence_value checkpoint = Some value \<and> index_segment value)"

definition sequence_number :: "provider_checkpoint \<Rightarrow> nat" where
  "sequence_number checkpoint = digits_value (the (sequence_value checkpoint))"

lemma classify_sequenced:
  assumes "sequenced provider a" "sequenced provider b"
  shows "classify_checkpoint (Some a) b =
    (if sequence_number b < sequence_number a then Stale
     else if sequence_number a < sequence_number b then NewerUpdate
     else if sameSemanticCheckpoint a b then ExactReplay else Conflict)"
proof -
  obtain x y where xy: "sequence_value a = Some x" "sequence_value b = Some y" "index_segment x" "index_segment y"
    using assms by (auto simp: sequenced_def)
  then show ?thesis
    using assms sequences.compares_numbers [OF xy(3,4)]
    by (auto simp: classify_checkpoint_def sequenced_def sequence_number_def order_of_numbers_def)
qed

text \<open>
  C18: Updates of one provider with canonical sequence numbers are ordered by these numbers, of
  any length: an update is newer exactly when the current one is stale for it, newer is
  transitive, and between equal numbers there is an exact replay when the reference and the
  payload agree and a conflict otherwise, in both directions. Nothing is incomparable.
\<close>

theorem provider_updates_ordered:
  assumes "sequenced provider a" "sequenced provider b" "sequenced provider c"
  shows "(classify_checkpoint (Some a) b = NewerUpdate \<longleftrightarrow> sequence_number a < sequence_number b)
    \<and> (classify_checkpoint (Some a) b = Stale \<longleftrightarrow> classify_checkpoint (Some b) a = NewerUpdate)
    \<and> (classify_checkpoint (Some a) b = NewerUpdate \<and> classify_checkpoint (Some b) c = NewerUpdate \<longrightarrow>
         classify_checkpoint (Some a) c = NewerUpdate)
    \<and> (classify_checkpoint (Some a) b = Conflict \<longleftrightarrow> classify_checkpoint (Some b) a = Conflict)
    \<and> (classify_checkpoint (Some a) b = ExactReplay \<longleftrightarrow>
         sequence_number a = sequence_number b \<and> sameSemanticCheckpoint a b)
    \<and> classify_checkpoint (Some a) b \<notin> {First, Incomparable}"
proof -
  have swap: "sameSemanticCheckpoint a b = sameSemanticCheckpoint b a"
    by (auto simp: sameSemanticCheckpoint_def)
  show ?thesis
    using classify_sequenced [OF assms(1,2)] classify_sequenced [OF assms(2,1)]
      classify_sequenced [OF assms(2,3)] classify_sequenced [OF assms(1,3)] swap
    by (auto split: if_splits)
qed

definition sample_checkpoint :: "string \<Rightarrow> provider_checkpoint" where
  "sample_checkpoint number =
     \<lparr>ck_evidence = \<lparr>pe_provider = ''git'', pe_provider_reference = ''x'',
        pe_order = Some \<lparr>po_kind = SequenceOrder, po_value = number\<rparr>\<rparr>, ck_relevantPayload = JNull\<rparr>"

theorem provider_updates_ordered_witness:
  "classify_checkpoint (Some (sample_checkpoint ''9'')) (sample_checkpoint ''10'') = NewerUpdate"
proof -
  have "sequenced ''git'' (sample_checkpoint ''9'')" "sequenced ''git'' (sample_checkpoint ''10'')"
    by (simp_all add: sequenced_def sample_checkpoint_def sequence_value_def index_segment_def is_digit_def less_eq_char_def)
  moreover have "sequence_number (sample_checkpoint ''9'') < sequence_number (sample_checkpoint ''10'')"
    by code_simp
  ultimately show ?thesis using provider_updates_ordered by blast
qed

end
