(* ===== verification/EnvServing.thy ===== *)
theory EnvServing
  imports OrchIdentity OrchOrdering
begin

text \<open>
  What runs where: \<open>packages/environment/src/ordering.ts\<close>, which decides what an observation of a
  serving environment does to the current one, \<open>resolution.ts\<close>, which decides what the
  environment serves, and \<open>errors.ts\<close>. Observations are read from JSON.
\<close>

section \<open>Errors\<close>

datatype environment_error_code =
    INVALID_ENVIRONMENT_INPUT
  | ENVIRONMENT_NOT_FOUND_OR_DENIED
  | ENVIRONMENT_STORAGE_ERROR
  | ARTIFACT_BINDING_CONFLICT

fun environment_message :: "environment_error_code \<Rightarrow> string" where
  "environment_message INVALID_ENVIRONMENT_INPUT = ''Environment input is invalid''"
| "environment_message ENVIRONMENT_NOT_FOUND_OR_DENIED = ''Environment event was not found or access was denied''"
| "environment_message ENVIRONMENT_STORAGE_ERROR = ''Environment storage operation failed''"
| "environment_message ARTIFACT_BINDING_CONFLICT = ''Artifact binding conflicts with stored evidence''"

record environment_error =
  ee_code :: environment_error_code
  ee_message :: string
  ee_retryable :: bool

definition environmentError :: "environment_error_code \<Rightarrow> environment_error" where
  "environmentError code =
     \<lparr>ee_code = code, ee_message = environment_message code, ee_retryable = (code = ENVIRONMENT_STORAGE_ERROR)\<rparr>"

text \<open>What a caller sees thrown: an error of this package or one that the hash of the orchestration throws.\<close>

datatype environment_failure = EnvironmentFailure environment_error | HashFailure orchestration_error

abbreviation refuse :: "(environment_failure, 'a) result" where
  "refuse \<equiv> Inl (EnvironmentFailure (environmentError INVALID_ENVIRONMENT_INPUT))"

section \<open>Observations\<close>

record observation =
  ob_repositoryId :: string
  ob_serviceId :: string
  ob_environment :: string
  ob_provider :: string
  ob_payload :: serving_observation

definition parseObservation ::
  "(json \<Rightarrow> validation_issue list + event) \<Rightarrow> json \<Rightarrow> (environment_failure, observation) result" where
  "parseObservation shape input =
     (case parseEvent shape input of
        Inl _ \<Rightarrow> refuse
      | Inr event \<Rightarrow>
          (case ev_payload event of
             ServingObserved payload \<Rightarrow>
               (case (su_repository_id (ev_subjects event), su_service_ids (ev_subjects event)) of
                  (Some repositoryId, [serviceId]) \<Rightarrow>
                    if (case su_environment (ev_subjects event) of
                          None \<Rightarrow> False | Some environment \<Rightarrow> environment \<noteq> so_environment payload)
                    then refuse
                    else Inr \<lparr>ob_repositoryId = repositoryId, ob_serviceId = serviceId,
                      ob_environment = so_environment payload,
                      ob_provider = pe_provider (ev_provider_evidence event), ob_payload = payload\<rparr>
                | _ \<Rightarrow> refuse)
           | _ \<Rightarrow> refuse))"

text \<open>\<open>left < right ? -1 : left > right ? 1 : 0\<close> on two strings.\<close>

definition stable :: "string \<Rightarrow> string \<Rightarrow> int" where
  "stable left right = (if left < right then - 1 else if right < left then 1 else 0)"

fun sorted_state :: "serving_state \<Rightarrow> serving_state" where
  "sorted_state (ServingKnown inventory) =
     ServingKnown (js_sort (\<lambda>left right. stable (am_artifact_id left) (am_artifact_id right)) inventory)"
| "sorted_state state = state"

definition state_members :: "serving_observation \<Rightarrow> json" where
  "state_members payload =
     object_of [(''completeness'', Some (JStr (completeness_text (so_completeness payload)))),
       (''source_access_label'', Some (JStr (os_access_label (so_source payload)))),
       (''serving_state'', Some (serving_state_json (sorted_state (so_serving_state payload)))),
       (''rollback_request_id'', map_option JStr (so_rollback_request_id payload))]"

definition stateHash :: "(string \<Rightarrow> string) \<Rightarrow> serving_observation \<Rightarrow> (environment_failure, string) result" where
  "stateHash sha payload =
     (case canonicalOrchestrationHash sha (to_jsval (state_members payload)) of
        Inl err \<Rightarrow> Inl (HashFailure err) | Inr text \<Rightarrow> Inr text)"

datatype observation_class = Apply | StaleObservation | Replay | Reconcile

definition same_subject :: "observation \<Rightarrow> observation \<Rightarrow> bool" where
  "same_subject current incoming \<longleftrightarrow>
     ob_repositoryId current = ob_repositoryId incoming \<and> ob_serviceId current = ob_serviceId incoming
     \<and> ob_environment current = ob_environment incoming"

definition same_authority :: "observation \<Rightarrow> observation \<Rightarrow> bool" where
  "same_authority current incoming \<longleftrightarrow>
     ob_provider current = ob_provider incoming
     \<and> os_authority_id (so_source (ob_payload current)) = os_authority_id (so_source (ob_payload incoming))"

abbreviation effective_order :: "observation \<Rightarrow> string" where
  "effective_order observation \<equiv> so_effective_order (ob_payload observation)"

definition classifyServingObservation ::
  "(string \<Rightarrow> string) \<Rightarrow> (json \<Rightarrow> validation_issue list + event) \<Rightarrow> json option \<Rightarrow> json \<Rightarrow>
   (environment_failure, observation_class) result" where
  "classifyServingObservation sha shape currentInput incomingInput =
     and_then (parseObservation shape incomingInput) (\<lambda>incoming.
       case currentInput of
         None \<Rightarrow> if \<not> index_segment (effective_order incoming) then Inr Reconcile else Inr Apply
       | Some input \<Rightarrow>
           and_then (parseObservation shape input) (\<lambda>current.
             if \<not> same_subject current incoming then refuse
             else if \<not> index_segment (effective_order incoming) then Inr Reconcile
             else if \<not> same_authority current incoming \<or> \<not> index_segment (effective_order current)
             then Inr Reconcile
             else case compareDecimal (effective_order current) (effective_order incoming) of
                 Newer \<Rightarrow> Inr Apply
               | Older \<Rightarrow> Inr StaleObservation
               | _ \<Rightarrow>
                   if os_reference (so_source (ob_payload current)) = os_reference (so_source (ob_payload incoming))
                   then and_then (stateHash sha (ob_payload current)) (\<lambda>a.
                          and_then (stateHash sha (ob_payload incoming)) (\<lambda>b.
                            Inr (if a = b then Replay else Reconcile)))
                   else Inr Reconcile))"


section \<open>Resolution\<close>

record serving_facts =
  sf_completeness :: completeness
  sf_serving_state :: serving_state

record latest_attempt =
  at_deploymentId :: string
  at_state :: attempt_state

record artifact_binding =
  ab_artifactId :: string
  ab_revision :: string

record revision_snapshot =
  rs_revision :: string
  rs_snapshotId :: string

record resolution_facts =
  rf_observation :: "serving_facts option"
  rf_latestAttempt :: "latest_attempt option"
  rf_artifactBindings :: "artifact_binding list"
  rf_revisionSnapshots :: "revision_snapshot list"

datatype deployment = UnknownDeployment | ConfirmedNotDeployed | Deployed | TransitionalDeployment

datatype contract_state = Unavailable | PendingBinding | PendingAnalysis | Resolved | Ambiguous

record active_artifact =
  aa_artifactId :: string
  aa_revision :: "string option"
  aa_snapshotId :: "string option"

record resolution =
  er_deployment :: deployment
  er_contract :: contract_state
  er_active :: "active_artifact list"
  er_latestAttempt :: "latest_attempt option"
  er_snapshotId :: "string option"

text \<open>
  The callback of \<open>inventory.map\<close>. The two flags \<open>missingBinding\<close> and \<open>missingAnalysis\<close> it sets are
  the state threaded through the inventory.
\<close>

fun known_revision :: "revision_reference \<Rightarrow> string option" where
  "known_revision (KnownRevision revision) = Some revision"
| "known_revision (UnknownRevision _) = None"

definition resolve_mapping ::
  "resolution_facts \<Rightarrow> artifact_mapping \<Rightarrow> bool \<times> bool \<Rightarrow> active_artifact \<times> (bool \<times> bool)" where
  "resolve_mapping input mapping flags =
     (let artifactId = am_artifact_id mapping;
          revision = known_revision (am_revision mapping);
          bindings = filter (\<lambda>binding. ab_artifactId binding = artifactId) (rf_artifactBindings input)
      in if revision = None \<or> length bindings \<noteq> 1 \<or> Some (ab_revision (hd bindings)) \<noteq> revision
         then (\<lparr>aa_artifactId = artifactId, aa_revision = revision, aa_snapshotId = None\<rparr>, (True, snd flags))
         else let snapshots = filter (\<lambda>snapshot. Some (rs_revision snapshot) = revision) (rf_revisionSnapshots input)
           in if length snapshots \<noteq> 1
              then (\<lparr>aa_artifactId = artifactId, aa_revision = revision, aa_snapshotId = None\<rparr>, (fst flags, True))
              else (\<lparr>aa_artifactId = artifactId, aa_revision = revision,
                      aa_snapshotId = Some (rs_snapshotId (hd snapshots))\<rparr>, flags))"

fun resolve_inventory ::
  "resolution_facts \<Rightarrow> artifact_mapping list \<Rightarrow> bool \<times> bool \<Rightarrow> active_artifact list \<times> (bool \<times> bool)" where
  "resolve_inventory input [] flags = ([], flags)"
| "resolve_inventory input (mapping # rest) flags =
     (let (active, flags') = resolve_mapping input mapping flags;
          (others, flags'') = resolve_inventory input rest flags'
      in (active # others, flags''))"

definition unavailable :: "resolution_facts \<Rightarrow> deployment \<Rightarrow> resolution" where
  "unavailable input deployment =
     \<lparr>er_deployment = deployment, er_contract = Unavailable, er_active = [],
      er_latestAttempt = rf_latestAttempt input, er_snapshotId = None\<rparr>"

definition resolveEnvironment :: "resolution_facts \<Rightarrow> resolution" where
  "resolveEnvironment input =
     (case rf_observation input of
        None \<Rightarrow> unavailable input UnknownDeployment
      | Some observation \<Rightarrow>
          (case sf_serving_state observation of
             ServingUnknown _ _ \<Rightarrow> unavailable input UnknownDeployment
           | ServingKnown inventory \<Rightarrow>
               if inventory = []
               then unavailable input
                 (if sf_completeness observation = Complete then ConfirmedNotDeployed else UnknownDeployment)
               else let (mapped, missingBinding, missingAnalysis) = resolve_inventory input inventory (False, False);
                        active = js_sort (\<lambda>left right. stable (aa_artifactId left) (aa_artifactId right)) mapped
                 in if sf_completeness observation \<noteq> Complete \<or> length active \<noteq> 1
                    then \<lparr>er_deployment = TransitionalDeployment, er_contract = Ambiguous, er_active = active,
                           er_latestAttempt = rf_latestAttempt input, er_snapshotId = None\<rparr>
                    else let contract = if missingBinding then PendingBinding
                               else if missingAnalysis then PendingAnalysis else Resolved
                      in \<lparr>er_deployment = Deployed, er_contract = contract, er_active = active,
                           er_latestAttempt = rf_latestAttempt input,
                           er_snapshotId = if contract = Resolved then aa_snapshotId (hd active) else None\<rparr>))"

section \<open>Order of observations\<close>

lemma stable_le: "stable a b \<le> 0 \<longleftrightarrow> a \<le> b"
  by (auto simp: stable_def)

lemma sort_by_artifact:
  "js_sort (\<lambda>l r. stable (key l) (key r)) = sort_key key"
  by (intro ext js_sort_key) (rule stable_le)

interpretation artifact_order: collation stable
  by unfold_locales (auto simp: stable_le)

text \<open>With distinct keys the sorted list depends on the elements alone.\<close>

lemma sort_key_distinct_eq:
  assumes "distinct (map key xs)" "distinct (map key ys)"
  shows "sort_key key xs = sort_key key ys \<longleftrightarrow> mset xs = mset ys"
proof
  assume "sort_key key xs = sort_key key ys"
  then show "mset xs = mset ys" by (metis mset_sort)
next
  assume same: "mset xs = mset ys"
  have "map key (sort_key key zs) = sort (map key zs)" for zs
    by (rule properties_for_sort [symmetric]) simp_all
  moreover have "sort (map key xs) = sort (map key ys)"
    using same by (intro properties_for_sort) simp_all
  moreover have "inj_on key (set (sort_key key xs) \<union> set (sort_key key ys))"
    using assms mset_eq_setD [OF same] by (simp add: distinct_map)
  ultimately show "sort_key key xs = sort_key key ys" by (metis map_inj_on)
qed

lemma inventory_scan_distinct:
  "inventory_scan n seen inventory = [] \<Longrightarrow>
   distinct (map am_artifact_id inventory) \<and> set seen \<inter> am_artifact_id ` set inventory = {}"
  by (induction n seen inventory rule: inventory_scan.induct) (auto split: if_splits)

definition inventory_distinct :: "serving_observation \<Rightarrow> bool" where
  "inventory_distinct payload \<longleftrightarrow>
     (case so_serving_state payload of
        ServingKnown inventory \<Rightarrow> distinct (map am_artifact_id inventory) | ServingUnknown _ _ \<Rightarrow> True)"

lemma parseObservation_distinct:
  "parseObservation shape input = Inr observation \<Longrightarrow> inventory_distinct (ob_payload observation)"
  by (auto simp: parseObservation_def parseEvent_def parserFor_Inr_iff validateEventSemantics_def observationIssues_def
      inventory_distinct_def dest!: inventory_scan_distinct
      split: sum.splits event_payload.splits option.splits list.splits if_splits serving_state.splits)

text \<open>Two reports that say the same, up to the order of an inventory.\<close>

fun same_report_state :: "serving_state \<Rightarrow> serving_state \<Rightarrow> bool" where
  "same_report_state (ServingKnown xs) (ServingKnown ys) = (mset xs = mset ys)"
| "same_report_state s t = (s = t)"

definition same_report :: "serving_observation \<Rightarrow> serving_observation \<Rightarrow> bool" where
  "same_report p q \<longleftrightarrow>
     so_completeness p = so_completeness q \<and> os_access_label (so_source p) = os_access_label (so_source q)
     \<and> so_rollback_request_id p = so_rollback_request_id q
     \<and> same_report_state (so_serving_state p) (so_serving_state q)"

lemma sorted_state_iff:
  "inventory_distinct p \<Longrightarrow> inventory_distinct q \<Longrightarrow>
   sorted_state (so_serving_state p) = sorted_state (so_serving_state q) \<longleftrightarrow>
     same_report_state (so_serving_state p) (so_serving_state q)"
  by (cases "so_serving_state p"; cases "so_serving_state q")
    (auto simp: inventory_distinct_def sort_by_artifact sort_key_distinct_eq)

lemma faithful_state_members: "faithful (\<lambda>(c, l, s, r).
   object_of [(''completeness'', Some (JStr (completeness_text c))), (''source_access_label'', Some (JStr l)),
     (''serving_state'', Some (serving_state_json s)), (''rollback_request_id'', map_option JStr r)])"
  unfolding case_prod_unfold
  by (rule faithful_objectI [where ks = "[''completeness'', ''source_access_label'', ''serving_state'', ''rollback_request_id'']"])
    (auto simp: faithful_pred [OF faithful_JStr] option.map_comp faithful_options [OF faithful_JStr]
      faithful_wf [OF faithful_serving_state] faithful_normal [OF faithful_serving_state] intro!: prod_eqI)

lemma stateHash_eq:
  "stateHash sha payload = Inr (''sha256:'' @ sha (canonicalJson (state_members payload)))"
proof -
  have "wf_json (state_members payload)"
    using faithful_wf [OF faithful_state_members, of "(so_completeness payload, os_access_label (so_source payload),
      sorted_state (so_serving_state payload), so_rollback_request_id payload)"] by (simp add: state_members_def)
  then show ?thesis
    by (simp add: stateHash_def canonicalOrchestrationHash_def canonicalOrchestrationJson_def serializeCanonical_to_jsval)
qed

lemma state_members_eq:
  assumes "inventory_distinct p" "inventory_distinct q"
  shows "canonicalJson (state_members p) = canonicalJson (state_members q) \<longleftrightarrow> same_report p q"
  using faithful_eq [OF faithful_state_members, of "(so_completeness p, os_access_label (so_source p),
      sorted_state (so_serving_state p), so_rollback_request_id p)"
      "(so_completeness q, os_access_label (so_source q), sorted_state (so_serving_state q), so_rollback_request_id q)"]
    sorted_state_iff [OF assms]
  by (auto simp: state_members_def same_report_def)

text \<open>
  C20: Observations of one environment by one authority are taken in the order of their numbers,
  of any length: the incoming one is applied exactly when its number is larger, is stale exactly
  when it is smaller, and at the same number is a replay exactly when it is the same report, up
  to the order of the inventory; anything else asks for a reconciliation. Another authority or a
  number that is not canonical always asks for one, and an observation of another subject is
  refused. The hypothesis says that SHA-256 separates the two reports.
\<close>

theorem observations_ordered:
  assumes "parseObservation shape currentInput = Inr current" "parseObservation shape incomingInput = Inr incoming"
    and "inj_on sha {canonicalJson (state_members (ob_payload current)), canonicalJson (state_members (ob_payload incoming))}"
  shows "classifyServingObservation sha shape (Some currentInput) incomingInput =
    (if \<not> same_subject current incoming then refuse
     else if \<not> same_authority current incoming \<or> \<not> index_segment (effective_order current)
       \<or> \<not> index_segment (effective_order incoming) then Inr Reconcile
     else Inr (let now = digits_value (effective_order current); next = digits_value (effective_order incoming)
       in if now < next then Apply else if next < now then StaleObservation
          else if os_reference (so_source (ob_payload current)) = os_reference (so_source (ob_payload incoming))
            \<and> same_report (ob_payload current) (ob_payload incoming) then Replay
          else Reconcile))"
proof -
  have "sha (canonicalJson (state_members (ob_payload current))) = sha (canonicalJson (state_members (ob_payload incoming)))
      \<longleftrightarrow> same_report (ob_payload current) (ob_payload incoming)"
    using state_members_eq assms(1,2)[THEN parseObservation_distinct]
      inj_on_eq_iff [OF assms(3) insertI1 insertI2 [OF singletonI]] by blast
  then show ?thesis
    using assms(1,2)
    by (auto simp: classifyServingObservation_def stateHash_eq decimals.compares_numbers order_of_numbers_def Let_def)
qed

definition sample_observation :: "string \<Rightarrow> event" where
  "sample_observation number =
     sample_event\<lparr>ev_subjects := \<lparr>su_repository_id = Some ''r'', su_service_ids = [''a''], su_environment = None\<rparr>,
       ev_payload := ServingObserved
         \<lparr>so_observation_id = ''o'', so_environment = ''prod'',
          so_source = \<lparr>os_authority_id = ''k8s'', os_reference = ''x'', os_access_label = ''open''\<rparr>,
          so_completeness = Complete, so_effective_order = number, so_rollback_request_id = None,
          so_serving_state = ServingKnown [\<lparr>am_artifact_id = ''i'', am_revision = KnownRevision ''abc''\<rparr>]\<rparr>\<rparr>"

definition sample_observing :: "json \<Rightarrow> validation_issue list + event" where
  "sample_observing j = Inr (sample_observation (if j = JNull then ''9'' else ''10''))"

theorem observations_ordered_witness:
  "classifyServingObservation (\<lambda>s. s) sample_observing (Some JNull) (JBool True) = Inr Apply"
proof -
  obtain current where current: "parseObservation sample_observing JNull = Inr current"
    "ob_repositoryId current = ''r''" "ob_serviceId current = ''a''" "ob_environment current = ''prod''"
    "ob_provider current = ''git''" "os_authority_id (so_source (ob_payload current)) = ''k8s''" "effective_order current = ''9''"
    by (simp add: parseObservation_def parseEvent_def parserFor_def sample_observing_def sample_observation_def
        sample_event_def validateEventSemantics_def observationIssues_def)
  obtain incoming where incoming: "parseObservation sample_observing (JBool True) = Inr incoming"
    "ob_repositoryId incoming = ''r''" "ob_serviceId incoming = ''a''" "ob_environment incoming = ''prod''"
    "ob_provider incoming = ''git''" "os_authority_id (so_source (ob_payload incoming)) = ''k8s''" "effective_order incoming = ''10''"
    by (simp add: parseObservation_def parseEvent_def parserFor_def sample_observing_def sample_observation_def
        sample_event_def validateEventSemantics_def observationIssues_def)
  have "digits_value ''9'' < digits_value ''10''" "index_segment ''9''" "index_segment ''10''" by code_simp+
  then show ?thesis
    using observations_ordered [OF current(1) incoming(1) inj_on_id2] current incoming
    by (simp add: same_subject_def same_authority_def Let_def)
qed

section \<open>What an environment serves\<close>

definition bindings_of :: "resolution_facts \<Rightarrow> artifact_mapping \<Rightarrow> artifact_binding list" where
  "bindings_of input mapping = filter (\<lambda>b. ab_artifactId b = am_artifact_id mapping) (rf_artifactBindings input)"

definition snapshots_of :: "resolution_facts \<Rightarrow> artifact_mapping \<Rightarrow> revision_snapshot list" where
  "snapshots_of input mapping =
     filter (\<lambda>s. Some (rs_revision s) = known_revision (am_revision mapping)) (rf_revisionSnapshots input)"

text \<open>The artifact is bound to the revision it is reported with, by one binding and no other.\<close>

definition bound :: "resolution_facts \<Rightarrow> artifact_mapping \<Rightarrow> bool" where
  "bound input mapping \<longleftrightarrow>
     (\<exists>b. bindings_of input mapping = [b] \<and> known_revision (am_revision mapping) = Some (ab_revision b))"

definition active_of :: "resolution_facts \<Rightarrow> artifact_mapping \<Rightarrow> active_artifact" where
  "active_of input mapping =
     \<lparr>aa_artifactId = am_artifact_id mapping, aa_revision = known_revision (am_revision mapping),
      aa_snapshotId = (if bound input mapping
        then (case snapshots_of input mapping of [s] \<Rightarrow> Some (rs_snapshotId s) | _ \<Rightarrow> None) else None)\<rparr>"

lemma length_1_cases: "length xs = Suc 0 \<longleftrightarrow> (\<exists>x. xs = [x])"
  by (cases xs) auto

lemma resolve_mapping_eq:
  "resolve_mapping input mapping flags =
     (active_of input mapping,
      (fst flags \<or> \<not> bound input mapping,
       snd flags \<or> bound input mapping \<and> length (snapshots_of input mapping) \<noteq> 1))"
  by (cases flags)
    (auto simp: resolve_mapping_def active_of_def bound_def bindings_of_def [symmetric] snapshots_of_def [symmetric]
      length_1_cases Let_def split: list.splits)

lemma resolve_inventory_eq:
  "resolve_inventory input inventory flags =
     (map (active_of input) inventory,
      (fst flags \<or> (\<exists>mapping \<in> set inventory. \<not> bound input mapping),
       snd flags \<or> (\<exists>mapping \<in> set inventory. bound input mapping \<and> length (snapshots_of input mapping) \<noteq> 1)))"
  by (induction inventory arbitrary: flags) (auto simp: resolve_mapping_eq)

lemma resolve_known:
  assumes "rf_observation input = Some observation" "sf_serving_state observation = ServingKnown inventory" "inventory \<noteq> []"
  shows "resolveEnvironment input =
    (let active = sort_key aa_artifactId (map (active_of input) inventory);
         resolved = list_all (\<lambda>mapping. bound input mapping \<and> length (snapshots_of input mapping) = 1) inventory
     in if sf_completeness observation \<noteq> Complete \<or> length inventory \<noteq> 1
        then \<lparr>er_deployment = TransitionalDeployment, er_contract = Ambiguous, er_active = active,
               er_latestAttempt = rf_latestAttempt input, er_snapshotId = None\<rparr>
        else \<lparr>er_deployment = Deployed,
               er_contract = (if \<not> list_all (bound input) inventory then PendingBinding
                 else if \<not> resolved then PendingAnalysis else Resolved),
               er_active = active, er_latestAttempt = rf_latestAttempt input,
               er_snapshotId = (if resolved then aa_snapshotId (hd active) else None)\<rparr>)"
  using assms
  by (auto simp: resolveEnvironment_def resolve_inventory_eq sort_by_artifact Let_def list_all_iff)

lemma filter_single: "filter P xs = [x] \<Longrightarrow> P x"
  using filter_set [of P xs] by auto

lemma bound_known:
  "bound input \<lparr>am_artifact_id = a, am_revision = reference\<rparr> \<longleftrightarrow>
     (\<exists>r. reference = KnownRevision r
       \<and> filter (\<lambda>b. ab_artifactId b = a) (rf_artifactBindings input) = [\<lparr>ab_artifactId = a, ab_revision = r\<rparr>])"
proof -
  have "b = \<lparr>ab_artifactId = a, ab_revision = ab_revision b\<rparr>"
    if "filter (\<lambda>b. ab_artifactId b = a) (rf_artifactBindings input) = [b]" for b
    using filter_single [OF that] by simp
  then show ?thesis by (cases reference) (auto simp: bound_def bindings_of_def)
qed

lemma snapshots_known:
  "(\<exists>snapshot. snapshots_of input \<lparr>am_artifact_id = a, am_revision = KnownRevision r\<rparr> = [snapshot]
      \<and> rs_snapshotId snapshot = s) \<longleftrightarrow>
     filter (\<lambda>s. rs_revision s = r) (rf_revisionSnapshots input) = [\<lparr>rs_revision = r, rs_snapshotId = s\<rparr>]"
proof -
  have "snapshot = \<lparr>rs_revision = r, rs_snapshotId = rs_snapshotId snapshot\<rparr>"
    if "filter (\<lambda>s. rs_revision s = r) (rf_revisionSnapshots input) = [snapshot]" for snapshot
    using filter_single [OF that] by simp
  then show ?thesis by (auto simp: snapshots_of_def)
qed

text \<open>What one artifact resolves to.\<close>

lemma single_resolution:
  assumes "rf_observation input = Some \<lparr>sf_completeness = Complete, sf_serving_state = ServingKnown [mapping]\<rparr>"
  shows "er_deployment (resolveEnvironment input) = Deployed"
    and "er_contract (resolveEnvironment input) = Resolved \<longleftrightarrow>
      bound input mapping \<and> (\<exists>snapshot. snapshots_of input mapping = [snapshot])"
    and "er_snapshotId (resolveEnvironment input) = Some s \<longleftrightarrow>
      bound input mapping \<and> (\<exists>snapshot. snapshots_of input mapping = [snapshot] \<and> rs_snapshotId snapshot = s)"
  using resolve_known [OF assms] by (auto simp: Let_def active_of_def length_1_cases)

lemma unresolved:
  assumes "\<nexists>mapping. rf_observation input = Some \<lparr>sf_completeness = Complete, sf_serving_state = ServingKnown [mapping]\<rparr>"
  shows "er_snapshotId (resolveEnvironment input) = None" "er_contract (resolveEnvironment input) \<noteq> Resolved"
    and "er_deployment (resolveEnvironment input) \<noteq> Deployed"
proof -
  have *: "er_snapshotId (resolveEnvironment input) = None \<and> er_contract (resolveEnvironment input) \<noteq> Resolved
      \<and> er_deployment (resolveEnvironment input) \<noteq> Deployed"
  proof (cases "rf_observation input")
    case None
    then show ?thesis by (simp add: resolveEnvironment_def unavailable_def)
  next
    case (Some observation)
    show ?thesis
    proof (cases "sf_serving_state observation")
      case (ServingKnown inventory)
      have "sf_completeness observation \<noteq> Complete \<or> length inventory \<noteq> 1"
        using assms Some ServingKnown by (cases observation) (auto simp: length_1_cases)
      then show ?thesis
        using resolve_known [OF Some ServingKnown] Some ServingKnown
        by (cases "inventory = []") (auto simp: Let_def resolveEnvironment_def unavailable_def)
    qed (simp add: resolveEnvironment_def unavailable_def Some)
  qed
  then show "er_snapshotId (resolveEnvironment input) = None" "er_contract (resolveEnvironment input) \<noteq> Resolved"
    "er_deployment (resolveEnvironment input) \<noteq> Deployed" by blast+
qed

lemma deployment_cases:
  "er_deployment (resolveEnvironment input) = ConfirmedNotDeployed \<longleftrightarrow>
     rf_observation input = Some \<lparr>sf_completeness = Complete, sf_serving_state = ServingKnown []\<rparr>"
  "er_deployment (resolveEnvironment input) = TransitionalDeployment \<longleftrightarrow>
     (\<exists>c inventory. rf_observation input = Some \<lparr>sf_completeness = c, sf_serving_state = ServingKnown inventory\<rparr>
       \<and> inventory \<noteq> [] \<and> (c \<noteq> Complete \<or> length inventory \<noteq> 1))"
proof -
  have "(er_deployment (resolveEnvironment input) = ConfirmedNotDeployed \<longleftrightarrow>
       rf_observation input = Some \<lparr>sf_completeness = Complete, sf_serving_state = ServingKnown []\<rparr>)
    \<and> (er_deployment (resolveEnvironment input) = TransitionalDeployment \<longleftrightarrow>
     (\<exists>c inventory. rf_observation input = Some \<lparr>sf_completeness = c, sf_serving_state = ServingKnown inventory\<rparr>
       \<and> inventory \<noteq> [] \<and> (c \<noteq> Complete \<or> length inventory \<noteq> 1)))"
  proof (cases "rf_observation input")
    case None
    then show ?thesis by (simp add: resolveEnvironment_def unavailable_def)
  next
    case (Some observation)
    show ?thesis
    proof (cases "sf_serving_state observation")
      case (ServingKnown inventory)
      then show ?thesis
        using resolve_known [OF Some ServingKnown] Some
        by (cases observation; cases "inventory = []") (auto simp: Let_def resolveEnvironment_def unavailable_def)
    next
      case (ServingUnknown reason observed)
      then show ?thesis using Some by (cases observation) (simp add: resolveEnvironment_def unavailable_def)
    qed
  qed
  then show "er_deployment (resolveEnvironment input) = ConfirmedNotDeployed \<longleftrightarrow>
     rf_observation input = Some \<lparr>sf_completeness = Complete, sf_serving_state = ServingKnown []\<rparr>"
  "er_deployment (resolveEnvironment input) = TransitionalDeployment \<longleftrightarrow>
     (\<exists>c inventory. rf_observation input = Some \<lparr>sf_completeness = c, sf_serving_state = ServingKnown inventory\<rparr>
       \<and> inventory \<noteq> [] \<and> (c \<noteq> Complete \<or> length inventory \<noteq> 1))" by blast+
qed

text \<open>
  C19: An environment resolves to a snapshot exactly when a complete observation names one
  artifact with a known revision, the artifact has one binding, to that revision, and the
  revision one snapshot, which is the one returned. It is confirmed not deployed exactly on a
  complete and empty inventory and deployed exactly on a complete inventory with one artifact;
  any other inventory with artifacts is transitional, and then nothing is resolved.
\<close>

theorem resolution_is_grounded:
  "(er_snapshotId (resolveEnvironment input) = Some s \<longleftrightarrow>
     (\<exists>artifactId revision. rf_observation input = Some \<lparr>sf_completeness = Complete,
         sf_serving_state = ServingKnown [\<lparr>am_artifact_id = artifactId, am_revision = KnownRevision revision\<rparr>]\<rparr>
       \<and> filter (\<lambda>b. ab_artifactId b = artifactId) (rf_artifactBindings input) =
           [\<lparr>ab_artifactId = artifactId, ab_revision = revision\<rparr>]
       \<and> filter (\<lambda>r. rs_revision r = revision) (rf_revisionSnapshots input) =
           [\<lparr>rs_revision = revision, rs_snapshotId = s\<rparr>]))
   \<and> (er_contract (resolveEnvironment input) = Resolved \<longleftrightarrow> er_snapshotId (resolveEnvironment input) \<noteq> None)
   \<and> (er_deployment (resolveEnvironment input) = ConfirmedNotDeployed \<longleftrightarrow>
        rf_observation input = Some \<lparr>sf_completeness = Complete, sf_serving_state = ServingKnown []\<rparr>)
   \<and> (er_deployment (resolveEnvironment input) = Deployed \<longleftrightarrow>
        (\<exists>mapping. rf_observation input = Some \<lparr>sf_completeness = Complete, sf_serving_state = ServingKnown [mapping]\<rparr>))
   \<and> (er_deployment (resolveEnvironment input) = TransitionalDeployment \<longleftrightarrow>
        (\<exists>c inventory. rf_observation input = Some \<lparr>sf_completeness = c, sf_serving_state = ServingKnown inventory\<rparr>
          \<and> inventory \<noteq> [] \<and> (c \<noteq> Complete \<or> length inventory \<noteq> 1)))"
proof (intro conjI deployment_cases)
  show "er_snapshotId (resolveEnvironment input) = Some s \<longleftrightarrow>
     (\<exists>artifactId revision. rf_observation input = Some \<lparr>sf_completeness = Complete,
         sf_serving_state = ServingKnown [\<lparr>am_artifact_id = artifactId, am_revision = KnownRevision revision\<rparr>]\<rparr>
       \<and> filter (\<lambda>b. ab_artifactId b = artifactId) (rf_artifactBindings input) =
           [\<lparr>ab_artifactId = artifactId, ab_revision = revision\<rparr>]
       \<and> filter (\<lambda>r. rs_revision r = revision) (rf_revisionSnapshots input) =
           [\<lparr>rs_revision = revision, rs_snapshotId = s\<rparr>])"
  proof (cases "\<exists>mapping. rf_observation input = Some \<lparr>sf_completeness = Complete, sf_serving_state = ServingKnown [mapping]\<rparr>")
    case True
    then obtain a reference where input: "rf_observation input = Some \<lparr>sf_completeness = Complete,
        sf_serving_state = ServingKnown [\<lparr>am_artifact_id = a, am_revision = reference\<rparr>]\<rparr>"
      by (metis artifact_mapping.cases)
    show ?thesis
    proof (cases reference)
      case (KnownRevision r)
      show ?thesis
        unfolding single_resolution(3) [OF input] KnownRevision snapshots_known bound_known
        using input KnownRevision by auto
    qed (use input in \<open>simp add: single_resolution(3) [OF input] bound_known\<close>)
  next
    case False
    then show ?thesis using unresolved(1) [OF False] by auto
  qed
  show "er_contract (resolveEnvironment input) = Resolved \<longleftrightarrow> er_snapshotId (resolveEnvironment input) \<noteq> None"
    using single_resolution(2,3) unresolved(1,2) by fastforce
  show "er_deployment (resolveEnvironment input) = Deployed \<longleftrightarrow>
        (\<exists>mapping. rf_observation input = Some \<lparr>sf_completeness = Complete, sf_serving_state = ServingKnown [mapping]\<rparr>)"
    using single_resolution(1) unresolved(3) by blast
qed

lemma filter_single_cong:
  "mset xs = mset ys \<Longrightarrow> filter P xs = [x] \<longleftrightarrow> filter P ys = [x]"
  by (metis mset_filter mset_single_iff)

lemma active_cong:
  assumes "mset (rf_artifactBindings input) = mset (rf_artifactBindings other)"
    and "mset (rf_revisionSnapshots input) = mset (rf_revisionSnapshots other)"
  shows "bound input = bound other" "active_of input = active_of other"
    and "length (snapshots_of input m) = length (snapshots_of other m)"
proof -
  show bound: "bound input = bound other"
    by (intro ext) (simp add: bound_def bindings_of_def filter_single_cong [OF assms(1)])
  have snapshots: "snapshots_of input m = [s] \<longleftrightarrow> snapshots_of other m = [s]" for m s
    by (simp add: snapshots_of_def filter_single_cong [OF assms(2)])
  have "(case snapshots_of input m of [s] \<Rightarrow> Some (rs_snapshotId s) | _ \<Rightarrow> None) =
      (case snapshots_of other m of [s] \<Rightarrow> Some (rs_snapshotId s) | _ \<Rightarrow> None)" for m
    using snapshots [of m "hd (snapshots_of other m)"] snapshots [of m "hd (snapshots_of input m)"]
    by (auto split: list.split)
  then show "active_of input = active_of other"
    by (intro ext) (simp add: active_of_def bound)
  show "length (snapshots_of input m) = length (snapshots_of other m)"
    using assms(2) by (metis mset_filter size_mset snapshots_of_def)
qed

text \<open>
  C21: What an environment serves does not depend on the order in which the facts arrive: two
  inputs with the same inventory, the same bindings and the same snapshots in any order resolve
  to the same value, as long as an artifact appears once in the inventory.
\<close>

theorem resolution_order_free:
  assumes "rf_observation input = Some \<lparr>sf_completeness = c, sf_serving_state = ServingKnown inventory\<rparr>"
    and "rf_observation other = Some \<lparr>sf_completeness = c, sf_serving_state = ServingKnown inventory'\<rparr>"
    and "mset inventory = mset inventory'" "distinct (map am_artifact_id inventory)"
    and "mset (rf_artifactBindings input) = mset (rf_artifactBindings other)"
    and "mset (rf_revisionSnapshots input) = mset (rf_revisionSnapshots other)"
    and "rf_latestAttempt input = rf_latestAttempt other"
  shows "resolveEnvironment input = resolveEnvironment other"
proof (cases "inventory = []")
  case True
  then show ?thesis using assms by (simp add: resolveEnvironment_def unavailable_def)
next
  case False
  then have nonempty: "inventory' \<noteq> []" using assms(3) by auto
  note cong = active_cong [OF assms(5,6)]
  have same: "set inventory = set inventory'" "length inventory = length inventory'"
    using assms(3) by (auto dest: mset_eq_setD mset_eq_length)
  have sorted: "sort_key aa_artifactId (map (active_of input) inventory) =
      sort_key aa_artifactId (map (active_of input) inventory')"
  proof (subst sort_key_distinct_eq)
    have keys: "map aa_artifactId (map (active_of input) ms) = map am_artifact_id ms" for ms
      by (simp add: active_of_def)
    show "distinct (map aa_artifactId (map (active_of input) inventory))"
      unfolding keys by (rule assms(4))
    show "distinct (map aa_artifactId (map (active_of input) inventory'))"
      unfolding keys using assms(3,4) by (metis mset_eq_imp_distinct_iff mset_map)
  qed (simp add: assms(3))
  show ?thesis
    using resolve_known [OF assms(1) _ False] resolve_known [OF assms(2) _ nonempty] sorted
    by (simp add: cong same list_all_iff Let_def assms(7))
qed


definition sample_facts :: "artifact_mapping list \<Rightarrow> resolution_facts" where
  "sample_facts inventory =
     \<lparr>rf_observation = Some \<lparr>sf_completeness = Complete, sf_serving_state = ServingKnown inventory\<rparr>,
      rf_latestAttempt = None, rf_artifactBindings = [\<lparr>ab_artifactId = ''i'', ab_revision = ''abc''\<rparr>],
      rf_revisionSnapshots = []\<rparr>"

theorem resolution_is_grounded_witness:
  "er_snapshotId (resolveEnvironment
       ((sample_facts [\<lparr>am_artifact_id = ''i'', am_revision = KnownRevision ''abc''\<rparr>])
          \<lparr>rf_revisionSnapshots := [\<lparr>rs_revision = ''abc'', rs_snapshotId = ''s''\<rparr>]\<rparr>)) = Some ''s''"
  by (subst resolution_is_grounded [THEN conjunct1]) (simp add: sample_facts_def)

theorem resolution_order_free_witness:
  "resolveEnvironment (sample_facts [\<lparr>am_artifact_id = ''i'', am_revision = KnownRevision ''abc''\<rparr>,
       \<lparr>am_artifact_id = ''h'', am_revision = UnknownRevision ''none''\<rparr>]) =
   resolveEnvironment (sample_facts [\<lparr>am_artifact_id = ''h'', am_revision = UnknownRevision ''none''\<rparr>,
       \<lparr>am_artifact_id = ''i'', am_revision = KnownRevision ''abc''\<rparr>])"
  by (rule resolution_order_free [where c = Complete
        and inventory = "[\<lparr>am_artifact_id = ''i'', am_revision = KnownRevision ''abc''\<rparr>,
          \<lparr>am_artifact_id = ''h'', am_revision = UnknownRevision ''none''\<rparr>]"
        and inventory' = "[\<lparr>am_artifact_id = ''h'', am_revision = UnknownRevision ''none''\<rparr>,
          \<lparr>am_artifact_id = ''i'', am_revision = KnownRevision ''abc''\<rparr>]"])
    (simp_all add: sample_facts_def)

end
