(* ===== verification/Spec2Isabelle.thy ===== *)
theory Spec2Isabelle
  imports UpdExecute OrchState OrchLocking EnvServing
begin

text \<open>
  A verification development for the contract core of API Truth: the intermediate representation
  of \<open>packages/ir\<close>, the update engine of \<open>packages/updates\<close>, the deterministic core of
  \<open>packages/orchestration\<close>, the observations and resolution of \<open>packages/environment\<close>, and the
  parts of \<open>packages/catalog\<close> these call.

  \<^bold>\<open>How the parts interact.\<close> An analyzer's result becomes a contract snapshot. A planner compares
  the analysis key and the changed files of a new revision with a base snapshot and decides
  between reuse and a full analysis; the executor carries the plan out and compares the two
  snapshots; the differences are validated before they leave. Events announce revisions and
  deployments; the orchestration authorizes them, hashes them, selects branches, orders updates
  of a provider, takes advisory locks and moves jobs and outbox messages through their states.
  Observations of a serving environment are ordered and resolve to a snapshot.

  \<^bold>\<open>Theories.\<close>

  \<^item> \<open>Prelude\<close> holds the containers every component uses: results, insertion-ordered sets and
    maps, the stable sort of \<open>Array.prototype.sort\<close> and the locale \<open>collation\<close> of the orders it
    is called with.
  \<^item> \<open>Text\<close> and \<open>Json\<close> model \<open>canonical.ts\<close>: UTF-8 and code point comparison, canonical sets,
    the canonical serializer on arbitrary JavaScript values. \<open>JsonParse\<close> models \<open>JSON.parse\<close> and
    shows that it inverts the serializer up to the order of members.
  \<^item> \<open>Ir\<close> holds the records of a contract snapshot, \<open>Identity\<close> models \<open>ir/src/identity.ts\<close>,
    \<open>Snapshot\<close> the semantic validation of \<open>ir/src/snapshot.ts\<close>: an accepted snapshot is closed
    and its eligible claims are grounded. \<open>IrEvents\<close> models \<open>events.ts\<close> and \<open>config.ts\<close>,
    \<open>IrAnalyzer\<close> models \<open>analyzer.ts\<close> and the conversion in \<open>catalog/src/snapshot.ts\<close>.
  \<^item> \<open>UpdTypes\<close> models \<open>updates/src/types.ts\<close> and \<open>errors.ts\<close>; \<open>UpdOwnership\<close> the endpoint
    ownership index of \<open>planner.ts\<close>; \<open>UpdPlan\<close> the planning input and the plan of \<open>input.ts\<close> and
    \<open>schema.ts\<close>; \<open>UpdPlanner\<close> the planner itself, over a locale that says what an ownership index
    promises.
  \<^item> \<open>UpdDifference\<close> models the difference set and its validation (\<open>schema.ts\<close>); \<open>UpdProject\<close>
    the projections, \<open>UpdClaims\<close> the claims and \<open>UpdDiff\<close> the comparison of \<open>differences.ts\<close>.
    \<open>UpdExecute\<close> models \<open>execute.ts\<close>, where planner, analyzer and comparison meet.
  \<^item> \<open>OrchBase\<close> holds the errors of the orchestration and the detached copy its reducers read;
    \<open>OrchState\<close> models \<open>state.ts\<close> with step relations as specifications; \<open>OrchLocking\<close> models
    \<open>locking.ts\<close> and the restart loop of \<open>database.ts\<close>, the database being a step relation on
    sessions; \<open>OrchConfig\<close> models \<open>configuration.ts\<close> and \<open>branch-selection.ts\<close>; \<open>OrchAuthorize\<close>
    models \<open>authorization.ts\<close> and the contexts of \<open>schemas.ts\<close>; \<open>OrchOrdering\<close> models
    \<open>ordering.ts\<close> over the locale \<open>decimal_comparison\<close>, which the comparisons of three packages
    interpret; \<open>OrchIdentity\<close> models \<open>hashing.ts\<close> and \<open>reconciliation-scheduler.ts\<close>.
  \<^item> \<open>EnvServing\<close> models \<open>environment/src/ordering.ts\<close>, \<open>resolution.ts\<close> and \<open>errors.ts\<close>.

  \<^bold>\<open>Parameters.\<close> Third-party code is a parameter: the shape validator Ajv (a function from a
  value to issues or the typed value), its verdict on an embedded schema graph, the acceptance
  test of \<open>RegExp\<close> on an arbitrary pattern, the collation of \<open>localeCompare\<close>, SHA-256, the
  analyzer and the database's lock hash. The hypotheses about them are that the validator returns
  the value it was given (\<open>same_value\<close>), that the comparison orders totally, and that the hash
  separates the texts at hand.

  \<^bold>\<open>Bounds.\<close> Strings are restricted to code points below 256, numbers in JSON to integers. No
  definition uses fuel: every loop is structural or has a measure, but for the scan of path
  parameters in \<open>differences.ts\<close>, which may run forever and is an optional value, with the
  condition under which it returns. The retry delay is computed in doubles, with the rounding
  written out, and proved equal to the unbounded backoff.

  \<^bold>\<open>What modelling showed.\<close> The planner throws on an accepted base snapshot whose revision is not
  hexadecimal; \<open>canonicalSchema\<close> rewrites data inside \<open>enum\<close> and \<open>const\<close>; a brace that is never
  closed makes the comparison run forever; components named after members of
  \<open>Object.prototype\<close> are looked up in the prototype; a catalog lock without identity passes
  validation and locks nothing. The manifest lists them with their sources.

  \<^bold>\<open>Not modelled.\<close> The SQL of the repositories, schedulers, workers, leases and migrations
  (what PostgreSQL returns decides nearly every branch there), the query readers built on it,
  the analyzers (walks over the syntax trees of third-party compilers), the OpenAPI compiler, the
  connectors and applications (network, files and processes), and of the modelled files the
  TypeBox shapes that no code inspects.
\<close>

end
